(* ===== verification/Prelude.thy ===== *)
theory Prelude
  imports Complex_Main "HOL-Library.AList" "HOL-Library.List_Lexorder" "HOL-Library.Char_ord"
    "HOL-Library.Product_Lexorder"
begin

text \<open>
  Shared vocabulary of the development.  A Python exception is a value of
  \<open>exn\<close>, a call that may raise returns \<open>exn + 'a\<close> (\<open>Inl\<close> is the raise), and a
  Python \<^verbatim>\<open>dict\<close> is an association list in insertion order: assignment keeps the
  position of an existing key and appends a new one, which is exactly
  \<^const>\<open>AList.update\<close>; \<^verbatim>\<open>del\<close>/\<^verbatim>\<open>pop\<close> is \<^const>\<open>AList.delete\<close>.  Clock readings
  and heat values are reals, byte counts and counters are unbounded integers.
\<close>

section \<open>Exceptions and results\<close>

datatype exn =
    is_Conflict: Conflict string
  | is_StaleOperation: StaleOperation string
  | is_ValueError: ValueError string
  | is_KeyError: KeyError string
  | is_OverflowError: OverflowError string
  | is_TimeoutError: TimeoutError string
  | is_AttributeError: AttributeError string
  | is_ModelUnavailable: ModelUnavailable string
  | is_QueueFull: QueueFull string
  | is_SessionConflict: SessionConflict string
  | is_SessionNotFound: SessionNotFound string
  | is_ContractError: ContractError string
  | is_IdentityError: IdentityError string
  | is_QuotaExceeded: QuotaExceeded string
  | is_BlobStoreError: BlobStoreError string
  | is_ExecutionError: ExecutionError string
  | is_OSError: OSError string
  | is_TypeError: TypeError string
  | is_SubprocessError: SubprocessError string
  | is_ObservationError: ObservationError string
  | is_AssetFault: AssetFault string
  | is_AssetTimeout: AssetTimeout string
  | is_LaunchRenderError: LaunchRenderError string

type_synonym 'a result = "exn + 'a"
type_synonym ('k, 'v) dict = "('k \<times> 'v) list"
type_synonym time = real

named_theorems result_simps "equations of the result monad"
named_theorems dict_simps "lookup and key equations of dictionaries"

text \<open>Sequencing: an exception ends the call, a value is passed on.\<close>

definition rbind :: "'e + 'a \<Rightarrow> ('a \<Rightarrow> 'e + 'b) \<Rightarrow> 'e + 'b" where
  "rbind m f = (case m of Inl e \<Rightarrow> Inl e | Inr x \<Rightarrow> f x)"

text \<open>\<^verbatim>\<open>if c: raise e\<close>, as a statement of a sequence.\<close>

definition raise_if :: "bool \<Rightarrow> 'e \<Rightarrow> 'e + unit" where
  "raise_if c e = (if c then Inl e else Inr ())"

lemma rbind_Inl [simp, result_simps]: "rbind (Inl e) f = Inl e"
  by (simp add: rbind_def)

lemma rbind_Inr [simp, result_simps]: "rbind (Inr x) f = f x"
  by (simp add: rbind_def)

lemma rbind_eq_Inr_iff [result_simps]:
  "rbind m f = Inr y \<longleftrightarrow> (\<exists>x. m = Inr x \<and> f x = Inr y)"
  by (cases m) auto

lemma rbind_eq_Inl_iff [result_simps]:
  "rbind m f = Inl e \<longleftrightarrow> m = Inl e \<or> (\<exists>x. m = Inr x \<and> f x = Inl e)"
  by (cases m) auto

lemma rbind_InrE [elim!]:
  assumes "rbind m f = Inr y"
  obtains x where "m = Inr x" and "f x = Inr y"
  using assms by (cases m) auto

lemma raise_if_simps [simp, result_simps]:
  "raise_if True e = Inl e" "raise_if False e = Inr ()"
  by (simp_all add: raise_if_def)

lemma raise_if_eq_Inr [simp, result_simps]: "raise_if c e = Inr u \<longleftrightarrow> \<not> c"
  by (simp add: raise_if_def)

lemma raise_if_eq_Inl [simp, result_simps]: "raise_if c e = Inl e' \<longleftrightarrow> c \<and> e = e'"
  by (auto simp: raise_if_def)

text \<open>A loop whose body may raise, over the items in order.\<close>

fun each :: "('a \<Rightarrow> 's \<Rightarrow> 'e + 's) \<Rightarrow> 'a list \<Rightarrow> 's \<Rightarrow> 'e + 's" where
  "each f [] s = Inr s"
| "each f (x # xs) s = rbind (f x s) (each f xs)"

lemma each_inv:
  assumes "each f xs s = Inr s'" and "P s"
    and "\<And>x s s'. x \<in> set xs \<Longrightarrow> P s \<Longrightarrow> f x s = Inr s' \<Longrightarrow> P s'"
  shows "P s'"
  using assms
proof (induction xs arbitrary: s)
  case Nil
  then show ?case by simp
next
  case (Cons x xs)
  from Cons.prems(1) obtain t where t: "f x s = Inr t" and rest: "each f xs t = Inr s'" by auto
  have "P t" using Cons.prems(3) [of x s t] Cons.prems(2) t by simp
  with rest Cons.IH Cons.prems(3) show ?case by (metis list.set_intros(2))
qed

section \<open>Dictionaries\<close>

abbreviation dget :: "('k, 'v) dict \<Rightarrow> 'k \<Rightarrow> 'v option" where
  "dget d k \<equiv> map_of d k"

abbreviation dput :: "'k \<Rightarrow> 'v \<Rightarrow> ('k, 'v) dict \<Rightarrow> ('k, 'v) dict" where
  "dput k v d \<equiv> AList.update k v d"

abbreviation ddel :: "'k \<Rightarrow> ('k, 'v) dict \<Rightarrow> ('k, 'v) dict" where
  "ddel k d \<equiv> AList.delete k d"

abbreviation dkeys :: "('k, 'v) dict \<Rightarrow> 'k list" where
  "dkeys d \<equiv> map fst d"

abbreviation dvals :: "('k, 'v) dict \<Rightarrow> 'v list" where
  "dvals d \<equiv> map snd d"

declare map_of_eq_Some_iff [simp del] Some_eq_map_of_iff [simp del]

text \<open>\<^verbatim>\<open>d[k]\<close>: a missing key raises.\<close>

definition dlookup :: "(string, 'v) dict \<Rightarrow> string \<Rightarrow> 'v result" where
  "dlookup d k = (case dget d k of None \<Rightarrow> Inl (KeyError k) | Some v \<Rightarrow> Inr v)"

text \<open>Mutation of the object stored under a key (\<^verbatim>\<open>o = d[k]; o.field = ...\<close>).\<close>

definition dmodify :: "'k \<Rightarrow> ('v \<Rightarrow> 'v) \<Rightarrow> ('k, 'v) dict \<Rightarrow> ('k, 'v) dict" where
  "dmodify k f d = map (\<lambda>(k', v). (k', if k' = k then f v else v)) d"

text \<open>Truth value of an optional string: \<^verbatim>\<open>None\<close> and the empty string are false.\<close>

fun truthy :: "string option \<Rightarrow> bool" where
  "truthy None = False"
| "truthy (Some s) = (s \<noteq> [])"

lemma truthy_iff: "truthy x \<longleftrightarrow> x \<noteq> None \<and> x \<noteq> Some []"
  by (cases x) auto

lemma dlookup_Inr [simp, dict_simps]: "dlookup d k = Inr v \<longleftrightarrow> dget d k = Some v"
  by (simp add: dlookup_def split: option.splits)

lemma dlookup_Inl [simp, dict_simps]: "dlookup d k = Inl e \<longleftrightarrow> dget d k = None \<and> e = KeyError k"
  by (auto simp: dlookup_def split: option.splits)

lemma dlookup_Some: "dget d k = Some v \<Longrightarrow> dlookup d k = Inr v"
  by simp

lemma dkeys_dmodify [simp, dict_simps]: "dkeys (dmodify k f d) = dkeys d"
  by (induction d) (auto simp: dmodify_def)

lemma keys_dmodify [simp, dict_simps]: "fst ` set (dmodify k f d) = fst ` set d"
  using dkeys_dmodify [of k f d] by (metis list.set_map)

lemma keys_dput [simp, dict_simps]: "fst ` set (dput k v d) = insert k (fst ` set d)"
  by (induction d) auto

lemma keys_ddel [simp, dict_simps]: "fst ` set (ddel k d) = fst ` set d - {k}"
  by (induction d) auto

lemma dget_dmodify [simp, dict_simps]:
  "dget (dmodify k f d) k' = (if k' = k then map_option f (dget d k) else dget d k')"
  by (induction d) (auto simp: dmodify_def)

lemma length_dmodify [simp, dict_simps]: "length (dmodify k f d) = length d"
  by (simp add: dmodify_def)

lemma dget_dput [simp, dict_simps]: "dget (dput k v d) k' = (if k' = k then Some v else dget d k')"
  by (simp add: update_conv')

lemma dget_ddel [simp, dict_simps]: "dget (ddel k d) k' = (if k' = k then None else dget d k')"
  by (simp add: delete_conv')

lemma dget_None_iff: "dget d k = None \<longleftrightarrow> k \<notin> set (dkeys d)"
  by (simp add: map_of_eq_None_iff)

lemma dget_key: "dget d k = Some v \<Longrightarrow> k \<in> set (dkeys d)"
  by (metis dget_None_iff option.distinct(1))

lemma dkey_get:
  assumes "k \<in> set (dkeys d)"
  obtains v where "dget d k = Some v"
  using assms dget_None_iff [of d k] by (cases "dget d k") auto

lemma dget_in_set: "dget d k = Some v \<Longrightarrow> (k, v) \<in> set d"
  by (rule map_of_SomeD)

lemma dget_in_dvals: "dget d k = Some v \<Longrightarrow> v \<in> set (dvals d)"
  by (auto dest!: map_of_SomeD intro!: image_eqI)

lemma distinct_dkeys_dput [intro]: "distinct (dkeys d) \<Longrightarrow> distinct (dkeys (dput k v d))"
  by (rule distinct_update)

lemma distinct_dkeys_ddel [intro]: "distinct (dkeys d) \<Longrightarrow> distinct (dkeys (ddel k d))"
  by (rule distinct_delete)

lemma dput_new: "k \<notin> set (dkeys d) \<Longrightarrow> dput k v d = d @ [(k, v)]"
  by (induction d) auto

lemma length_ddel_le: "length (ddel k d) \<le> length d"
  by (rule length_delete_le)

lemma set_ddel: "set (ddel k d) = {p \<in> set d. fst p \<noteq> k}"
  by (induction d) auto

lemma dget_iff_mem:
  "distinct (dkeys d) \<Longrightarrow> dget d k = Some v \<longleftrightarrow> (k, v) \<in> set d"
  by (simp add: map_of_eq_Some_iff)

lemma length_dput: "length (dput k v d) = (if k \<in> set (dkeys d) then length d else Suc (length d))"
  by (induction d) auto

section \<open>Sums over dictionaries\<close>

text \<open>Changing one entry changes a sum by the difference of that entry.\<close>

lemma sum_list_dmodify:
  fixes g :: "'k \<times> 'v \<Rightarrow> int"
  assumes "distinct (dkeys d)" and "dget d k = Some v"
  shows "sum_list (map g (dmodify k f d)) = sum_list (map g d) - g (k, v) + g (k, f v)"
  using assms
proof (induction d)
  case Nil
  then show ?case by simp
next
  case (Cons p d)
  obtain k' v' where p: "p = (k', v')" by (cases p)
  show ?case
  proof (cases "k' = k")
    case True
    with Cons.prems p have "k \<notin> set (dkeys d)" by auto
    then have "dmodify k f d = d"
      by (induction d) (auto simp: dmodify_def)
    with True p Cons.prems show ?thesis by (simp add: dmodify_def)
  next
    case False
    with Cons p show ?thesis by (simp add: dmodify_def)
  qed
qed

lemma sum_list_nonneg_member:
  fixes g :: "'a \<Rightarrow> int"
  assumes "\<forall>x \<in> set xs. 0 \<le> g x" and "x \<in> set xs"
  shows "g x \<le> sum_list (map g xs)"
  using assms
proof (induction xs)
  case Nil
  then show ?case by simp
next
  case (Cons y ys)
  have "0 \<le> sum_list (map g ys)"
    using Cons.prems(1) by (intro sum_list_nonneg) auto
  with Cons show ?case by force
qed

section \<open>State machines\<close>

text \<open>
  A component with state is an initial-state predicate and a step relation.  What
  holds initially and is kept by each step holds in all states the component reaches.
\<close>

inductive reaches :: "('s \<Rightarrow> bool) \<Rightarrow> ('s \<Rightarrow> 's \<Rightarrow> bool) \<Rightarrow> 's \<Rightarrow> bool"
  for start :: "'s \<Rightarrow> bool" and step :: "'s \<Rightarrow> 's \<Rightarrow> bool"
where
  reaches_start: "start s \<Longrightarrow> reaches start step s"
| reaches_step: "reaches start step s \<Longrightarrow> step s t \<Longrightarrow> reaches start step t"

locale machine =
  fixes start :: "'s \<Rightarrow> bool" and step :: "'s \<Rightarrow> 's \<Rightarrow> bool" and inv :: "'s \<Rightarrow> bool"
  assumes start_inv: "start s \<Longrightarrow> inv s"
    and step_inv: "inv s \<Longrightarrow> step s t \<Longrightarrow> inv t"
begin

lemma reaches_inv: "reaches start step s \<Longrightarrow> inv s"
  by (induction rule: reaches.induct) (auto intro: start_inv step_inv)

lemma steps_inv: "step\<^sup>*\<^sup>* s t \<Longrightarrow> inv s \<Longrightarrow> inv t"
  by (induction rule: rtranclp_induct) (auto intro: step_inv)

lemma reaches_steps: "step\<^sup>*\<^sup>* s t \<Longrightarrow> reaches start step s \<Longrightarrow> reaches start step t"
  by (induction rule: rtranclp_induct) (auto intro: reaches_step)

text \<open>What each step from a consistent state keeps, a run keeps.\<close>

lemma steps_stable:
  assumes "\<And>s t. inv s \<Longrightarrow> step s t \<Longrightarrow> Q s \<Longrightarrow> Q t"
  shows "step\<^sup>*\<^sup>* s t \<Longrightarrow> inv s \<Longrightarrow> Q s \<Longrightarrow> Q t"
proof (induction rule: rtranclp_induct)
  case (step t u)
  then show ?case using assms [of t u] steps_inv by blast
qed

text \<open>A measure that no step lowers never drops along a run.\<close>

lemma steps_mono:
  fixes m :: "'s \<Rightarrow> 'n::order"
  assumes "\<And>s t. inv s \<Longrightarrow> step s t \<Longrightarrow> m s \<le> m t"
  shows "step\<^sup>*\<^sup>* s t \<Longrightarrow> inv s \<Longrightarrow> m s \<le> m t"
proof (induction rule: rtranclp_induct)
  case base
  then show ?case by simp
next
  case (step t u)
  then have "m s \<le> m t" "m t \<le> m u" using assms steps_inv by blast+
  then show ?case by (rule order_trans)
qed

end

text \<open>
  Forward simulation: when each step of the concrete machine is matched by a run of the abstract
  one, so is each run, and what the abstract machine keeps is kept by the concrete one.
\<close>

locale step_refinement =
  fixes cstep :: "'c \<Rightarrow> 'c \<Rightarrow> bool" and astep :: "'a \<Rightarrow> 'a \<Rightarrow> bool" and rel :: "'c \<Rightarrow> 'a \<Rightarrow> bool"
  assumes sim: "rel s a \<Longrightarrow> cstep s t \<Longrightarrow> \<exists>a'. astep\<^sup>*\<^sup>* a a' \<and> rel t a'"
begin

lemma runs: "cstep\<^sup>*\<^sup>* s t \<Longrightarrow> rel s a \<Longrightarrow> \<exists>a'. astep\<^sup>*\<^sup>* a a' \<and> rel t a'"
proof (induction rule: rtranclp_induct)
  case base
  then show ?case by blast
next
  case (step t u)
  then obtain a' where a': "astep\<^sup>*\<^sup>* a a'" "rel t a'" by blast
  from sim [OF a'(2) step.hyps(2)] obtain a'' where "astep\<^sup>*\<^sup>* a' a''" "rel u a''" by blast
  with a'(1) show ?case by (blast intro: rtranclp_trans)
qed

end

end
