(* ===== verification/Contracts.thy ===== *)
theory Contracts
  imports Prelude
begin

text \<open>
  The framework-free data of \<^verbatim>\<open>model_scheduler/contracts.py\<close>: enumerations as
  datatypes, frozen dataclasses as records.  Field names carry the class as a prefix
  where two classes share one.
\<close>

datatype State = UNKNOWN | UNLOADED | LOADING | READY | EVICTING | ERROR

datatype Capability = CHAT | EMBEDDINGS | RERANK

datatype Outcome = SUCCESS | REJECTED | ABORTED

datatype Presence = P_RUNNING | P_STOPPED | P_UNKNOWN

record ModelSpec =
  ms_model_id :: string
  ms_upstream_url :: string
  ms_capabilities :: "Capability list"
  ms_reserved_bytes :: int
  ms_priority :: int
  ms_max_concurrency :: int
  ms_pinned :: bool
  ms_evictable :: bool
  ms_preload :: bool
  ms_ttl_seconds :: time

record MemorySample =
  total_bytes :: int
  available_bytes :: int
  sampled_at :: time

record Lease =
  lease_id :: string
  lease_request_id :: string
  lease_model_id :: string
  lease_generation :: int

record Operation =
  op_operation_id :: string
  op_model_id :: string
  op_generation :: int
  op_epoch :: int

record Observation =
  obs_presence :: Presence
  obs_instance_id :: "string option"
  obs_healthy :: bool
  obs_observed_at :: time
  obs_detail_code :: "string option"

record RecoveryResult =
  rec_ok :: bool
  rec_phase :: string
  rec_error_code :: "string option"
  rec_stopped_models :: "string list"

fun State_value :: "State \<Rightarrow> string" where
  "State_value UNKNOWN = ''unknown''"
| "State_value UNLOADED = ''unloaded''"
| "State_value LOADING = ''loading''"
| "State_value READY = ''ready''"
| "State_value EVICTING = ''evicting''"
| "State_value ERROR = ''error''"

fun Capability_value :: "Capability \<Rightarrow> string" where
  "Capability_value CHAT = ''chat''"
| "Capability_value EMBEDDINGS = ''embeddings''"
| "Capability_value RERANK = ''rerank''"

text \<open>A comparison of \<^verbatim>\<open>state.value\<close> with a string is a comparison of the members.\<close>

lemma State_value_inject: "State_value a = State_value b \<longleftrightarrow> a = b"
  by (cases a; cases b) auto

end
