(* ===== verification/Contracts_V2.thy ===== *)
theory Contracts_V2
  imports Contracts
begin

text \<open>
  The schema-v2 registration contracts of \<^verbatim>\<open>model_scheduler/contracts_v2.py\<close>.
\<close>

section \<open>Registered data\<close>

record AssetRef =
  ar_role :: string
  ar_path :: string
  ar_sha256 :: string
  ar_size_bytes :: int

record RuntimeSpec =
  rs_runtime_id :: string
  rs_profile_id :: string
  rs_image_digest :: string
  rs_adapter_sha256 :: string
  rs_lock_sha256 :: string
  rs_startup_args :: "string list"

record Envelope =
  env_ctx_size :: int
  env_max_input_tokens :: int
  env_max_output_tokens :: int
  env_max_parallel :: int
  env_max_image_tokens :: int
  env_max_image_edge_pixels :: int
  env_max_images :: int

record RegisteredModelSpec =
  rm_model_id :: string
  rm_runtime_id :: string
  rm_capabilities :: "string list"
  rm_assets :: "AssetRef list"
  rm_port :: int
  rm_envelope :: Envelope
  rm_timeout_seconds :: int
  rm_reserved_bytes :: int
  rm_measured :: bool
  rm_measurement_ref :: "string option"
  rm_physical_resident_peak_bytes :: "int option"

section \<open>Exact-integer reservation helpers\<close>

definition MARGIN_PERCENT :: int where "MARGIN_PERCENT = 115"
definition MARGIN_DIVISOR :: int where "MARGIN_DIVISOR = 100"

definition positive_int :: "int \<Rightarrow> int result" where
  "positive_int v = (if v \<le> 0 then Inl (ContractError ''must be a positive integer'') else Inr v)"

definition reserved_bytes_from_peak :: "int \<Rightarrow> int result" where
  "reserved_bytes_from_peak measured_peak_bytes =
     rbind (positive_int measured_peak_bytes) (\<lambda>peak.
       Inr ((peak * MARGIN_PERCENT + MARGIN_DIVISOR - 1) div MARGIN_DIVISOR))"

definition physical_reserved_bytes_from_peak :: "int \<Rightarrow> int result" where
  "physical_reserved_bytes_from_peak physical_resident_peak_bytes =
     rbind (positive_int physical_resident_peak_bytes) (\<lambda>peak.
       Inr ((peak * MARGIN_PERCENT + MARGIN_DIVISOR - 1) div MARGIN_DIVISOR))"

text \<open>\<open>None\<close> is a v2 registration; \<open>Some m\<close> is the v1 boundary with margin \<open>m\<close>.\<close>

definition effective_reserved_bytes :: "int \<Rightarrow> real option \<Rightarrow> int result" where
  "effective_reserved_bytes reserved_bytes legacy_v1_margin =
     rbind (positive_int reserved_bytes) (\<lambda>reserved.
       case legacy_v1_margin of
         None \<Rightarrow> Inr reserved
       | Some m \<Rightarrow>
           if \<not> (0 \<le> m \<and> m \<le> 1) then Inl (ContractError ''legacy_v1_margin: must be within 0..1'')
           else Inr \<lceil>real_of_int reserved * (1 + m)\<rceil>)"

lemma positive_int_Inr [simp, result_simps]: "positive_int v = Inr w \<longleftrightarrow> 0 < v \<and> w = v"
  by (auto simp: positive_int_def)

lemma ceil_div_100: "(p * 115 + 100 - 1) div 100 = \<lceil>real_of_int p * 1.15\<rceil>" for p :: int
proof -
  have eq: "real_of_int p * 1.15 = real_of_int (p * 115) / 100" by simp
  have "\<lceil>real_of_int (p * 115) / real_of_int 100\<rceil> = - ((- (p * 115)) div 100)"
    by (rule ceiling_divide_eq_div)
  then have "\<lceil>real_of_int p * 1.15\<rceil> = - ((- (p * 115)) div 100)"
    using eq by (simp add: mult.commute)
  moreover have "- ((- n) div 100) = (n + 99) div 100" for n :: int by linarith
  ultimately show ?thesis by simp
qed

lemma effective_reserved_bytes_pos:
  assumes "effective_reserved_bytes r m = Inr e"
  shows "0 < e" and "r \<le> e"
proof -
  have "r \<le> e \<and> 0 < r"
  proof (cases m)
    case None
    with assms show ?thesis by (auto simp: effective_reserved_bytes_def)
  next
    case (Some x)
    with assms have r: "0 < r" and x: "0 \<le> x" and e: "e = \<lceil>real_of_int r * (1 + x)\<rceil>"
      by (auto simp: effective_reserved_bytes_def split: if_splits)
    have "real_of_int r * 1 \<le> real_of_int r * (1 + x)"
      using r x by (intro mult_left_mono) auto
    then have "real_of_int r \<le> real_of_int e"
      using e le_of_int_ceiling [of "real_of_int r * (1 + x)"] by linarith
    with r show ?thesis by linarith
  qed
  then show "0 < e" and "r \<le> e" by auto
qed

lemma physical_reserved_bytes_pos:
  assumes "physical_reserved_bytes_from_peak p = Inr e"
  shows "0 < e" and "p \<le> e"
proof -
  from assms have p: "0 < p" and e: "e = (p * 115 + 100 - 1) div 100"
    by (auto simp: physical_reserved_bytes_from_peak_def MARGIN_PERCENT_def MARGIN_DIVISOR_def)
  have "p * 115 \<le> 100 * e" unfolding e by linarith
  with p show "0 < e" and "p \<le> e" by linarith+
qed

end
