(* ===== verification/Model_Registry.thy ===== *)
theory Model_Registry
  imports Contracts_V2
begin

text \<open>
  The accounting book of \<^verbatim>\<open>model_scheduler/model_registry.py\<close>: residency states,
  leases and the two memory ledgers.  Each method of the class \<^verbatim>\<open>Book\<close> is one function
  from a book to a result; all of its raises come before its first assignment, so
  a raise leaves the book unchanged.  Identifiers drawn by \<^verbatim>\<open>uuid4\<close> are arguments.
\<close>

section \<open>Data\<close>

record Runtime =
  rt_state :: State
  rt_generation :: int
  rt_operation_id :: "string option"
  rt_leases :: "(string, Lease) dict"
  rt_admission_blocked :: bool
  rt_reservation :: int
  rt_idle_since :: "time option"
  rt_last_error :: "string option"
  rt_heat_value :: real
  rt_heat_updated_at :: time
  rt_total_requests :: int
  rt_total_tokens :: int
  rt_usage_unknown_requests :: int
  rt_stopped_at :: "time option"
  rt_cancelling :: "(string, Lease) dict"

definition new_runtime :: "int \<Rightarrow> Runtime" where
  "new_runtime reservation =
     \<lparr>rt_state = UNKNOWN, rt_generation = 0, rt_operation_id = None, rt_leases = [],
      rt_admission_blocked = False, rt_reservation = reservation, rt_idle_since = None,
      rt_last_error = None, rt_heat_value = 0, rt_heat_updated_at = 0, rt_total_requests = 0,
      rt_total_tokens = 0, rt_usage_unknown_requests = 0, rt_stopped_at = None, rt_cancelling = []\<rparr>"

record LedgerSpec =
  ls_model_id :: string
  ls_effective_reserved_bytes :: int
  ls_physical_reserved_bytes :: "int option"
  ls_max_concurrency :: int
  ls_pinned :: bool
  ls_evictable :: bool
  ls_preload :: bool
  ls_ttl_seconds :: time
  ls_priority :: int

text \<open>A registration is a v1 spec, a v2 spec, or some other object with a model id.\<close>

datatype Registration = RegV1 ModelSpec | RegV2 RegisteredModelSpec | RegOther string

fun reg_model_id :: "Registration \<Rightarrow> string" where
  "reg_model_id (RegV1 s) = ms_model_id s"
| "reg_model_id (RegV2 s) = rm_model_id s"
| "reg_model_id (RegOther m) = m"

fun from_registration :: "Registration \<Rightarrow> real \<Rightarrow> LedgerSpec result" where
  "from_registration (RegV2 s) legacy_v1_margin =
     rbind (effective_reserved_bytes (rm_reserved_bytes s) None) (\<lambda>eff.
     rbind (case rm_physical_resident_peak_bytes s of
              None \<Rightarrow> Inr None
            | Some peak \<Rightarrow> rbind (physical_reserved_bytes_from_peak peak) (\<lambda>p. Inr (Some p))) (\<lambda>phys.
     Inr \<lparr>ls_model_id = rm_model_id s, ls_effective_reserved_bytes = eff,
          ls_physical_reserved_bytes = phys, ls_max_concurrency = env_max_parallel (rm_envelope s),
          ls_pinned = False, ls_evictable = True, ls_preload = False, ls_ttl_seconds = 0,
          ls_priority = 0\<rparr>))"
| "from_registration (RegV1 s) legacy_v1_margin =
     rbind (effective_reserved_bytes (ms_reserved_bytes s) (Some legacy_v1_margin)) (\<lambda>eff.
     Inr \<lparr>ls_model_id = ms_model_id s, ls_effective_reserved_bytes = eff,
          ls_physical_reserved_bytes = None, ls_max_concurrency = ms_max_concurrency s,
          ls_pinned = ms_pinned s, ls_evictable = ms_evictable s, ls_preload = ms_preload s,
          ls_ttl_seconds = ms_ttl_seconds s, ls_priority = ms_priority s\<rparr>)"
| "from_registration (RegOther m) legacy_v1_margin = Inl (ValueError ''unsupported registration'')"

record Book =
  model_budget :: int
  free_floor :: int
  margin :: real
  specs :: "(string, Registration) dict"
  ledger :: "(string, LedgerSpec) dict"
  runtime :: "(string, Runtime) dict"
  physical_enforced :: bool
  max_sample_age :: time
  half_life :: time
  request_weight :: real
  token_weight :: real
  epoch :: int
  recovering :: bool

fun ledger_from :: "real \<Rightarrow> (string, Registration) dict \<Rightarrow> (string, LedgerSpec) dict result" where
  "ledger_from m [] = Inr []"
| "ledger_from m ((mid, spec) # rest) =
     rbind (from_registration spec m) (\<lambda>l. rbind (ledger_from m rest) (\<lambda>ls. Inr ((mid, l) # ls)))"

definition book_init ::
  "(string, Registration) dict \<Rightarrow> int \<Rightarrow> int \<Rightarrow> real \<Rightarrow> time \<Rightarrow> time \<Rightarrow> real \<Rightarrow> real \<Rightarrow> Book result" where
  "book_init sps budget flr mrg age hl rw tw =
     rbind (raise_if (budget \<le> 0 \<or> flr < 0 \<or> \<not> (0 \<le> mrg \<and> mrg \<le> 1)) (ValueError ''invalid memory policy'')) (\<lambda>_.
     rbind (raise_if (age \<le> 0 \<or> hl \<le> 0 \<or> rw < 0 \<or> tw < 0) (ValueError ''invalid time or heat policy'')) (\<lambda>_.
     rbind (raise_if (sps = [] \<or> (\<exists>(mid, spec) \<in> set sps. mid \<noteq> reg_model_id spec))
             (ValueError ''invalid model spec'')) (\<lambda>_.
     rbind (ledger_from mrg sps) (\<lambda>ls.
     rbind (raise_if (\<exists>l \<in> set (dvals ls). ls_max_concurrency l \<le> 0) (ValueError ''invalid model spec'')) (\<lambda>_.
     Inr \<lparr>model_budget = budget, free_floor = flr, margin = mrg, specs = sps, ledger = ls,
          runtime = map (\<lambda>(mid, l). (mid, new_runtime (ls_effective_reserved_bytes l))) ls,
          physical_enforced = (\<exists>l \<in> set (dvals ls). ls_physical_reserved_bytes l \<noteq> None),
          max_sample_age = age, half_life = hl, request_weight = rw, token_weight = tw,
          epoch = 0, recovering = False\<rparr>)))))"

section \<open>The two ledgers\<close>

definition required :: "Book \<Rightarrow> string \<Rightarrow> int result" where
  "required b mid = rbind (dlookup (ledger b) mid) (\<lambda>l. Inr (ls_effective_reserved_bytes l))"

definition physical_required :: "Book \<Rightarrow> string \<Rightarrow> int option result" where
  "physical_required b mid = rbind (dlookup (ledger b) mid) (\<lambda>l. Inr (ls_physical_reserved_bytes l))"

definition committed :: "Book \<Rightarrow> int" where
  "committed b = sum_list (map (\<lambda>(mid, r). rt_reservation r) (runtime b))"

text \<open>\<^verbatim>\<open>self.ledger[m].physical_reserved_bytes or 0\<close> (each runtime key is a ledger key).\<close>

definition physical_figure :: "Book \<Rightarrow> string \<Rightarrow> int" where
  "physical_figure b mid =
     (case dget (ledger b) mid of None \<Rightarrow> 0
      | Some l \<Rightarrow> (case ls_physical_reserved_bytes l of None \<Rightarrow> 0 | Some v \<Rightarrow> v))"

definition physical_committed :: "Book \<Rightarrow> int" where
  "physical_committed b =
     sum_list (map (\<lambda>(mid, r). if rt_reservation r > 0 then physical_figure b mid else 0) (runtime b))"

definition physical_admissible :: "Book \<Rightarrow> string \<Rightarrow> bool result" where
  "physical_admissible b mid =
     (if \<not> physical_enforced b then Inr True
      else rbind (dlookup (ledger b) mid) (\<lambda>l.
        case ls_physical_reserved_bytes l of
          None \<Rightarrow> Inr False
        | Some figure \<Rightarrow>
            let others = sum_list (map (\<lambda>(other, r). if other \<noteq> mid \<and> rt_reservation r > 0
                                                      then physical_figure b other else 0) (runtime b))
            in Inr (others + figure \<le> model_budget b)))"

definition STOP_RESAMPLE_GRACE_SECONDS :: time where "STOP_RESAMPLE_GRACE_SECONDS = 10"

definition stop_settled :: "Book \<Rightarrow> string \<Rightarrow> time \<Rightarrow> bool result" where
  "stop_settled b mid now =
     rbind (dlookup (runtime b) mid) (\<lambda>r. Inr
       (case rt_stopped_at r of None \<Rightarrow> False | Some t \<Rightarrow> now - t \<ge> STOP_RESAMPLE_GRACE_SECONDS))"

definition upd_rt :: "string \<Rightarrow> (Runtime \<Rightarrow> Runtime) \<Rightarrow> Book \<Rightarrow> Book" where
  "upd_rt mid f b = b\<lparr>runtime := dmodify mid f (runtime b)\<rparr>"

definition bootstrap_stopped :: "Book \<Rightarrow> string \<Rightarrow> Book result" where
  "bootstrap_stopped b mid =
     rbind (dlookup (runtime b) mid) (\<lambda>r.
     rbind (raise_if (rt_state r \<noteq> UNKNOWN \<or> truthy (rt_operation_id r) \<or> rt_leases r \<noteq> [])
             (Conflict ''not a bootstrap state'')) (\<lambda>_.
     Inr (upd_rt mid (\<lambda>r. r\<lparr>rt_state := UNLOADED, rt_reservation := 0\<rparr>) b)))"

section \<open>Admission of loads\<close>

definition sample_valid :: "Book \<Rightarrow> MemorySample \<Rightarrow> time \<Rightarrow> bool" where
  "sample_valid b s now \<longleftrightarrow>
     0 \<le> now - sampled_at s \<and> now - sampled_at s \<le> max_sample_age b \<and> total_bytes s > 0
     \<and> 0 \<le> available_bytes s \<and> available_bytes s \<le> total_bytes s"

definition sample_after_stop :: "Runtime \<Rightarrow> MemorySample \<Rightarrow> bool" where
  "sample_after_stop r s = (case rt_stopped_at r of None \<Rightarrow> True | Some t \<Rightarrow> sampled_at s \<ge> t)"

definition can_load :: "Book \<Rightarrow> string \<Rightarrow> MemorySample \<Rightarrow> time \<Rightarrow> bool result" where
  "can_load b mid s now =
     rbind (dlookup (runtime b) mid) (\<lambda>r.
     rbind (required b mid) (\<lambda>req.
     if \<not> recovering b \<and> rt_state r = UNLOADED \<and> rt_leases r = [] \<and> \<not> rt_admission_blocked r
        \<and> sample_valid b s now \<and> sample_after_stop r s
        \<and> available_bytes s \<ge> free_floor b + req
        \<and> committed b + req \<le> model_budget b
     then physical_admissible b mid else Inr False))"

definition begin_load :: "Book \<Rightarrow> string \<Rightarrow> string \<Rightarrow> MemorySample \<Rightarrow> time \<Rightarrow> (Book \<times> Operation) result" where
  "begin_load b uuid mid s now =
     rbind (can_load b mid s now) (\<lambda>ok.
     rbind (raise_if (\<not> ok) (Conflict ''load not admissible'')) (\<lambda>_.
     rbind (dlookup (runtime b) mid) (\<lambda>r.
     rbind (required b mid) (\<lambda>req.
     Inr (upd_rt mid (\<lambda>r. r\<lparr>rt_generation := rt_generation r + 1, rt_state := LOADING, rt_reservation := req,
                            rt_operation_id := Some uuid, rt_idle_since := None, rt_last_error := None\<rparr>) b,
          \<lparr>op_operation_id = uuid, op_model_id = mid, op_generation = rt_generation r + 1,
           op_epoch = epoch b\<rparr>)))))"

section \<open>Writebacks, fenced by the operation token\<close>

definition operation_rt :: "Book \<Rightarrow> Operation \<Rightarrow> Runtime result" where
  "operation_rt b oper =
     rbind (dlookup (runtime b) (op_model_id oper)) (\<lambda>r.
     if op_epoch oper \<noteq> epoch b
        \<or> (rt_generation r, rt_operation_id r) \<noteq> (op_generation oper, Some (op_operation_id oper))
     then Inl (StaleOperation (op_operation_id oper)) else Inr r)"

definition loaded :: "Book \<Rightarrow> Operation \<Rightarrow> time \<Rightarrow> Book result" where
  "loaded b oper now =
     rbind (operation_rt b oper) (\<lambda>r.
     rbind (raise_if (rt_state r \<noteq> LOADING) (Conflict ''not loading'')) (\<lambda>_.
     Inr (upd_rt (op_model_id oper) (\<lambda>r. r\<lparr>rt_state := READY, rt_operation_id := None,
            rt_admission_blocked := False, rt_idle_since := Some now\<rparr>) b)))"

definition failed :: "Book \<Rightarrow> Operation \<Rightarrow> string option \<Rightarrow> Book result" where
  "failed b oper code =
     rbind (operation_rt b oper) (\<lambda>r.
     Inr (upd_rt (op_model_id oper) (\<lambda>r. r\<lparr>rt_state := ERROR, rt_operation_id := None,
            rt_admission_blocked := True, rt_last_error := code\<rparr>) b))"

section \<open>Leases and heat\<close>

definition rt_heat :: "Book \<Rightarrow> Runtime \<Rightarrow> time \<Rightarrow> real" where
  "rt_heat b r now = rt_heat_value r * (1/2) powr (max 0 (now - rt_heat_updated_at r) / half_life b)"

definition heat :: "Book \<Rightarrow> string \<Rightarrow> time \<Rightarrow> real result" where
  "heat b mid now = rbind (dlookup (runtime b) mid) (\<lambda>r. Inr (rt_heat b r now))"

definition add_heat :: "Book \<Rightarrow> time \<Rightarrow> real \<Rightarrow> Runtime \<Rightarrow> Runtime" where
  "add_heat b now amount r = r\<lparr>rt_heat_value := rt_heat b r now + amount, rt_heat_updated_at := now\<rparr>"

definition all_leases :: "Book \<Rightarrow> Lease list" where
  "all_leases b = concat (map (\<lambda>(mid, r). dvals (rt_leases r)) (runtime b))"

definition acquire_ready :: "Book \<Rightarrow> string \<Rightarrow> string \<Rightarrow> string \<Rightarrow> time \<Rightarrow> (Book \<times> Lease) result" where
  "acquire_ready b uuid mid request_id now =
     rbind (dlookup (runtime b) mid) (\<lambda>r.
     rbind (dlookup (ledger b) mid) (\<lambda>l.
     rbind (raise_if (recovering b \<or> rt_state r \<noteq> READY \<or> rt_admission_blocked r
              \<or> int (length (rt_leases r)) \<ge> ls_max_concurrency l) (Conflict ''model not admissible'')) (\<lambda>_.
     rbind (raise_if (\<exists>x \<in> set (all_leases b). lease_request_id x = request_id)
             (Conflict ''request already owns a lease'')) (\<lambda>_.
     let lease = \<lparr>lease_id = uuid, lease_request_id = request_id, lease_model_id = mid,
                  lease_generation = rt_generation r\<rparr>
     in Inr (upd_rt mid (\<lambda>r. add_heat b now (request_weight b)
               (r\<lparr>rt_leases := dput uuid lease (rt_leases r),
                  rt_total_requests := rt_total_requests r + 1, rt_idle_since := None\<rparr>)) b, lease)))))"

definition can_admit_ready :: "Book \<Rightarrow> string \<Rightarrow> MemorySample \<Rightarrow> time \<Rightarrow> bool result" where
  "can_admit_ready b mid s now =
     rbind (dlookup (runtime b) mid) (\<lambda>r.
     rbind (dlookup (ledger b) mid) (\<lambda>l.
     Inr (\<not> recovering b \<and> rt_state r = READY \<and> \<not> rt_admission_blocked r
          \<and> int (length (rt_leases r)) < ls_max_concurrency l
          \<and> sample_valid b s now \<and> available_bytes s \<ge> free_floor b)))"

definition owns :: "Runtime \<Rightarrow> Lease \<Rightarrow> bool" where
  "owns r lease \<longleftrightarrow> dget (rt_leases r) (lease_id lease) = Some lease \<and> rt_generation r = lease_generation lease"

definition release_rt :: "Book \<Rightarrow> Lease \<Rightarrow> Outcome \<Rightarrow> time \<Rightarrow> int option \<Rightarrow> Runtime \<Rightarrow> Runtime" where
  "release_rt b lease outcome now tokens r0 =
     (let r1 = r0\<lparr>rt_leases := ddel (lease_id lease) (rt_leases r0),
                  rt_cancelling := ddel (lease_id lease) (rt_cancelling r0)\<rparr>;
          r2 = (case outcome of
                  SUCCESS \<Rightarrow>
                    (case tokens of
                       None \<Rightarrow> r1\<lparr>rt_usage_unknown_requests := rt_usage_unknown_requests r1 + 1\<rparr>
                     | Some n \<Rightarrow> add_heat b now (real_of_int n * token_weight b)
                                   (r1\<lparr>rt_total_tokens := rt_total_tokens r1 + n\<rparr>))
                | ABORTED \<Rightarrow> r1\<lparr>rt_state := ERROR, rt_admission_blocked := True,
                                rt_last_error := Some ''request_aborted''\<rparr>
                | REJECTED \<Rightarrow> r1)
      in if rt_leases r2 = [] then r2\<lparr>rt_idle_since := Some now\<rparr> else r2)"

definition release :: "Book \<Rightarrow> Lease \<Rightarrow> Outcome \<Rightarrow> time \<Rightarrow> int option \<Rightarrow> (Book \<times> bool) result" where
  "release b lease outcome now tokens =
     rbind (dlookup (runtime b) (lease_model_id lease)) (\<lambda>r.
     if \<not> owns r lease then Inr (b, False)
     else rbind (raise_if (\<exists>n. tokens = Some n \<and> n < 0) (ValueError ''tokens must be a nonnegative integer'')) (\<lambda>_.
       Inr (upd_rt (lease_model_id lease) (release_rt b lease outcome now tokens) b, True)))"

definition begin_cancel :: "Book \<Rightarrow> Lease \<Rightarrow> (Book \<times> bool) result" where
  "begin_cancel b lease =
     rbind (dlookup (runtime b) (lease_model_id lease)) (\<lambda>r.
     if \<not> owns r lease then Inr (b, False)
     else Inr (upd_rt (lease_model_id lease)
                 (\<lambda>r. r\<lparr>rt_cancelling := dput (lease_id lease) lease (rt_cancelling r)\<rparr>) b, True))"

definition is_cancelling :: "Book \<Rightarrow> Lease \<Rightarrow> bool result" where
  "is_cancelling b lease =
     rbind (dlookup (runtime b) (lease_model_id lease)) (\<lambda>r.
       Inr (dget (rt_cancelling r) (lease_id lease) = Some lease))"

definition cancelling_leases :: "Book \<Rightarrow> string \<Rightarrow> Lease list result" where
  "cancelling_leases b mid = rbind (dlookup (runtime b) mid) (\<lambda>r. Inr (dvals (rt_cancelling r)))"

section \<open>Stops\<close>

text \<open>
  The second loop of \<^verbatim>\<open>begin_eviction\<close> and of \<^verbatim>\<open>begin_cleanup\<close>: the \<open>i\<close>-th model gets
  the \<open>i\<close>-th fresh operation id.
\<close>

fun begin_stops :: "(nat \<Rightarrow> string) \<Rightarrow> nat \<Rightarrow> string list \<Rightarrow> Book \<Rightarrow> (Book \<times> Operation list) result" where
  "begin_stops fresh i [] b = Inr (b, [])"
| "begin_stops fresh i (mid # mids) b =
     rbind (dlookup (runtime b) mid) (\<lambda>r.
     rbind (begin_stops fresh (Suc i) mids
              (upd_rt mid (\<lambda>r. r\<lparr>rt_state := EVICTING, rt_admission_blocked := True,
                                rt_operation_id := Some (fresh i)\<rparr>) b)) (\<lambda>(b', ops).
     Inr (b', \<lparr>op_operation_id = fresh i, op_model_id = mid, op_generation = rt_generation r,
               op_epoch = epoch b\<rparr> # ops)))"

text \<open>The first loop: each candidate is checked before any of them is touched.\<close>

fun check_all :: "(string \<Rightarrow> unit result) \<Rightarrow> string list \<Rightarrow> unit result" where
  "check_all chk [] = Inr ()"
| "check_all chk (mid # mids) = rbind (chk mid) (\<lambda>_. check_all chk mids)"

definition batch_invalid :: "Book \<Rightarrow> string list \<Rightarrow> bool" where
  "batch_invalid b mids \<longleftrightarrow> recovering b \<or> mids = [] \<or> \<not> distinct mids"

definition eviction_check :: "Book \<Rightarrow> bool \<Rightarrow> string \<Rightarrow> unit result" where
  "eviction_check b automatic mid =
     rbind (dlookup (runtime b) mid) (\<lambda>r. rbind (dlookup (ledger b) mid) (\<lambda>l.
       raise_if (rt_state r \<noteq> READY \<or> rt_leases r \<noteq> [] \<or> truthy (rt_operation_id r) \<or> ls_pinned l
                 \<or> (automatic \<and> \<not> ls_evictable l)) (Conflict ''protected or changed candidate'')))"

definition begin_eviction :: "Book \<Rightarrow> (nat \<Rightarrow> string) \<Rightarrow> string list \<Rightarrow> bool \<Rightarrow> (Book \<times> Operation list) result" where
  "begin_eviction b fresh mids automatic =
     rbind (raise_if (batch_invalid b mids) (Conflict ''invalid eviction batch'')) (\<lambda>_.
     rbind (check_all (eviction_check b automatic) mids) (\<lambda>_.
     begin_stops fresh 0 mids b))"

definition freeze_check :: "Book \<Rightarrow> string \<Rightarrow> unit result" where
  "freeze_check b mid =
     rbind (dlookup (runtime b) mid) (\<lambda>r. rbind (dlookup (ledger b) mid) (\<lambda>l.
       raise_if (rt_state r \<noteq> READY \<or> rt_admission_blocked r \<or> truthy (rt_operation_id r) \<or> ls_pinned l
                 \<or> \<not> ls_evictable l) (Conflict ''switch candidate changed'')))"

definition freeze_for_switch :: "Book \<Rightarrow> string list \<Rightarrow> Book result" where
  "freeze_for_switch b mids =
     rbind (raise_if (batch_invalid b mids) (Conflict ''invalid switch freeze'')) (\<lambda>_.
     rbind (check_all (freeze_check b) mids) (\<lambda>_.
     Inr (fold (\<lambda>mid. upd_rt mid (\<lambda>r. r\<lparr>rt_admission_blocked := True\<rparr>)) mids b)))"

fun unfreeze_switch :: "string list \<Rightarrow> Book \<Rightarrow> Book result" where
  "unfreeze_switch [] b = Inr b"
| "unfreeze_switch (mid # mids) b =
     rbind (dlookup (runtime b) mid) (\<lambda>r.
       unfreeze_switch mids
         (if rt_state r = READY \<and> rt_operation_id r = None
          then upd_rt mid (\<lambda>r. r\<lparr>rt_admission_blocked := False\<rparr>) b else b))"

definition cleanup_check :: "Book \<Rightarrow> string \<Rightarrow> unit result" where
  "cleanup_check b mid =
     rbind (dlookup (runtime b) mid) (\<lambda>r.
       raise_if (rt_state r \<notin> {READY, ERROR} \<or> rt_leases r \<noteq> [] \<or> truthy (rt_operation_id r))
         (Conflict ''cleanup candidate changed''))"

definition begin_cleanup :: "Book \<Rightarrow> (nat \<Rightarrow> string) \<Rightarrow> string list \<Rightarrow> (Book \<times> Operation list) result" where
  "begin_cleanup b fresh mids =
     rbind (raise_if (batch_invalid b mids) (Conflict ''invalid cleanup batch'')) (\<lambda>_.
     rbind (check_all (cleanup_check b) mids) (\<lambda>_.
     begin_stops fresh 0 mids b))"

definition rollback_unsent :: "Book \<Rightarrow> Operation \<Rightarrow> Book result" where
  "rollback_unsent b oper =
     rbind (operation_rt b oper) (\<lambda>r.
     rbind (raise_if (rt_state r \<noteq> EVICTING \<or> rt_leases r \<noteq> []) (Conflict ''cannot roll back'')) (\<lambda>_.
     Inr (upd_rt (op_model_id oper) (\<lambda>r. r\<lparr>rt_state := READY, rt_admission_blocked := False,
            rt_operation_id := None\<rparr>) b)))"

definition stopped :: "Book \<Rightarrow> Operation \<Rightarrow> time option \<Rightarrow> Book result" where
  "stopped b oper now =
     rbind (operation_rt b oper) (\<lambda>r.
     rbind (raise_if (rt_state r \<noteq> EVICTING \<or> rt_leases r \<noteq> []) (Conflict ''not safely stopping'')) (\<lambda>_.
     Inr (upd_rt (op_model_id oper) (\<lambda>r. r\<lparr>rt_state := UNLOADED, rt_operation_id := None, rt_reservation := 0,
            rt_admission_blocked := False, rt_idle_since := None, rt_last_error := None,
            rt_stopped_at := now\<rparr>) b)))"

definition ttl_due :: "Book \<Rightarrow> string \<Rightarrow> time \<Rightarrow> bool result" where
  "ttl_due b mid now =
     rbind (dlookup (runtime b) mid) (\<lambda>r. rbind (dlookup (ledger b) mid) (\<lambda>l.
       Inr (rt_state r = READY \<and> rt_leases r = [] \<and> \<not> rt_admission_blocked r \<and> \<not> ls_pinned l
            \<and> ls_evictable l \<and> ls_ttl_seconds l > 0
            \<and> (case rt_idle_since r of None \<Rightarrow> False | Some t \<Rightarrow> now - t \<ge> ls_ttl_seconds l))))"

section \<open>Recovery\<close>

definition begin_recovery :: "Book \<Rightarrow> Book \<times> int" where
  "begin_recovery b =
     (if recovering b then (b, epoch b)
      else (b\<lparr>epoch := epoch b + 1, recovering := True,
              runtime := map (\<lambda>(mid, r).
                (mid, let r1 = r\<lparr>rt_operation_id := None, rt_admission_blocked := True\<rparr>
                      in if rt_state r1 \<noteq> UNLOADED
                         then r1\<lparr>rt_state := ERROR, rt_last_error := Some ''control_recovering''\<rparr>
                         else r1)) (runtime b)\<rparr>, epoch b + 1))"

definition finish_recovery :: "Book \<Rightarrow> int \<Rightarrow> string list \<Rightarrow> Book result" where
  "finish_recovery b ep confirmed_stopped =
     rbind (raise_if (\<not> recovering b \<or> ep \<noteq> epoch b) (StaleOperation ''recovery epoch'')) (\<lambda>_.
     rbind (raise_if (set confirmed_stopped \<noteq> set (dkeys (specs b))
              \<or> (\<exists>(mid, r) \<in> set (runtime b). rt_leases r \<noteq> [])) (Conflict ''recovery lacks stop evidence'')) (\<lambda>_.
     Inr (b\<lparr>recovering := False,
            runtime := map (\<lambda>(mid, r).
              (mid, r\<lparr>rt_state := UNLOADED, rt_reservation := 0, rt_operation_id := None,
                      rt_admission_blocked := False, rt_idle_since := None, rt_last_error := None\<rparr>))
              (runtime b)\<rparr>)))"

end
