(* ===== verification/Book_Invariant.thy ===== *)
theory Book_Invariant
  imports Model_Registry
begin

text \<open>
  The invariant of the accounting book, its preservation by each operation of
  \<^verbatim>\<open>Book\<close>, the book as a state machine, and the properties of the two ledgers, of
  leases and of operation tokens.
\<close>

section \<open>The invariant\<close>

text \<open>
  One model: what its state says about its reservation, its operation token, its
  leases and its admission block.  \<open>rec\<close> is the recovery flag of the book.
\<close>

definition leases_ok :: "string \<Rightarrow> int \<Rightarrow> (string, Lease) dict \<Rightarrow> bool" where
  "leases_ok mid gen d \<longleftrightarrow> distinct (dkeys d)
     \<and> (\<forall>k x. dget d k = Some x \<longrightarrow> lease_id x = k \<and> lease_model_id x = mid \<and> lease_generation x = gen)"

definition cancelling_ok :: "(string, Lease) dict \<Rightarrow> (string, Lease) dict \<Rightarrow> bool" where
  "cancelling_ok c d \<longleftrightarrow> (\<forall>k x. dget c k = Some x \<longrightarrow> dget d k = Some x)"

definition rt_ok :: "bool \<Rightarrow> LedgerSpec \<Rightarrow> string \<Rightarrow> Runtime \<Rightarrow> bool" where
  "rt_ok rec l mid r \<longleftrightarrow>
     rt_reservation r = (if rt_state r = UNLOADED then 0 else ls_effective_reserved_bytes l)
     \<and> (rt_operation_id r \<noteq> None \<longleftrightarrow> rt_state r \<in> {LOADING, EVICTING})
     \<and> rt_operation_id r \<noteq> Some []
     \<and> (rt_leases r \<noteq> [] \<longrightarrow> rt_state r \<in> {READY, ERROR})
     \<and> leases_ok mid (rt_generation r) (rt_leases r)
     \<and> int (length (rt_leases r)) \<le> ls_max_concurrency l
     \<and> cancelling_ok (rt_cancelling r) (rt_leases r)
     \<and> 0 \<le> rt_generation r
     \<and> (rt_state r \<in> {EVICTING, ERROR} \<longrightarrow> rt_admission_blocked r)
     \<and> (rec \<longrightarrow> rt_state r \<in> {UNLOADED, ERROR} \<and> rt_admission_blocked r)
     \<and> (\<not> rec \<and> rt_state r \<in> {UNKNOWN, UNLOADED, LOADING} \<longrightarrow> \<not> rt_admission_blocked r)"

lemma leases_ok_Nil [simp]: "leases_ok mid gen []"
  by (simp add: leases_ok_def)

lemma leases_ok_ddel [intro]: "leases_ok mid gen d \<Longrightarrow> leases_ok mid gen (ddel k d)"
  by (simp add: leases_ok_def distinct_delete)

lemma leases_ok_dput [intro]:
  "leases_ok mid gen d \<Longrightarrow> lease_model_id x = mid \<Longrightarrow> lease_generation x = gen \<Longrightarrow> lease_id x = k
    \<Longrightarrow> leases_ok mid gen (dput k x d)"
  by (simp add: leases_ok_def distinct_update)

lemma leases_ok_distinct: "leases_ok mid gen d \<Longrightarrow> distinct (dkeys d)"
  by (simp add: leases_ok_def)

text \<open>The three ways in which the table of cancelled leases stays inside the lease table.\<close>

lemma cancelling_ok_Nil [simp]: "cancelling_ok [] d"
  by (simp add: cancelling_ok_def)

lemma cancelling_ok_ddel [intro]: "cancelling_ok c d \<Longrightarrow> cancelling_ok (ddel k c) (ddel k d)"
  by (simp add: cancelling_ok_def)

lemma cancelling_ok_dput_new [intro]: "cancelling_ok c d \<Longrightarrow> dget d k = None \<Longrightarrow> cancelling_ok c (dput k x d)"
  by (fastforce simp: cancelling_ok_def)

lemma cancelling_ok_dput_old [intro]: "cancelling_ok c d \<Longrightarrow> dget d k = Some x \<Longrightarrow> cancelling_ok (dput k x c) d"
  by (simp add: cancelling_ok_def)

lemma rt_okD:
  assumes "rt_ok rec l mid r"
  shows "rt_operation_id r = None \<longleftrightarrow> rt_state r \<notin> {LOADING, EVICTING}"
    "truthy (rt_operation_id r) \<longleftrightarrow> rt_state r \<in> {LOADING, EVICTING}"
    "rt_reservation r = (if rt_state r = UNLOADED then 0 else ls_effective_reserved_bytes l)"
    "rt_leases r \<noteq> [] \<Longrightarrow> rt_state r \<in> {READY, ERROR}"
    "distinct (dkeys (rt_leases r))"
  using assms by (auto simp: rt_ok_def truthy_iff dest: leases_ok_distinct)

definition ledger_ok :: "LedgerSpec \<Rightarrow> bool" where
  "ledger_ok l \<longleftrightarrow> 0 < ls_effective_reserved_bytes l \<and> 0 < ls_max_concurrency l
     \<and> (\<forall>p. ls_physical_reserved_bytes l = Some p \<longrightarrow> 0 < p)"

definition lease_at :: "Book \<Rightarrow> string \<Rightarrow> string \<Rightarrow> Lease \<Rightarrow> bool" where
  "lease_at b m k x \<longleftrightarrow> (\<exists>r. dget (runtime b) m = Some r \<and> dget (rt_leases r) k = Some x)"

definition requests_unique :: "Book \<Rightarrow> bool" where
  "requests_unique b \<longleftrightarrow>
     (\<forall>m1 k1 x1 m2 k2 x2. lease_at b m1 k1 x1 \<and> lease_at b m2 k2 x2
        \<and> lease_request_id x1 = lease_request_id x2 \<longrightarrow> m1 = m2 \<and> k1 = k2)"

lemma requests_unique_mono:
  "requests_unique b \<Longrightarrow> (\<And>m k x. lease_at b' m k x \<Longrightarrow> lease_at b m k x) \<Longrightarrow> requests_unique b'"
  unfolding requests_unique_def by meson

definition book_static :: "Book \<Rightarrow> bool" where
  "book_static b \<longleftrightarrow>
     dkeys (ledger b) = dkeys (specs b) \<and> distinct (dkeys (specs b)) \<and> specs b \<noteq> []
     \<and> 0 < model_budget b \<and> 0 \<le> free_floor b
     \<and> (\<forall>l \<in> set (dvals (ledger b)). ledger_ok l) \<and> ledger_from (margin b) (specs b) = Inr (ledger b)
     \<and> physical_enforced b = (\<exists>l \<in> set (dvals (ledger b)). ls_physical_reserved_bytes l \<noteq> None)"

definition book_inv :: "Book \<Rightarrow> bool" where
  "book_inv b \<longleftrightarrow>
     book_static b \<and> dkeys (runtime b) = dkeys (specs b)
     \<and> (\<forall>mid r. dget (runtime b) mid = Some r \<longrightarrow>
          (\<exists>l. dget (ledger b) mid = Some l \<and> rt_ok (recovering b) l mid r))
     \<and> requests_unique b"

lemma requests_unique_add:
  assumes "requests_unique b"
    and new: "\<And>m k x. lease_at b' m k x \<Longrightarrow> lease_at b m k x \<or> m = mid \<and> k = uuid \<and> x = lease"
    and other: "\<And>m k x. lease_at b m k x \<Longrightarrow> lease_request_id x \<noteq> lease_request_id lease"
  shows "requests_unique b'"
  unfolding requests_unique_def
proof (intro allI impI, elim conjE)
  fix m1 k1 x1 m2 k2 x2
  assume h: "lease_at b' m1 k1 x1" "lease_at b' m2 k2 x2" "lease_request_id x1 = lease_request_id x2"
  have "lease_at b m1 k1 x1 \<and> lease_at b m2 k2 x2 \<or> m1 = m2 \<and> k1 = k2"
    using new [OF h(1)] new [OF h(2)] other h(3) by metis
  then show "m1 = m2 \<and> k1 = k2" using assms(1) h(3) unfolding requests_unique_def by blast
qed

lemma book_inv_ledger:
  assumes "book_inv b" and "dget (runtime b) mid = Some r"
  obtains l where "dget (ledger b) mid = Some l" "ledger_ok l" "rt_ok (recovering b) l mid r"
proof -
  from assms obtain l where l: "dget (ledger b) mid = Some l" "rt_ok (recovering b) l mid r"
    unfolding book_inv_def by blast
  moreover have "ledger_ok l"
    using assms(1) dget_in_dvals [OF l(1)] by (auto simp: book_inv_def book_static_def)
  ultimately show thesis using that by blast
qed

lemma book_inv_keys:
  assumes "book_inv b"
  shows "dkeys (runtime b) = dkeys (specs b)" "dkeys (ledger b) = dkeys (specs b)"
    "distinct (dkeys (runtime b))" "distinct (dkeys (specs b))"
  using assms by (auto simp: book_inv_def book_static_def)

lemma book_inv_unique: "book_inv b \<Longrightarrow> requests_unique b"
  by (simp add: book_inv_def)

lemma book_inv_mem_leases:
  assumes "book_inv b"
  shows "x \<in> set (all_leases b) \<longleftrightarrow> (\<exists>m k. lease_at b m k x)"
proof
  assume "x \<in> set (all_leases b)"
  then obtain m r k where m: "(m, r) \<in> set (runtime b)" and k: "(k, x) \<in> set (rt_leases r)"
    by (auto simp: all_leases_def)
  from m have r: "dget (runtime b) m = Some r" by (simp add: dget_iff_mem book_inv_keys [OF assms])
  with assms obtain l where "rt_ok (recovering b) l m r" by (rule book_inv_ledger)
  then have "distinct (dkeys (rt_leases r))" by (rule rt_okD(5))
  with k have "dget (rt_leases r) k = Some x" by (simp add: dget_iff_mem)
  with r show "\<exists>m k. lease_at b m k x" by (auto simp: lease_at_def)
next
  assume "\<exists>m k. lease_at b m k x"
  then obtain m r k where "dget (runtime b) m = Some r" "dget (rt_leases r) k = Some x"
    by (auto simp: lease_at_def)
  then have "(m, r) \<in> set (runtime b)" "(k, x) \<in> set (rt_leases r)" by (auto dest: map_of_SomeD)
  then show "x \<in> set (all_leases b)" by (force simp: all_leases_def)
qed

section \<open>Updating one model\<close>

named_theorems book_simps "fields of updated books"

lemma upd_rt_fields [simp, book_simps]:
  "model_budget (upd_rt mid f b) = model_budget b" "free_floor (upd_rt mid f b) = free_floor b"
  "specs (upd_rt mid f b) = specs b" "ledger (upd_rt mid f b) = ledger b"
  "physical_enforced (upd_rt mid f b) = physical_enforced b" "epoch (upd_rt mid f b) = epoch b"
  "recovering (upd_rt mid f b) = recovering b" "runtime (upd_rt mid f b) = dmodify mid f (runtime b)"
  "margin (upd_rt mid f b) = margin b" "half_life (upd_rt mid f b) = half_life b" "max_sample_age (upd_rt mid f b) = max_sample_age b"
  "request_weight (upd_rt mid f b) = request_weight b" "token_weight (upd_rt mid f b) = token_weight b"
  by (simp_all add: upd_rt_def)

lemma book_static_upd_rt [simp]: "book_static (upd_rt mid f b) = book_static b"
  by (simp add: book_static_def)

text \<open>
  An update of one model that leaves it consistent and adds no lease keeps the book
  consistent: most operations are instances of this.
\<close>

lemma book_inv_upd_rt:
  assumes inv: "book_inv b"
    and ok: "\<And>r l. dget (runtime b) mid = Some r \<Longrightarrow> dget (ledger b) mid = Some l \<Longrightarrow> ledger_ok l
        \<Longrightarrow> rt_ok (recovering b) l mid r \<Longrightarrow> rt_ok (recovering b) l mid (f r)"
    and sub: "\<And>r k x. dget (runtime b) mid = Some r \<Longrightarrow> dget (rt_leases (f r)) k = Some x
        \<Longrightarrow> dget (rt_leases r) k = Some x"
  shows "book_inv (upd_rt mid f b)"
proof -
  have "\<exists>l. dget (ledger b) m = Some l \<and> rt_ok (recovering b) l m r"
    if m: "dget (runtime (upd_rt mid f b)) m = Some r" for m r
  proof (cases "m = mid")
    case True
    with m obtain r0 where r0: "dget (runtime b) mid = Some r0" "r = f r0" by auto
    from inv r0(1) obtain l where "dget (ledger b) mid = Some l" "ledger_ok l"
      "rt_ok (recovering b) l mid r0" by (rule book_inv_ledger)
    with True r0 ok show ?thesis by blast
  next
    case False
    with m inv show ?thesis by (simp add: book_inv_def)
  qed
  moreover have "requests_unique (upd_rt mid f b)"
    using book_inv_unique [OF inv]
    by (rule requests_unique_mono) (auto simp: lease_at_def sub split: if_splits)
  ultimately show ?thesis using inv by (simp add: book_inv_def)
qed

section \<open>Preservation by each operation\<close>

lemma book_inv_init:
  assumes "distinct (dkeys sps)" and "book_init sps budget flr mrg age hl rw tw = Inr b"
  shows "book_inv b" and "\<forall>r \<in> set (dvals (runtime b)). rt_state r = UNKNOWN"
proof -
  have led: "dkeys ls = dkeys sps \<and> (\<forall>l \<in> set (dvals ls). 0 < ls_effective_reserved_bytes l
      \<and> (\<forall>p. ls_physical_reserved_bytes l = Some p \<longrightarrow> 0 < p))"
    if "ledger_from mrg sps = Inr ls" for sps ls
    using that
  proof (induction sps arbitrary: ls)
    case Nil
    then show ?case by simp
  next
    case (Cons p sps)
    obtain mid spec where p: "p = (mid, spec)" by (cases p)
    with Cons.prems obtain l ls' where l: "from_registration spec mrg = Inr l"
      and ls': "ledger_from mrg sps = Inr ls'" and ls: "ls = (mid, l) # ls'" by auto
    have "0 < ls_effective_reserved_bytes l \<and> (\<forall>q. ls_physical_reserved_bytes l = Some q \<longrightarrow> 0 < q)"
      using l by (cases spec)
        (auto dest: effective_reserved_bytes_pos(1) physical_reserved_bytes_pos(1) split: option.splits)
    with Cons.IH [OF ls'] ls p show ?case by simp
  qed
  from assms(2) obtain ls where ls: "ledger_from mrg sps = Inr ls" and pos: "0 < budget" "0 \<le> flr" "sps \<noteq> []"
    and conc: "\<forall>l \<in> set (dvals ls). 0 < ls_max_concurrency l"
    and b: "b = \<lparr>model_budget = budget, free_floor = flr, margin = mrg, specs = sps, ledger = ls,
          runtime = map (\<lambda>(mid, l). (mid, new_runtime (ls_effective_reserved_bytes l))) ls,
          physical_enforced = (\<exists>l \<in> set (dvals ls). ls_physical_reserved_bytes l \<noteq> None),
          max_sample_age = age, half_life = hl, request_weight = rw, token_weight = tw,
          epoch = 0, recovering = False\<rparr>"
    unfolding book_init_def by (auto simp: not_le)
  have st: "book_static b"
    using led [OF ls] ls pos conc assms(1) by (auto simp: b book_static_def ledger_ok_def)
  have keys: "dkeys (runtime b) = dkeys (specs b)"
    using led [OF ls] by (simp add: b comp_def case_prod_beta)
  have look: "dget (runtime b) mid = map_option (\<lambda>l. new_runtime (ls_effective_reserved_bytes l)) (dget ls mid)" for mid
    by (simp add: b map_of_map)
  have "\<exists>l. dget (ledger b) mid = Some l \<and> rt_ok (recovering b) l mid r"
    if "dget (runtime b) mid = Some r" for mid r
  proof -
    from that look obtain l where "dget ls mid = Some l" "r = new_runtime (ls_effective_reserved_bytes l)" by auto
    moreover have "0 < ls_max_concurrency l" using conc dget_in_dvals [OF \<open>dget ls mid = Some l\<close>] by blast
    ultimately show ?thesis by (auto simp: b rt_ok_def new_runtime_def)
  qed
  moreover have "requests_unique b"
    by (auto simp: requests_unique_def lease_at_def look new_runtime_def)
  ultimately show "book_inv b" using st keys by (simp add: book_inv_def)
  show "\<forall>r \<in> set (dvals (runtime b)). rt_state r = UNKNOWN"
    by (auto simp: b new_runtime_def)
qed

lemma book_inv_bootstrap:
  assumes "book_inv b" and "bootstrap_stopped b mid = Inr b'"
  shows "book_inv b'"
  using assms unfolding bootstrap_stopped_def
  by (auto intro!: book_inv_upd_rt [OF assms(1)] simp: rt_ok_def)

lemma can_loadD:
  assumes "can_load b mid s now = Inr True"
  obtains r l where "dget (runtime b) mid = Some r" "dget (ledger b) mid = Some l" "\<not> recovering b"
    "rt_state r = UNLOADED" "rt_leases r = []" "\<not> rt_admission_blocked r" "sample_valid b s now"
    "sample_after_stop r s" "free_floor b + ls_effective_reserved_bytes l \<le> available_bytes s"
    "committed b + ls_effective_reserved_bytes l \<le> model_budget b" "physical_admissible b mid = Inr True"
  using assms by (auto simp: can_load_def required_def split: if_splits)

lemma begin_loadD:
  assumes "begin_load b uuid mid s now = Inr (b', oper)"
  obtains r l where "can_load b mid s now = Inr True"
    "dget (runtime b) mid = Some r" "dget (ledger b) mid = Some l"
    "b' = upd_rt mid (\<lambda>r. r\<lparr>rt_generation := rt_generation r + 1, rt_state := LOADING,
        rt_reservation := ls_effective_reserved_bytes l, rt_operation_id := Some uuid, rt_idle_since := None,
        rt_last_error := None\<rparr>) b"
    "oper = \<lparr>op_operation_id = uuid, op_model_id = mid, op_generation = rt_generation r + 1, op_epoch = epoch b\<rparr>"
  using assms by (auto simp: begin_load_def required_def)

lemma book_inv_begin_load:
  assumes inv: "book_inv b" and "uuid \<noteq> []" and "begin_load b uuid mid s now = Inr (b', oper)"
  shows "book_inv b'"
  using assms(3)
proof (cases rule: begin_loadD)
  case (1 r l)
  from 1(1) show ?thesis
  proof (cases rule: can_loadD)
    case (1 r' l')
    with \<open>b' = _\<close> \<open>dget (runtime b) mid = Some r\<close> \<open>dget (ledger b) mid = Some l\<close> assms(2) show ?thesis
      by (auto intro!: book_inv_upd_rt [OF inv] simp: rt_ok_def)
  qed
qed

lemma operation_rtD:
  "operation_rt b oper = Inr r \<longleftrightarrow> dget (runtime b) (op_model_id oper) = Some r \<and> op_epoch oper = epoch b
     \<and> rt_generation r = op_generation oper \<and> rt_operation_id r = Some (op_operation_id oper)"
  by (auto simp: operation_rt_def rbind_def dlookup_def split: option.splits if_splits)

lemma book_inv_loaded:
  assumes "book_inv b" and "loaded b oper now = Inr b'"
  shows "book_inv b'"
  using assms unfolding loaded_def
  by (auto intro!: book_inv_upd_rt [OF assms(1)] simp: rt_ok_def operation_rtD)

lemma book_inv_failed:
  assumes "book_inv b" and "failed b oper code = Inr b'"
  shows "book_inv b'"
  using assms unfolding failed_def
  by (auto intro!: book_inv_upd_rt [OF assms(1)] simp: rt_ok_def operation_rtD)

lemma book_inv_rollback:
  assumes "book_inv b" and "rollback_unsent b oper = Inr b'"
  shows "book_inv b'"
  using assms unfolding rollback_unsent_def
  by (auto intro!: book_inv_upd_rt [OF assms(1)] simp: rt_ok_def operation_rtD)

lemma book_inv_stopped:
  assumes "book_inv b" and "stopped b oper now = Inr b'"
  shows "book_inv b'"
  using assms unfolding stopped_def
  by (auto intro!: book_inv_upd_rt [OF assms(1)] simp: rt_ok_def operation_rtD)

lemma rt_ok_add_heat [simp]: "rt_ok rec l mid (add_heat b now a r) = rt_ok rec l mid r"
  by (simp add: rt_ok_def add_heat_def)

lemma add_heat_fields [simp, book_simps]:
  "rt_leases (add_heat b now a r) = rt_leases r" "rt_state (add_heat b now a r) = rt_state r"
  "rt_reservation (add_heat b now a r) = rt_reservation r" "rt_cancelling (add_heat b now a r) = rt_cancelling r"
  "rt_generation (add_heat b now a r) = rt_generation r"
  "rt_admission_blocked (add_heat b now a r) = rt_admission_blocked r"
  "rt_operation_id (add_heat b now a r) = rt_operation_id r" "rt_stopped_at (add_heat b now a r) = rt_stopped_at r"
  by (simp_all add: add_heat_def)

lemma acquire_readyD:
  assumes "acquire_ready b uuid mid rid now = Inr (b', lease)"
  obtains r l where "dget (runtime b) mid = Some r" "dget (ledger b) mid = Some l" "\<not> recovering b"
    "rt_state r = READY" "\<not> rt_admission_blocked r" "int (length (rt_leases r)) < ls_max_concurrency l"
    "\<forall>x \<in> set (all_leases b). lease_request_id x \<noteq> rid"
    "lease = \<lparr>lease_id = uuid, lease_request_id = rid, lease_model_id = mid, lease_generation = rt_generation r\<rparr>"
    "b' = upd_rt mid (\<lambda>r. add_heat b now (request_weight b)
               (r\<lparr>rt_leases := dput uuid lease (rt_leases r),
                  rt_total_requests := rt_total_requests r + 1, rt_idle_since := None\<rparr>)) b"
  using assms by (auto simp: acquire_ready_def Let_def not_le)

text \<open>
  A fresh lease id is assumed not to be in use in the model: \<^verbatim>\<open>uuid4\<close> draws 122 random
  bits.
\<close>

lemma book_inv_acquire:
  assumes inv: "book_inv b" and a: "acquire_ready b uuid mid rid now = Inr (b', lease)"
    and fresh: "\<And>r. dget (runtime b) mid = Some r \<Longrightarrow> uuid \<notin> set (dkeys (rt_leases r))"
  shows "book_inv b'"
  using a
proof (cases rule: acquire_readyD)
  case (1 r l)
  from inv 1(1) obtain l' where "dget (ledger b) mid = Some l'" and ok: "rt_ok (recovering b) l' mid r"
    by (rule book_inv_ledger)
  with 1(2) have l': "l' = l" by simp
  let ?f = "\<lambda>r. add_heat b now (request_weight b)
      (r\<lparr>rt_leases := dput uuid lease (rt_leases r), rt_total_requests := rt_total_requests r + 1,
         rt_idle_since := None\<rparr>)"
  have "uuid \<notin> set (dkeys (rt_leases r))" using fresh 1(1) by blast
  moreover from this have "dget (rt_leases r) uuid = None" by (simp add: dget_None_iff)
  ultimately have "rt_ok (recovering b) l mid (?f r)"
    using ok l' 1(3-6,8)
    by (auto simp: rt_ok_def length_dput)
  moreover have "requests_unique b'"
  proof -
    show ?thesis
    proof (rule requests_unique_add [OF book_inv_unique [OF inv]])
      show "lease_at b' m k x \<Longrightarrow> lease_at b m k x \<or> m = mid \<and> k = uuid \<and> x = lease" for m k x
        using 1(1,9) by (auto simp: lease_at_def split: if_splits)
      show "lease_at b m k x \<Longrightarrow> lease_request_id x \<noteq> lease_request_id lease" for m k x
        using 1(7,8) book_inv_mem_leases [OF inv] by auto
    qed
  qed
  ultimately show ?thesis
    using inv 1(1,2,9) by (auto simp: book_inv_def)
qed

lemma release_rt_leases:
  "rt_leases (release_rt b lease out now tok r) = ddel (lease_id lease) (rt_leases r)"
  by (auto simp: release_rt_def Let_def split: Outcome.splits option.splits)

lemma rt_ok_drop:
  assumes ok: "rt_ok rec l mid r" and x: "dget (rt_leases r) k = Some x"
    and st: "rt_state r' = rt_state r \<and> rt_admission_blocked r' = rt_admission_blocked r
      \<or> rt_state r' = ERROR \<and> rt_admission_blocked r'"
    and same: "rt_leases r' = ddel k (rt_leases r)" "rt_cancelling r' = ddel k (rt_cancelling r)"
      "rt_reservation r' = rt_reservation r" "rt_operation_id r' = rt_operation_id r"
      "rt_generation r' = rt_generation r"
  shows "rt_ok rec l mid r'"
proof -
  have "rt_leases r \<noteq> []" using x by auto
  then have s0: "rt_state r \<in> {READY, ERROR}" using ok by (simp add: rt_ok_def)
  have len: "int (length (ddel k (rt_leases r))) \<le> ls_max_concurrency l"
    using ok length_ddel_le [of k "rt_leases r"] by (simp add: rt_ok_def)
  have lo: "leases_ok mid (rt_generation r) (ddel k (rt_leases r))"
    using ok by (auto simp: rt_ok_def)
  have le: "cancelling_ok (ddel k (rt_cancelling r)) (ddel k (rt_leases r))"
    using ok by (auto simp: rt_ok_def)
  have f: "rt_reservation r = ls_effective_reserved_bytes l" "rt_operation_id r = None" "0 \<le> rt_generation r"
    "rt_state r = ERROR \<Longrightarrow> rt_admission_blocked r" "rec \<Longrightarrow> rt_state r = ERROR"
    using ok s0 by (auto simp: rt_ok_def)
  from st s0 consider "rt_state r' = READY" "rt_state r = READY" | "rt_state r' = ERROR" "rt_admission_blocked r'"
    using f(4) by auto
  then show ?thesis
    using f(5) unfolding rt_ok_def same f(1,2) by cases (auto simp: len lo le f(3))
qed

lemma release_rt_fields:
  "rt_cancelling (release_rt b lease out now tok r) = ddel (lease_id lease) (rt_cancelling r)"
  "rt_reservation (release_rt b lease out now tok r) = rt_reservation r"
  "rt_operation_id (release_rt b lease out now tok r) = rt_operation_id r"
  "rt_generation (release_rt b lease out now tok r) = rt_generation r"
  "rt_state (release_rt b lease out now tok r) = (if out = ABORTED then ERROR else rt_state r)"
  "rt_admission_blocked (release_rt b lease out now tok r) = (out = ABORTED \<or> rt_admission_blocked r)"
  by (auto simp: release_rt_def Let_def split: Outcome.splits option.splits)

lemma rt_ok_release:
  "rt_ok rec l mid r \<Longrightarrow> owns r lease \<Longrightarrow> rt_ok rec l mid (release_rt b lease out now tok r)"
  by (erule rt_ok_drop) (auto simp: owns_def release_rt_leases release_rt_fields)

lemma book_inv_release:
  assumes inv: "book_inv b" and "release b lease out now tok = Inr (b', done)"
  shows "book_inv b'"
proof -
  from assms(2) obtain r where r: "dget (runtime b) (lease_model_id lease) = Some r"
    and cases: "b' = b \<or> (owns r lease \<and> b' = upd_rt (lease_model_id lease) (release_rt b lease out now tok) b)"
    by (auto simp: release_def split: if_splits)
  show ?thesis
    using cases
  proof
    assume "owns r lease \<and> b' = upd_rt (lease_model_id lease) (release_rt b lease out now tok) b"
    with r show ?thesis
      by (auto intro!: book_inv_upd_rt [OF inv] rt_ok_release simp: release_rt_leases split: if_splits)
  qed (simp add: inv)
qed

lemma begin_cancelD:
  assumes "begin_cancel b lease = Inr (b', ok)"
  obtains (refused) r where "dget (runtime b) (lease_model_id lease) = Some r" "\<not> owns r lease" "b' = b" "\<not> ok"
  | (accepted) r where "dget (runtime b) (lease_model_id lease) = Some r" "owns r lease" "ok"
      "b' = upd_rt (lease_model_id lease) (\<lambda>r. r\<lparr>rt_cancelling := dput (lease_id lease) lease (rt_cancelling r)\<rparr>) b"
  using assms unfolding begin_cancel_def by (elim rbind_InrE) (simp split: if_splits)

lemma rt_ok_cancel:
  assumes "rt_ok rec l mid r" and "owns r lease"
  shows "rt_ok rec l mid (r\<lparr>rt_cancelling := dput (lease_id lease) lease (rt_cancelling r)\<rparr>)"
  using assms by (auto simp: rt_ok_def owns_def)

lemma book_inv_cancel:
  assumes inv: "book_inv b" and "begin_cancel b lease = Inr (b', ok)"
  shows "book_inv b'"
  using assms(2)
proof (cases rule: begin_cancelD)
  case refused
  with inv show ?thesis by simp
next
  case (accepted r)
  then show ?thesis
    by (auto intro!: book_inv_upd_rt [OF inv] rt_ok_cancel)
qed

subsection \<open>Stop batches\<close>

lemma check_all_Inr: "check_all chk mids = Inr () \<longleftrightarrow> (\<forall>mid \<in> set mids. chk mid = Inr ())"
  by (induction mids) (auto simp: rbind_eq_Inr_iff)

definition stoppable :: "Book \<Rightarrow> string \<Rightarrow> bool" where
  "stoppable b mid \<longleftrightarrow> (\<exists>r. dget (runtime b) mid = Some r \<and> rt_state r \<in> {READY, ERROR}
     \<and> rt_leases r = [] \<and> rt_operation_id r = None)"

definition stop_rt :: "string \<Rightarrow> Runtime \<Rightarrow> Runtime" where
  "stop_rt uuid r = r\<lparr>rt_state := EVICTING, rt_admission_blocked := True, rt_operation_id := Some uuid\<rparr>"

lemma stop_rt_fields [simp, book_simps]:
  "rt_state (stop_rt uuid r) = EVICTING" "rt_leases (stop_rt uuid r) = rt_leases r"
  "rt_reservation (stop_rt uuid r) = rt_reservation r" "rt_generation (stop_rt uuid r) = rt_generation r"
  "rt_operation_id (stop_rt uuid r) = Some uuid" "rt_admission_blocked (stop_rt uuid r)"
  "rt_stopped_at (stop_rt uuid r) = rt_stopped_at r"
  by (simp_all add: stop_rt_def)

lemma begin_stops_Cons:
  "begin_stops fresh i (mid # mids) b = Inr (b', ops) \<longleftrightarrow>
     (\<exists>r ops'. dget (runtime b) mid = Some r
        \<and> begin_stops fresh (Suc i) mids (upd_rt mid (stop_rt (fresh i)) b) = Inr (b', ops')
        \<and> ops = \<lparr>op_operation_id = fresh i, op_model_id = mid, op_generation = rt_generation r,
               op_epoch = epoch b\<rparr> # ops')"
proof -
  have "stop_rt (fresh i) = (\<lambda>r. r\<lparr>rt_state := EVICTING, rt_admission_blocked := True,
      rt_operation_id := Some (fresh i)\<rparr>)"
    by (rule ext) (simp add: stop_rt_def)
  then show ?thesis by (auto simp: rbind_eq_Inr_iff)
qed

lemma book_inv_stop_one:
  assumes inv: "book_inv b" and "\<not> recovering b" and "uuid \<noteq> []" and "stoppable b mid"
  shows "book_inv (upd_rt mid (stop_rt uuid) b)"
  using assms(2-4)
  by (intro book_inv_upd_rt [OF inv]) (auto simp: stoppable_def rt_ok_def stop_rt_def split: if_splits)

lemma begin_stops_inv:
  assumes "book_inv b" and "\<not> recovering b" and "\<forall>i. fresh i \<noteq> []" and "distinct mids"
    and "\<forall>mid \<in> set mids. stoppable b mid" and "begin_stops fresh i mids b = Inr (b', ops)"
  shows "book_inv b' \<and> \<not> recovering b'"
  using assms
proof (induction mids arbitrary: i b ops)
  case Nil
  then show ?case by simp
next
  case (Cons mid mids)
  let ?b = "upd_rt mid (stop_rt (fresh i)) b"
  from Cons.prems(6) obtain ops' where step: "begin_stops fresh (Suc i) mids ?b = Inr (b', ops')"
    unfolding begin_stops_Cons by blast
  have "book_inv ?b" using Cons.prems by (intro book_inv_stop_one) auto
  moreover have "\<forall>m \<in> set mids. stoppable ?b m"
    using Cons.prems(4,5) by (auto simp: stoppable_def)
  ultimately show ?case using Cons.IH [OF _ _ _ _ _ step] Cons.prems(2-4) by simp
qed

text \<open>What a stop batch does: each named model is EVICTING under a token of its own; the others are unchanged.\<close>

lemma begin_stops_static:
  "begin_stops fresh i mids b = Inr (b', ops) \<Longrightarrow>
     map op_model_id ops = mids \<and> epoch b' = epoch b \<and> ledger b' = ledger b \<and> specs b' = specs b
     \<and> model_budget b' = model_budget b \<and> recovering b' = recovering b
     \<and> set mids \<subseteq> set (dkeys (runtime b)) \<and> dkeys (runtime b') = dkeys (runtime b)"
proof (induction mids arbitrary: i b ops)
  case (Cons mid mids)
  from Cons.prems obtain r ops' where r: "dget (runtime b) mid = Some r"
    and step: "begin_stops fresh (Suc i) mids (upd_rt mid (stop_rt (fresh i)) b) = Inr (b', ops')"
    and ops: "map op_model_id ops = mid # map op_model_id ops'"
    unfolding begin_stops_Cons by force
  have "mid \<in> set (dkeys (runtime b))" using r by (metis dget_None_iff option.distinct(1))
  with Cons.IH [OF step] ops show ?case by simp
qed simp

lemma begin_stops_unchanged:
  "begin_stops fresh i mids b = Inr (b', ops) \<Longrightarrow> m \<notin> set mids \<Longrightarrow> dget (runtime b') m = dget (runtime b) m"
  by (induction mids arbitrary: i b ops) (simp, fastforce simp: begin_stops_Cons simp del: begin_stops.simps)

lemma begin_stops_stopped:
  "begin_stops fresh i mids b = Inr (b', ops) \<Longrightarrow> distinct mids \<Longrightarrow> m \<in> set mids \<Longrightarrow>
     \<exists>r j. dget (runtime b) m = Some r \<and> dget (runtime b') m = Some (stop_rt (fresh j) r)"
proof (induction mids arbitrary: i b ops)
  case (Cons mid mids)
  from Cons.prems(1) obtain r ops' where r: "dget (runtime b) mid = Some r"
    and step: "begin_stops fresh (Suc i) mids (upd_rt mid (stop_rt (fresh i)) b) = Inr (b', ops')"
    unfolding begin_stops_Cons by blast
  show ?case
  proof (cases "m = mid")
    case True
    with begin_stops_unchanged [OF step] Cons.prems(2) r show ?thesis by auto
  next
    case False
    with Cons.IH [OF step] Cons.prems(2,3) show ?thesis by auto
  qed
qed simp

lemma begin_evictionD:
  assumes inv: "book_inv b" and "begin_eviction b fresh mids auto = Inr (b', ops)"
  shows "\<not> recovering b" "distinct mids" "mids \<noteq> []" "\<forall>mid \<in> set mids. stoppable b mid"
    "\<forall>mid \<in> set mids. \<exists>r l. dget (runtime b) mid = Some r \<and> dget (ledger b) mid = Some l \<and> \<not> ls_pinned l
       \<and> (auto \<longrightarrow> ls_evictable l) \<and> rt_state r = READY \<and> rt_leases r = []"
    "begin_stops fresh 0 mids b = Inr (b', ops)"
proof -
  have all: "\<forall>mid \<in> set mids. eviction_check b auto mid = Inr ()"
    and rest: "\<not> batch_invalid b mids" "begin_stops fresh 0 mids b = Inr (b', ops)"
    using assms(2) by (auto simp: begin_eviction_def rbind_eq_Inr_iff check_all_Inr)
  from rest show "\<not> recovering b" "distinct mids" "mids \<noteq> []" "begin_stops fresh 0 mids b = Inr (b', ops)"
    by (auto simp: batch_invalid_def)
  show *: "\<forall>mid \<in> set mids. \<exists>r l. dget (runtime b) mid = Some r \<and> dget (ledger b) mid = Some l \<and> \<not> ls_pinned l
       \<and> (auto \<longrightarrow> ls_evictable l) \<and> rt_state r = READY \<and> rt_leases r = []"
    using all by (fastforce simp: eviction_check_def rbind_eq_Inr_iff)
  show "\<forall>mid \<in> set mids. stoppable b mid"
  proof
    fix mid assume "mid \<in> set mids"
    with * obtain r where r: "dget (runtime b) mid = Some r" "rt_state r = READY" "rt_leases r = []" by blast
    with inv obtain l where "rt_ok (recovering b) l mid r" by (auto elim: book_inv_ledger)
    with r show "stoppable b mid" by (auto simp: stoppable_def rt_okD)
  qed
qed

lemma begin_cleanupD:
  assumes inv: "book_inv b" and "begin_cleanup b fresh mids = Inr (b', ops)"
  shows "\<not> recovering b" "distinct mids" "mids \<noteq> []" "\<forall>mid \<in> set mids. stoppable b mid"
    "begin_stops fresh 0 mids b = Inr (b', ops)"
proof -
  have all: "\<forall>mid \<in> set mids. cleanup_check b mid = Inr ()"
    and rest: "\<not> batch_invalid b mids" "begin_stops fresh 0 mids b = Inr (b', ops)"
    using assms(2) by (auto simp: begin_cleanup_def rbind_eq_Inr_iff check_all_Inr)
  from rest show "\<not> recovering b" "distinct mids" "mids \<noteq> []" "begin_stops fresh 0 mids b = Inr (b', ops)"
    by (auto simp: batch_invalid_def)
  show "\<forall>mid \<in> set mids. stoppable b mid"
  proof
    fix mid assume "mid \<in> set mids"
    with all obtain r where r: "dget (runtime b) mid = Some r" "rt_state r \<in> {READY, ERROR}" "rt_leases r = []"
      by (auto simp: cleanup_check_def rbind_eq_Inr_iff)
    with inv obtain l where "rt_ok (recovering b) l mid r" by (auto elim: book_inv_ledger)
    with r show "stoppable b mid" by (auto simp: stoppable_def rt_okD)
  qed
qed

lemma book_inv_eviction:
  "book_inv b \<Longrightarrow> \<forall>i. fresh i \<noteq> [] \<Longrightarrow> begin_eviction b fresh mids auto = Inr (b', ops) \<Longrightarrow> book_inv b'"
  using begin_stops_inv begin_evictionD by meson

lemma book_inv_cleanup:
  "book_inv b \<Longrightarrow> \<forall>i. fresh i \<noteq> [] \<Longrightarrow> begin_cleanup b fresh mids = Inr (b', ops) \<Longrightarrow> book_inv b'"
  using begin_stops_inv begin_cleanupD by meson

subsection \<open>Switch freezes\<close>

lemma freeze_for_switchD:
  assumes "freeze_for_switch b mids = Inr b'"
  shows "\<not> recovering b" "mids \<noteq> []" "distinct mids" "\<forall>mid \<in> set mids. freeze_check b mid = Inr ()"
    "b' = fold (\<lambda>mid. upd_rt mid (\<lambda>r. r\<lparr>rt_admission_blocked := True\<rparr>)) mids b"
  using assms by (auto simp: freeze_for_switch_def rbind_eq_Inr_iff check_all_Inr batch_invalid_def)

lemma fold_freeze:
  fixes b mids
  defines "b' \<equiv> fold (\<lambda>mid. upd_rt mid (\<lambda>r. r\<lparr>rt_admission_blocked := True\<rparr>)) mids b"
  shows "dget (runtime b') m = (if m \<in> set mids
           then map_option (\<lambda>r. r\<lparr>rt_admission_blocked := True\<rparr>) (dget (runtime b) m) else dget (runtime b) m)"
    and "epoch b' = epoch b" "ledger b' = ledger b" "specs b' = specs b" "model_budget b' = model_budget b"
      "recovering b' = recovering b" "dkeys (runtime b') = dkeys (runtime b)"
  unfolding b'_def by (induction mids arbitrary: b) (auto simp: option.map_comp comp_def)

lemma book_inv_freeze:
  assumes "book_inv b" and "freeze_for_switch b mids = Inr b'"
  shows "book_inv b'"
proof -
  have "book_inv (fold (\<lambda>mid. upd_rt mid (\<lambda>r. r\<lparr>rt_admission_blocked := True\<rparr>)) mids b)"
    if "book_inv b" "\<not> recovering b" "\<forall>mid \<in> set mids. \<exists>r. dget (runtime b) mid = Some r \<and> rt_state r = READY" for b mids
    using that
  proof (induction mids arbitrary: b)
    case (Cons mid mids)
    have "book_inv (upd_rt mid (\<lambda>r. r\<lparr>rt_admission_blocked := True\<rparr>) b)"
      using Cons.prems by (intro book_inv_upd_rt) (auto simp: rt_ok_def)
    moreover have "\<forall>m \<in> set mids. \<exists>r. dget (runtime (upd_rt mid (\<lambda>r. r\<lparr>rt_admission_blocked := True\<rparr>) b)) m = Some r
        \<and> rt_state r = READY"
      using Cons.prems(3) by auto
    ultimately show ?case using Cons.IH Cons.prems(2) by simp
  qed simp
  moreover have "\<forall>mid \<in> set mids. \<exists>r. dget (runtime b) mid = Some r \<and> rt_state r = READY"
    using freeze_for_switchD(4) [OF assms(2)] by (fastforce simp: freeze_check_def rbind_eq_Inr_iff)
  ultimately show ?thesis using assms(1) freeze_for_switchD [OF assms(2)] by simp
qed

definition unfreeze_rt :: "Runtime \<Rightarrow> Runtime" where
  "unfreeze_rt r = (if rt_state r = READY \<and> rt_operation_id r = None then r\<lparr>rt_admission_blocked := False\<rparr> else r)"

lemma dmodify_id: "distinct (dkeys d) \<Longrightarrow> dget d k = Some v \<Longrightarrow> f v = v \<Longrightarrow> dmodify k f d = d"
  by (auto simp: dmodify_def intro!: map_idI simp: dget_iff_mem dest: eq_key_imp_eq_value)

lemma dmodify_cong:
  assumes "distinct (dkeys d)" and "dget d k = Some v" and "f v = g v"
  shows "dmodify k f d = dmodify k g d"
proof -
  have "w = v" if "(k, w) \<in> set d" for w
    using that assms(1,2) by (auto simp: dget_iff_mem dest: eq_key_imp_eq_value)
  with assms(3) show ?thesis by (auto simp: dmodify_def)
qed

lemma unfreeze_switch_Cons:
  assumes "distinct (dkeys (runtime b))"
  shows "unfreeze_switch (mid # mids) b =
     (case dget (runtime b) mid of None \<Rightarrow> Inl (KeyError mid) | Some r \<Rightarrow> unfreeze_switch mids (upd_rt mid unfreeze_rt b))"
proof (cases "dget (runtime b) mid")
  case None
  then show ?thesis by (simp add: dlookup_def)
next
  case (Some r)
  have "(if rt_state r = READY \<and> rt_operation_id r = None
         then upd_rt mid (\<lambda>r. r\<lparr>rt_admission_blocked := False\<rparr>) b else b) = upd_rt mid unfreeze_rt b"
  proof (cases "rt_state r = READY \<and> rt_operation_id r = None")
    case True
    then have "dmodify mid (\<lambda>r. r\<lparr>rt_admission_blocked := False\<rparr>) (runtime b) = dmodify mid unfreeze_rt (runtime b)"
      by (intro dmodify_cong [OF assms Some]) (simp add: unfreeze_rt_def)
    with True show ?thesis by (simp add: upd_rt_def)
  next
    case False
    then have "dmodify mid unfreeze_rt (runtime b) = runtime b"
      by (intro dmodify_id [OF assms Some]) (auto simp: unfreeze_rt_def)
    with False show ?thesis by (auto simp: upd_rt_def)
  qed
  with Some show ?thesis by (simp add: dlookup_Some)
qed

lemma rt_ok_unfreeze: "rt_ok rec l mid r \<Longrightarrow> rt_ok rec l mid (unfreeze_rt r)"
  by (auto simp: rt_ok_def unfreeze_rt_def)

lemma unfreeze_rt_fields [simp, book_simps]:
  "rt_state (unfreeze_rt r) = rt_state r" "rt_leases (unfreeze_rt r) = rt_leases r"
  "rt_reservation (unfreeze_rt r) = rt_reservation r" "rt_generation (unfreeze_rt r) = rt_generation r"
  "rt_operation_id (unfreeze_rt r) = rt_operation_id r" "rt_stopped_at (unfreeze_rt r) = rt_stopped_at r"
  by (simp_all add: unfreeze_rt_def)

text \<open>Induction over the models of \<^verbatim>\<open>unfreeze_switch\<close>: what each single update keeps, the loop keeps.\<close>

lemma unfreeze_switch_induct:
  assumes "unfreeze_switch mids b = Inr b'" and "book_inv b" and "P b"
    and "\<And>b mid. book_inv b \<Longrightarrow> P b \<Longrightarrow> mid \<in> set (dkeys (runtime b)) \<Longrightarrow> P (upd_rt mid unfreeze_rt b)"
  shows "book_inv b' \<and> P b'"
  using assms(1-3)
proof (induction mids arbitrary: b)
  case (Cons mid mids)
  from Cons.prems obtain r where r: "dget (runtime b) mid = Some r"
    and rest: "unfreeze_switch mids (upd_rt mid unfreeze_rt b) = Inr b'"
    by (auto simp: unfreeze_switch_Cons [OF book_inv_keys(3)] simp del: unfreeze_switch.simps split: option.splits)
  have "book_inv (upd_rt mid unfreeze_rt b)"
    by (rule book_inv_upd_rt [OF Cons.prems(2)]) (auto simp: rt_ok_unfreeze)
  moreover have "P (upd_rt mid unfreeze_rt b)"
    using assms(4) Cons.prems r by (metis dget_None_iff option.distinct(1))
  ultimately show ?case using Cons.IH [OF rest] by simp
qed simp

lemmas book_inv_unfreeze = unfreeze_switch_induct [where P = "\<lambda>_. True", simplified]

subsection \<open>Recovery\<close>

definition fence_rt :: "Runtime \<Rightarrow> Runtime" where
  "fence_rt r = (let r1 = r\<lparr>rt_operation_id := None, rt_admission_blocked := True\<rparr>
     in if rt_state r1 \<noteq> UNLOADED
        then r1\<lparr>rt_state := ERROR, rt_last_error := Some ''control_recovering''\<rparr> else r1)"

definition clear_rt :: "Runtime \<Rightarrow> Runtime" where
  "clear_rt r = r\<lparr>rt_state := UNLOADED, rt_reservation := 0, rt_operation_id := None,
     rt_admission_blocked := False, rt_idle_since := None, rt_last_error := None\<rparr>"

lemma begin_recovery_eq:
  "begin_recovery b =
     (if recovering b then (b, epoch b)
      else (b\<lparr>epoch := epoch b + 1, recovering := True, runtime := map (\<lambda>(mid, r). (mid, fence_rt r)) (runtime b)\<rparr>,
            epoch b + 1))"
  by (simp add: begin_recovery_def fence_rt_def)

lemma finish_recoveryD:
  assumes "finish_recovery b ep stopped_ids = Inr b'"
  shows "recovering b" "ep = epoch b" "set stopped_ids = set (dkeys (specs b))"
    "\<forall>r \<in> set (dvals (runtime b)). rt_leases r = []"
    "b' = b\<lparr>recovering := False, runtime := map (\<lambda>(mid, r). (mid, clear_rt r)) (runtime b)\<rparr>"
  using assms by (auto simp: finish_recovery_def clear_rt_def rbind_eq_Inr_iff)

lemma rt_ok_fence: "rt_ok False l mid r \<Longrightarrow> rt_ok True l mid (fence_rt r)"
  by (auto simp: rt_ok_def fence_rt_def Let_def)

lemma rt_ok_clear: "rt_ok rec l mid r \<Longrightarrow> rt_leases r = [] \<Longrightarrow> rt_ok False l mid (clear_rt r)"
  by (simp add: rt_ok_def clear_rt_def)

text \<open>An update of every model at once.\<close>

lemma dkeys_map_vals [simp, dict_simps]: "map (fst \<circ> (\<lambda>(k, v). (k, f v))) d = dkeys d"
  by (simp add: comp_def case_prod_beta)

lemma book_inv_map_rt:
  assumes inv: "book_inv b"
    and ok: "\<And>mid r l. dget (runtime b) mid = Some r \<Longrightarrow> rt_ok (recovering b) l mid r \<Longrightarrow> rt_ok rec l mid (f r)"
    and leases: "\<And>r. rt_leases (f r) = rt_leases r"
  shows "book_inv (b\<lparr>epoch := ep, recovering := rec, runtime := map (\<lambda>(mid, r). (mid, f r)) (runtime b)\<rparr>)"
proof -
  let ?b = "b\<lparr>epoch := ep, recovering := rec, runtime := map (\<lambda>(mid, r). (mid, f r)) (runtime b)\<rparr>"
  have look: "dget (runtime ?b) m = map_option f (dget (runtime b) m)" for m
    by (simp add: map_of_map)
  have "\<exists>l. dget (ledger b) m = Some l \<and> rt_ok rec l m r" if "dget (runtime ?b) m = Some r" for m r
  proof -
    from that look obtain r0 where "dget (runtime b) m = Some r0" "r = f r0" by auto
    with inv ok show ?thesis by (auto elim: book_inv_ledger)
  qed
  moreover have "requests_unique ?b"
    using book_inv_unique [OF inv] by (rule requests_unique_mono) (auto simp: lease_at_def map_of_map leases)
  ultimately show ?thesis using inv by (simp add: book_inv_def book_static_def)
qed

lemma book_inv_begin_recovery:
  assumes "book_inv b"
  shows "book_inv (fst (begin_recovery b))"
  using book_inv_map_rt [OF assms, of True fence_rt "epoch b + 1"] assms rt_ok_fence
  by (auto simp: begin_recovery_eq fence_rt_def Let_def)

lemma book_inv_finish_recovery:
  assumes inv: "book_inv b" and "finish_recovery b ep stopped_ids = Inr b'"
  shows "book_inv b'"
proof -
  note f = finish_recoveryD [OF assms(2)]
  have "rt_leases r = []" if "dget (runtime b) mid = Some r" for mid r
    using f(4) dget_in_dvals [OF that] by blast
  then have "book_inv (b\<lparr>epoch := epoch b, recovering := False,
      runtime := map (\<lambda>(mid, r). (mid, clear_rt r)) (runtime b)\<rparr>)"
    by (intro book_inv_map_rt [OF inv]) (auto intro: rt_ok_clear, simp add: clear_rt_def)
  then show ?thesis by (simp add: f(5))
qed

end
