(* ===== verification/Book_Machine.thy ===== *)
theory Book_Machine
  imports Book_Invariant
begin

text \<open>
  The accounting book as a state machine, and its properties along runs: the ledgers stay
  within the budget, and tokens and leases that are no longer current never become current
  again.  The state carries the set of identifiers drawn so far, so that each draw of
  \<^verbatim>\<open>uuid4\<close> is new.
\<close>

section \<open>Steps\<close>

type_synonym book_run = "Book \<times> string set"

definition fresh_id :: "string set \<Rightarrow> string \<Rightarrow> bool" where
  "fresh_id used uuid \<longleftrightarrow> uuid \<noteq> [] \<and> uuid \<notin> used"

inductive book_step :: "book_run \<Rightarrow> book_run \<Rightarrow> bool" where
  bs_bootstrap: "bootstrap_stopped b mid = Inr b' \<Longrightarrow> book_step (b, used) (b', used)"
| bs_load: "fresh_id used uuid \<Longrightarrow> begin_load b uuid mid s now = Inr (b', oper)
    \<Longrightarrow> book_step (b, used) (b', insert uuid used)"
| bs_loaded: "loaded b oper now = Inr b' \<Longrightarrow> book_step (b, used) (b', used)"
| bs_failed: "failed b oper code = Inr b' \<Longrightarrow> book_step (b, used) (b', used)"
| bs_acquire: "fresh_id used uuid \<Longrightarrow> acquire_ready b uuid mid rid now = Inr (b', lease)
    \<Longrightarrow> book_step (b, used) (b', insert uuid used)"
| bs_release: "release b lease out now tok = Inr (b', done) \<Longrightarrow> book_step (b, used) (b', used)"
| bs_cancel: "begin_cancel b lease = Inr (b', done) \<Longrightarrow> book_step (b, used) (b', used)"
| bs_evict: "\<forall>i. fresh_id used (fresh i) \<Longrightarrow> begin_eviction b fresh mids auto = Inr (b', ops)
    \<Longrightarrow> book_step (b, used) (b', range fresh \<union> used)"
| bs_freeze: "freeze_for_switch b mids = Inr b' \<Longrightarrow> book_step (b, used) (b', used)"
| bs_unfreeze: "unfreeze_switch mids b = Inr b' \<Longrightarrow> book_step (b, used) (b', used)"
| bs_cleanup: "\<forall>i. fresh_id used (fresh i) \<Longrightarrow> begin_cleanup b fresh mids = Inr (b', ops)
    \<Longrightarrow> book_step (b, used) (b', range fresh \<union> used)"
| bs_rollback: "rollback_unsent b oper = Inr b' \<Longrightarrow> book_step (b, used) (b', used)"
| bs_stopped: "stopped b oper t = Inr b' \<Longrightarrow> book_step (b, used) (b', used)"
| bs_begin_recovery: "begin_recovery b = (b', ep) \<Longrightarrow> book_step (b, used) (b', used)"
| bs_finish_recovery: "finish_recovery b ep stopped_ids = Inr b' \<Longrightarrow> book_step (b, used) (b', used)"

definition book_start :: "book_run \<Rightarrow> bool" where
  "book_start s \<longleftrightarrow> (\<exists>sps budget flr mrg age hl rw tw. distinct (dkeys sps)
     \<and> book_init sps budget flr mrg age hl rw tw = Inr (fst s))"

section \<open>One step\<close>

definition rt_evolves :: "bool \<Rightarrow> string set \<Rightarrow> bool \<Rightarrow> Runtime \<Rightarrow> Runtime \<Rightarrow> bool" where
  "rt_evolves ld new same r r' \<longleftrightarrow> rt_generation r \<le> rt_generation r'
     \<and> (\<forall>u. rt_operation_id r' = Some u \<longrightarrow>
          u \<in> new \<or> same \<and> rt_operation_id r = Some u \<and> rt_generation r' = rt_generation r)
     \<and> (\<forall>k x. dget (rt_leases r') k = Some x \<longrightarrow> k \<in> new \<or> dget (rt_leases r) k = Some x)
     \<and> (ld \<or> rt_reservation r' \<in> {rt_reservation r, 0})"

definition evolves :: "bool \<Rightarrow> string set \<Rightarrow> Book \<Rightarrow> Book \<Rightarrow> bool" where
  "evolves ld new b b' \<longleftrightarrow> epoch b \<le> epoch b' \<and> ledger b' = ledger b \<and> model_budget b' = model_budget b
     \<and> physical_enforced b' = physical_enforced b \<and> dkeys (runtime b') = dkeys (runtime b)
     \<and> (\<forall>m r'. dget (runtime b') m = Some r' \<longrightarrow>
          (\<exists>r. dget (runtime b) m = Some r \<and> rt_evolves ld new (epoch b' = epoch b) r r'))"

lemma rt_evolves_refl [simp]: "rt_evolves ld new True r r"
  by (simp add: rt_evolves_def)

lemma evolves_refl [simp]: "evolves ld new b b"
  by (simp add: evolves_def)

lemma evolves_upd_rt:
  assumes "\<And>r. dget (runtime b) mid = Some r \<Longrightarrow> rt_evolves ld new True r (f r)"
  shows "evolves ld new b (upd_rt mid f b)"
  using assms by (auto simp: evolves_def split: if_splits)

lemma begin_stops_phys: "begin_stops fresh i mids b = Inr (b', ops) \<Longrightarrow> physical_enforced b' = physical_enforced b"
  by (induction mids arbitrary: i b ops) (simp, fastforce simp: begin_stops_Cons simp del: begin_stops.simps)

lemma evolves_stops:
  assumes "begin_stops fresh i mids b = Inr (b', ops)" and "distinct mids"
  shows "evolves False (range fresh) b b'"
proof -
  have "\<exists>r. dget (runtime b) m = Some r \<and> rt_evolves False (range fresh) True r r'"
    if m: "dget (runtime b') m = Some r'" for m r'
  proof (cases "m \<in> set mids")
    case True
    with begin_stops_stopped [OF assms True] m show ?thesis by (auto simp: rt_evolves_def)
  next
    case False
    with begin_stops_unchanged [OF assms(1)] m show ?thesis by auto
  qed
  with begin_stops_static [OF assms(1)] begin_stops_phys [OF assms(1)] show ?thesis by (simp add: evolves_def)
qed

lemma evolves_freeze:
  assumes "freeze_for_switch b mids = Inr b'"
  shows "evolves False {} b b'"
proof -
  have phys: "physical_enforced (fold (\<lambda>mid. upd_rt mid (\<lambda>r. r\<lparr>rt_admission_blocked := True\<rparr>)) mids b)
      = physical_enforced b" for mids
    by (induction mids arbitrary: b) auto
  show ?thesis
    using freeze_for_switchD(5) [OF assms]
    by (auto simp: evolves_def fold_freeze phys rt_evolves_def split: if_splits)
qed

text \<open>The books that \<^verbatim>\<open>unfreeze_switch\<close> passes through.\<close>

definition unfrozen :: "Book \<Rightarrow> Book \<Rightarrow> bool" where
  "unfrozen b c \<longleftrightarrow> epoch c = epoch b \<and> ledger c = ledger b \<and> model_budget c = model_budget b
     \<and> physical_enforced c = physical_enforced b \<and> dkeys (runtime c) = dkeys (runtime b)
     \<and> (\<forall>m. dget (runtime c) m \<in> {dget (runtime b) m, map_option unfreeze_rt (dget (runtime b) m)})"

lemma unfreeze_rt_idem [simp]: "unfreeze_rt (unfreeze_rt r) = unfreeze_rt r"
  by (simp add: unfreeze_rt_def)

lemma unfrozen_step: "unfrozen b c \<Longrightarrow> unfrozen b (upd_rt mid unfreeze_rt c)"
proof -
  assume c: "unfrozen b c"
  have "dget (runtime (upd_rt mid unfreeze_rt c)) m
      \<in> {dget (runtime b) m, map_option unfreeze_rt (dget (runtime b) m)}" for m
  proof -
    from c have "dget (runtime c) m = dget (runtime b) m \<or> dget (runtime c) m = map_option unfreeze_rt (dget (runtime b) m)"
      by (simp add: unfrozen_def)
    then show ?thesis by (auto simp: option.map_comp comp_def)
  qed
  with c show ?thesis by (simp add: unfrozen_def)
qed

lemma evolves_unfrozen: "unfrozen b c \<Longrightarrow> evolves ld new b c"
proof -
  assume c: "unfrozen b c"
  have "\<exists>r. dget (runtime b) m = Some r \<and> rt_evolves ld new True r r'" if "dget (runtime c) m = Some r'" for m r'
  proof -
    from c have "dget (runtime c) m = dget (runtime b) m \<or> dget (runtime c) m = map_option unfreeze_rt (dget (runtime b) m)"
      by (simp add: unfrozen_def)
    with that have "dget (runtime b) m = Some r' \<or> map_option unfreeze_rt (dget (runtime b) m) = Some r'" by metis
    then show ?thesis by (auto simp: rt_evolves_def)
  qed
  with c show ?thesis by (simp add: unfrozen_def evolves_def)
qed

lemma evolves_unfreeze:
  assumes "book_inv b" and "unfreeze_switch mids b = Inr b'"
  shows "evolves False {} b b'"
  using unfreeze_switch_induct [OF assms(2,1), of "unfrozen b"] unfrozen_step evolves_unfrozen
  by (auto simp: unfrozen_def)

lemma evolves_begin_recovery: "evolves False {} b (fst (begin_recovery b))"
  by (auto simp: begin_recovery_eq evolves_def map_of_map rt_evolves_def fence_rt_def Let_def)

lemma evolves_finish_recovery:
  assumes "finish_recovery b ep ids = Inr b'"
  shows "evolves False {} b b'"
  unfolding finish_recoveryD(5) [OF assms] by (auto simp: evolves_def map_of_map rt_evolves_def clear_rt_def)

lemma evolves_release:
  "release b lease out now tok = Inr (b', done) \<Longrightarrow> evolves False {} b b'"
  by (auto simp: release_def intro!: evolves_upd_rt split: if_splits)
    (auto simp: rt_evolves_def release_rt_leases release_rt_fields split: if_splits)

lemma evolves_load:
  assumes "begin_load b uuid mid s now = Inr (b', oper)"
  shows "evolves True {uuid} b b'"
  using assms
proof (cases rule: begin_loadD)
  case (1 r l)
  then show ?thesis by (auto intro!: evolves_upd_rt simp: rt_evolves_def)
qed

lemma evolves_acquire:
  "acquire_ready b uuid mid rid now = Inr (b', lease) \<Longrightarrow> evolves False {uuid} b b'"
  by (erule acquire_readyD) (auto intro!: evolves_upd_rt simp: rt_evolves_def split: if_splits)

lemma evolves_writeback:
  "bootstrap_stopped b mid = Inr b' \<Longrightarrow> evolves False {} b b'"
  "loaded b oper now = Inr b' \<Longrightarrow> evolves False {} b b'"
  "failed b oper code = Inr b' \<Longrightarrow> evolves False {} b b'"
  "rollback_unsent b oper = Inr b' \<Longrightarrow> evolves False {} b b'"
  "stopped b oper t = Inr b' \<Longrightarrow> evolves False {} b b'"
  "begin_cancel b lease = Inr (b', done) \<Longrightarrow> evolves False {} b b'"
  by (auto simp: bootstrap_stopped_def loaded_def failed_def rollback_unsent_def stopped_def begin_cancel_def
      rt_evolves_def intro!: evolves_upd_rt split: if_splits)

definition ids_used :: "Book \<Rightarrow> string set \<Rightarrow> bool" where
  "ids_used b used \<longleftrightarrow> (\<forall>m r. dget (runtime b) m = Some r \<longrightarrow>
     (\<forall>u. rt_operation_id r = Some u \<longrightarrow> u \<in> used) \<and> (\<forall>k x. dget (rt_leases r) k = Some x \<longrightarrow> k \<in> used))"

definition run_inv :: "book_run \<Rightarrow> bool" where
  "run_inv s \<longleftrightarrow> book_inv (fst s) \<and> ids_used (fst s) (snd s)"

lemma ids_used_evolves: "evolves ld new b b' \<Longrightarrow> ids_used b used \<Longrightarrow> ids_used b' (new \<union> used)"
  unfolding evolves_def ids_used_def rt_evolves_def by (metis Un_iff)

lemma book_step_evolves:
  assumes "book_step s t" and "book_inv (fst s)"
  shows "\<exists>ld new. snd t = new \<union> snd s \<and> new \<inter> snd s = {} \<and> evolves ld new (fst s) (fst t)
    \<and> (ld \<longrightarrow> (\<exists>uuid mid smp now oper. begin_load (fst s) uuid mid smp now = Inr (fst t, oper)))"
  using assms
proof (cases rule: book_step.cases)
  case (bs_load used uuid b mid smp now b' oper)
  then show ?thesis using evolves_load [OF bs_load(4)]
    by (intro exI [of _ True] exI [of _ "{uuid}"]) (auto simp: fresh_id_def, blast)
next
  case (bs_acquire used uuid b mid rid now b' lease)
  then show ?thesis using evolves_acquire by (intro exI [of _ False] exI [of _ "{uuid}"]) (auto simp: fresh_id_def)
next
  case (bs_evict used fresh b mids auto b' ops)
  with assms(2) have "book_inv b" by simp
  note e = begin_evictionD [OF this bs_evict(4)]
  then show ?thesis using evolves_stops [OF e(6,2)] bs_evict
    by (intro exI [of _ False] exI [of _ "range fresh"]) (auto simp: fresh_id_def)
next
  case (bs_cleanup used fresh b mids b' ops)
  with assms(2) have "book_inv b" by simp
  note e = begin_cleanupD [OF this bs_cleanup(4)]
  then show ?thesis using evolves_stops [OF e(5,2)] bs_cleanup
    by (intro exI [of _ False] exI [of _ "range fresh"]) (auto simp: fresh_id_def)
next
  case (bs_begin_recovery b b' ep used)
  then show ?thesis using evolves_begin_recovery [of b] by (intro exI [of _ False] exI [of _ "{}"]) simp
qed (use assms(2) in \<open>auto intro!: exI [of _ False] exI [of _ "{}"] dest: evolves_writeback evolves_release evolves_freeze
      evolves_unfreeze evolves_finish_recovery\<close>)

lemma book_step_inv:
  assumes "book_step s t" and "run_inv s"
  shows "book_inv (fst t)"
proof -
  have inv: "book_inv (fst s)" and used: "ids_used (fst s) (snd s)" using assms(2) by (auto simp: run_inv_def)
  show ?thesis
    using assms(1)
  proof (cases rule: book_step.cases)
    case (bs_acquire used uuid b mid rid now b' lease)
    have "\<forall>r. dget (runtime b) mid = Some r \<longrightarrow> uuid \<notin> set (dkeys (rt_leases r))"
      using used bs_acquire(1,3) unfolding ids_used_def fresh_id_def by (metis dget_None_iff fst_conv not_None_eq snd_conv)
    then show ?thesis using book_inv_acquire inv bs_acquire by auto
  next
    case (bs_begin_recovery b b' ep used)
    then show ?thesis using book_inv_begin_recovery [of b] inv by simp
  qed (use inv in \<open>auto simp: fresh_id_def intro: book_inv_bootstrap book_inv_begin_load book_inv_loaded book_inv_failed
      book_inv_release book_inv_cancel book_inv_eviction book_inv_freeze book_inv_cleanup
      book_inv_rollback book_inv_stopped book_inv_finish_recovery dest: book_inv_unfreeze\<close>)
qed

interpretation bm: machine book_start book_step run_inv
proof
  fix s
  assume "book_start s"
  then obtain sps budget flr mrg age hl rw tw where "distinct (dkeys sps)"
    and b: "book_init sps budget flr mrg age hl rw tw = Inr (fst s)" by (auto simp: book_start_def)
  then have "book_inv (fst s)" "\<forall>r \<in> set (dvals (runtime (fst s))). rt_state r = UNKNOWN"
    using book_inv_init by blast+
  then have "rt_state r = UNKNOWN \<and> rt_operation_id r = None \<and> rt_leases r = []"
    if "dget (runtime (fst s)) m = Some r" for m r
    using that dget_in_dvals [OF that] by (auto elim!: book_inv_ledger simp: rt_ok_def)
  with \<open>book_inv (fst s)\<close> show "run_inv s" by (auto simp: run_inv_def ids_used_def)
next
  fix s t
  assume "run_inv s" "book_step s t"
  moreover from this obtain ld new where "snd t = new \<union> snd s" "evolves ld new (fst s) (fst t)"
    using book_step_evolves [of s t] by (auto simp: run_inv_def)
  ultimately show "run_inv t" using book_step_inv ids_used_evolves by (auto simp: run_inv_def)
qed

section \<open>The two ledgers as sums over model ids\<close>

definition reserved :: "Book \<Rightarrow> string \<Rightarrow> int" where
  "reserved b m = (case dget (runtime b) m of None \<Rightarrow> 0 | Some r \<Rightarrow> rt_reservation r)"

lemma sum_over_keys:
  "distinct (dkeys d) \<Longrightarrow> sum_list (map (\<lambda>(m, r). g m r) d) = sum_list (map (\<lambda>m. g m (the (dget d m))) (dkeys d))"
  for g :: "'k \<Rightarrow> 'v \<Rightarrow> int"
proof -
  assume d: "distinct (dkeys d)"
  have "g (fst p) (snd p) = g (fst p) (the (dget d (fst p)))" if "p \<in> set d" for p
    using that dget_iff_mem [OF d] by (metis option.sel prod.collapse)
  then have "map (\<lambda>(m, r). g m r) d = map (\<lambda>m. g m (the (dget d m))) (dkeys d)"
    by (auto simp: case_prod_beta)
  then show ?thesis by (rule arg_cong)
qed

lemma the_dget_reserved: "m \<in> set (dkeys (runtime b)) \<Longrightarrow> rt_reservation (the (dget (runtime b) m)) = reserved b m"
  using dget_None_iff [of "runtime b" m] by (auto simp: reserved_def split: option.splits)

lemma committed_keys:
  assumes "distinct (dkeys (runtime b))"
  shows "committed b = sum_list (map (reserved b) (dkeys (runtime b)))"
  unfolding committed_def sum_over_keys [OF assms, of "\<lambda>m r. rt_reservation r"]
  using the_dget_reserved [of _ b] by (intro arg_cong [where f = sum_list] map_cong) auto

lemma physical_committed_keys:
  assumes "distinct (dkeys (runtime b))"
  shows "physical_committed b =
    sum_list (map (\<lambda>m. if reserved b m > 0 then physical_figure b m else 0) (dkeys (runtime b)))"
  unfolding physical_committed_def
    sum_over_keys [OF assms, of "\<lambda>m r. if rt_reservation r > 0 then physical_figure b m else 0"]
  using the_dget_reserved [of _ b] by (intro arg_cong [where f = sum_list] map_cong) auto

lemma physical_figure_nonneg: "book_inv b \<Longrightarrow> 0 \<le> physical_figure b m"
proof -
  assume inv: "book_inv b"
  have "0 < p" if "dget (ledger b) m = Some l" "ls_physical_reserved_bytes l = Some p" for l p
    using inv dget_in_dvals [OF that(1)] that(2) by (auto simp: book_inv_def book_static_def ledger_ok_def)
  then show ?thesis by (force simp: physical_figure_def split: option.splits)
qed

lemma reserved_cases:
  assumes "book_inv b"
  shows "0 \<le> reserved b m"
  using assms
  by (cases "dget (runtime b) m") (auto simp: reserved_def ledger_ok_def rt_ok_def elim!: book_inv_ledger)

lemma sum_list_le: "(\<And>x. x \<in> set xs \<Longrightarrow> f x \<le> g x) \<Longrightarrow> sum_list (map f xs) \<le> sum_list (map g xs)"
  for f g :: "'a \<Rightarrow> int"
  by (induction xs) (auto intro: add_mono)

text \<open>When no reservation grows, no ledger grows.\<close>

lemma ledgers_shrink:
  assumes inv: "book_inv b" and keys: "dkeys (runtime b') = dkeys (runtime b)" and led: "ledger b' = ledger b"
    and le: "\<And>m. reserved b' m = reserved b m \<or> reserved b' m = 0"
  shows "committed b' \<le> committed b" and "physical_committed b' \<le> physical_committed b"
proof -
  have d: "distinct (dkeys (runtime b))" by (rule book_inv_keys(3) [OF inv])
  show "committed b' \<le> committed b"
    unfolding committed_keys [OF d] committed_keys [of b', unfolded keys, OF d]
    using le reserved_cases [OF inv] by (intro sum_list_le) (metis order_refl)
  have "physical_figure b' = physical_figure b" by (rule ext) (simp add: physical_figure_def led)
  moreover have "(if reserved b' m > 0 then physical_figure b m else 0)
      \<le> (if reserved b m > 0 then physical_figure b m else 0)" for m
    using le [of m] physical_figure_nonneg [OF inv, of m] by auto
  ultimately show "physical_committed b' \<le> physical_committed b"
    unfolding physical_committed_keys [OF d] physical_committed_keys [of b', unfolded keys, OF d]
    by (intro sum_list_le) presburger
qed

lemma evolves_reserved: "evolves False new b b' \<Longrightarrow> reserved b' m = reserved b m \<or> reserved b' m = 0"
  by (cases "dget (runtime b') m") (force simp: reserved_def evolves_def rt_evolves_def)+

lemma reserved_upd_rt:
  "reserved (upd_rt mid f b) m =
     (if m = mid then (case dget (runtime b) mid of None \<Rightarrow> 0 | Some r \<Rightarrow> rt_reservation (f r)) else reserved b m)"
  by (auto simp: reserved_def split: option.splits)

lemma committed_upd_rt:
  assumes "distinct (dkeys (runtime b))" and "dget (runtime b) mid = Some r"
  shows "committed (upd_rt mid f b) = committed b - rt_reservation r + rt_reservation (f r)"
  using sum_list_dmodify [OF assms, of "\<lambda>(mid, r). rt_reservation r" f] by (simp add: committed_def)

lemma physical_committed_upd_rt:
  assumes "distinct (dkeys (runtime b))" and "dget (runtime b) mid = Some r"
  shows "physical_committed (upd_rt mid f b) = physical_committed b
    - (if rt_reservation r > 0 then physical_figure b mid else 0)
    + (if rt_reservation (f r) > 0 then physical_figure b mid else 0)"
proof -
  have fig: "physical_figure (upd_rt mid f b) = physical_figure b" by (rule ext) (simp add: physical_figure_def)
  show ?thesis
    using sum_list_dmodify [OF assms, of "\<lambda>(m, r). if rt_reservation r > 0 then physical_figure b m else 0" f]
    unfolding physical_committed_def fig by simp
qed

lemma physical_others:
  assumes d: "distinct (dkeys (runtime b))" and r: "dget (runtime b) mid = Some r" and z: "rt_reservation r = 0"
  shows "sum_list (map (\<lambda>(other, r). if other \<noteq> mid \<and> rt_reservation r > 0
      then physical_figure b other else 0) (runtime b)) = physical_committed b"
proof -
  have "q = r" if "(mid, q) \<in> set (runtime b)" for q
    using that r d by (simp add: dget_iff_mem eq_key_imp_eq_value)
  then have "map (\<lambda>(other, r). if other \<noteq> mid \<and> rt_reservation r > 0 then physical_figure b other else 0) (runtime b)
      = map (\<lambda>(other, r). if rt_reservation r > 0 then physical_figure b other else 0) (runtime b)"
    using z by (intro map_cong) auto
  then show ?thesis unfolding physical_committed_def by (rule arg_cong)
qed

text \<open>An admitted load keeps both ledgers within the budget.\<close>

lemma begin_load_budget:
  assumes inv: "book_inv b" and load: "begin_load b uuid mid s now = Inr (b', oper)"
  shows "committed b' \<le> model_budget b" and "physical_enforced b \<Longrightarrow> physical_committed b' \<le> model_budget b"
proof -
  note d = book_inv_keys(3) [OF inv]
  obtain r l where can: "can_load b mid s now = Inr True" and r: "dget (runtime b) mid = Some r"
    and l: "dget (ledger b) mid = Some l"
    and b': "b' = upd_rt mid (\<lambda>r. r\<lparr>rt_generation := rt_generation r + 1, rt_state := LOADING,
        rt_reservation := ls_effective_reserved_bytes l, rt_operation_id := Some uuid, rt_idle_since := None,
        rt_last_error := None\<rparr>) b"
    using load by (rule begin_loadD)
  from can r l have st: "rt_state r = UNLOADED"
    and c: "committed b + ls_effective_reserved_bytes l \<le> model_budget b"
    and p: "physical_admissible b mid = Inr True"
    by (auto elim: can_loadD)
  from inv r st have z: "rt_reservation r = 0" by (auto elim!: book_inv_ledger simp: rt_ok_def)
  then show "committed b' \<le> model_budget b" using c by (simp add: b' committed_upd_rt [OF d r])
  assume "physical_enforced b"
  with p l obtain v where v: "ls_physical_reserved_bytes l = Some v"
    and le: "sum_list (map (\<lambda>(other, r). if other \<noteq> mid \<and> rt_reservation r > 0
        then physical_figure b other else 0) (runtime b)) + v \<le> model_budget b"
    by (auto simp: physical_admissible_def Let_def split: option.splits)
  with physical_others [OF d r z] have "physical_committed b + v \<le> model_budget b" by simp
  moreover have "physical_figure b mid = v" by (simp add: physical_figure_def l v)
  moreover have "0 \<le> v" using physical_figure_nonneg [OF inv, of mid] \<open>physical_figure b mid = v\<close> by simp
  ultimately show "physical_committed b' \<le> model_budget b"
    using z by (simp add: b' physical_committed_upd_rt [OF d r])
qed

lemma physical_unenforced: "book_inv b \<Longrightarrow> \<not> physical_enforced b \<Longrightarrow> physical_committed b = 0"
proof -
  assume inv: "book_inv b" and no: "\<not> physical_enforced b"
  have "physical_figure b m = 0" for m
  proof (cases "dget (ledger b) m")
    case (Some l)
    then have "ls_physical_reserved_bytes l = None"
      using inv no dget_in_dvals [OF Some] by (auto simp: book_inv_def book_static_def)
    with Some show ?thesis by (simp add: physical_figure_def)
  qed (simp add: physical_figure_def)
  then have "sum_list (map (\<lambda>(m, r). if rt_reservation r > 0 then physical_figure b m else 0) d) = 0" for d
    by (induction d) auto
  then show ?thesis by (simp only: physical_committed_def)
qed

definition within_budget :: "Book \<Rightarrow> bool" where
  "within_budget b \<longleftrightarrow> committed b \<le> model_budget b \<and> physical_committed b \<le> model_budget b"

lemma book_step_budget:
  assumes "run_inv s" and "book_step s t" and "within_budget (fst s)"
  shows "within_budget (fst t)"
proof -
  let ?b = "fst s" and ?b' = "fst t"
  have inv: "book_inv ?b" and inv': "book_inv ?b'"
    using assms(1) book_step_inv [OF assms(2,1)] by (simp_all add: run_inv_def)
  from book_step_evolves [OF assms(2) inv] obtain ld new where ev: "evolves ld new ?b ?b'"
    and ld: "ld \<longrightarrow> (\<exists>uuid mid smp now oper. begin_load ?b uuid mid smp now = Inr (?b', oper))" by blast
  then have same: "model_budget ?b' = model_budget ?b" "physical_enforced ?b' = physical_enforced ?b"
    "ledger ?b' = ledger ?b" "dkeys (runtime ?b') = dkeys (runtime ?b)"
    by (auto simp: evolves_def)
  show ?thesis
  proof (cases ld)
    case True
    with ld obtain uuid mid smp now oper where load: "begin_load ?b uuid mid smp now = Inr (?b', oper)" by blast
    have "physical_committed ?b' \<le> model_budget ?b'"
      using begin_load_budget(2) [OF inv load] physical_unenforced [OF inv'] same inv
      by (cases "physical_enforced ?b") (auto simp: book_inv_def book_static_def)
    with begin_load_budget(1) [OF inv load] same show ?thesis by (simp add: within_budget_def)
  next
    case False
    with ev have "reserved ?b' m = reserved ?b m \<or> reserved ?b' m = 0" for m by (simp add: evolves_reserved)
    from ledgers_shrink [OF inv same(4,3) this] assms(3) same(1) show ?thesis by (simp add: within_budget_def)
  qed
qed

end
