(* ===== verification/Book_Properties.thy ===== *)
theory Book_Properties
  imports Book_Machine
begin

text \<open>
  The properties of the accounting book along its runs: ledgers, operation tokens, leases,
  stop batches and recovery, each with a run of a small book on which it applies.
\<close>

section \<open>A small book\<close>

definition demo_envelope :: Envelope where
  "demo_envelope = \<lparr>env_ctx_size = 4096, env_max_input_tokens = 2048, env_max_output_tokens = 1024,
     env_max_parallel = 2, env_max_image_tokens = 0, env_max_image_edge_pixels = 0, env_max_images = 0\<rparr>"

definition demo_spec :: "string \<Rightarrow> int \<Rightarrow> int \<Rightarrow> RegisteredModelSpec" where
  "demo_spec mid res peak = \<lparr>rm_model_id = mid, rm_runtime_id = ''llama'', rm_capabilities = [''chat''],
     rm_assets = [], rm_port = 8001, rm_envelope = demo_envelope, rm_timeout_seconds = 60,
     rm_reserved_bytes = res, rm_measured = True, rm_measurement_ref = Some ''m'',
     rm_physical_resident_peak_bytes = Some peak\<rparr>"

definition demo_ledger :: "string \<Rightarrow> int \<Rightarrow> int \<Rightarrow> LedgerSpec" where
  "demo_ledger mid eff phys = \<lparr>ls_model_id = mid, ls_effective_reserved_bytes = eff,
     ls_physical_reserved_bytes = Some phys, ls_max_concurrency = 2, ls_pinned = False, ls_evictable = True,
     ls_preload = False, ls_ttl_seconds = 0, ls_priority = 0\<rparr>"

definition demo_book :: Book where
  "demo_book = \<lparr>model_budget = 150, free_floor = 10, margin = 0,
     specs = [(''a'', RegV2 (demo_spec ''a'' 100 80)), (''b'', RegV2 (demo_spec ''b'' 60 40))],
     ledger = [(''a'', demo_ledger ''a'' 100 92), (''b'', demo_ledger ''b'' 60 46)],
     runtime = [(''a'', new_runtime 100), (''b'', new_runtime 60)],
     physical_enforced = True, max_sample_age = 5, half_life = 60, request_weight = 1, token_weight = 0,
     epoch = 0, recovering = False\<rparr>"

lemma demo_registration:
  "0 < res \<Longrightarrow> 0 < peak \<Longrightarrow> from_registration (RegV2 (demo_spec mid res peak)) m
     = Inr (demo_ledger mid res ((peak * 115 + 99) div 100))"
  by (simp add: demo_spec_def demo_envelope_def effective_reserved_bytes_def positive_int_def
      physical_reserved_bytes_from_peak_def MARGIN_PERCENT_def MARGIN_DIVISOR_def demo_ledger_def)

lemma demo_book_init: "book_init (specs demo_book) 150 10 0 5 60 1 0 = Inr demo_book"
proof -
  have "ledger_from 0 (specs demo_book) = Inr (ledger demo_book)"
    by (simp add: demo_book_def demo_registration del: from_registration.simps)
  moreover have "\<not> (\<exists>(mid, spec) \<in> set (specs demo_book). mid \<noteq> reg_model_id spec)"
    by (simp add: demo_book_def demo_spec_def)
  ultimately show ?thesis
    by (simp add: book_init_def) (simp add: demo_book_def demo_ledger_def)
qed

lemma demo_start: "book_start (demo_book, {})"
proof -
  have "distinct (dkeys (specs demo_book))" by (simp add: demo_book_def)
  with demo_book_init show ?thesis unfolding book_start_def fst_conv by blast
qed

text \<open>The states of a run: both models found stopped, \<open>a\<close> loading, \<open>a\<close> ready, \<open>a\<close> leased.\<close>

definition demo_sample :: MemorySample where
  "demo_sample = \<lparr>total_bytes = 1000, available_bytes = 500, sampled_at = 1\<rparr>"

definition demo_off :: Book where
  "demo_off = upd_rt ''b'' (\<lambda>r. r\<lparr>rt_state := UNLOADED, rt_reservation := 0\<rparr>)
     (upd_rt ''a'' (\<lambda>r. r\<lparr>rt_state := UNLOADED, rt_reservation := 0\<rparr>) demo_book)"

definition demo_loading :: Book where
  "demo_loading = upd_rt ''a'' (\<lambda>r. r\<lparr>rt_generation := 1, rt_state := LOADING, rt_reservation := 100,
     rt_operation_id := Some ''op1''\<rparr>) demo_off"

definition demo_op :: Operation where
  "demo_op = \<lparr>op_operation_id = ''op1'', op_model_id = ''a'', op_generation = 1, op_epoch = 0\<rparr>"

definition demo_ready :: Book where
  "demo_ready = upd_rt ''a'' (\<lambda>r. r\<lparr>rt_state := READY, rt_operation_id := None, rt_admission_blocked := False,
     rt_idle_since := Some 2\<rparr>) demo_loading"

lemmas demo_book_defs = demo_off_def demo_loading_def demo_ready_def demo_book_def demo_ledger_def demo_op_def
  demo_sample_def new_runtime_def dmodify_def upd_rt_def dlookup_def

lemma demo_steps:
  "bootstrap_stopped (upd_rt ''a'' (\<lambda>r. r\<lparr>rt_state := UNLOADED, rt_reservation := 0\<rparr>) demo_book) ''b'' = Inr demo_off"
  "bootstrap_stopped demo_book ''a'' = Inr (upd_rt ''a'' (\<lambda>r. r\<lparr>rt_state := UNLOADED, rt_reservation := 0\<rparr>) demo_book)"
  "begin_load demo_off ''op1'' ''a'' demo_sample 1 = Inr (demo_loading, demo_op)"
  "loaded demo_loading demo_op 2 = Inr demo_ready"
  by (simp_all add: demo_book_defs bootstrap_stopped_def begin_load_def can_load_def required_def
      physical_admissible_def physical_figure_def committed_def sample_valid_def sample_after_stop_def
      loaded_def operation_rt_def Let_def)

lemmas book_reach_start = reaches_start [of book_start _ book_step]
lemmas book_reach_step = reaches_step [of book_start book_step]

lemma demo_reach:
  "reaches book_start book_step (demo_off, {})"
  "reaches book_start book_step (demo_loading, {''op1''})"
  "reaches book_start book_step (demo_ready, {''op1''})"
proof -
  show off: "reaches book_start book_step (demo_off, {})"
    by (rule book_reach_step [OF book_reach_step [OF book_reach_start [OF demo_start] bs_bootstrap [OF demo_steps(2)]]
          bs_bootstrap [OF demo_steps(1)]])
  show ld: "reaches book_start book_step (demo_loading, {''op1''})"
    using book_reach_step [OF off bs_load [OF _ demo_steps(3)]] by (simp add: fresh_id_def)
  show "reaches book_start book_step (demo_ready, {''op1''})"
    by (rule book_reach_step [OF ld bs_loaded [OF demo_steps(4)]])
qed

definition demo_lease :: Lease where
  "demo_lease = \<lparr>lease_id = ''L1'', lease_request_id = ''r1'', lease_model_id = ''a'', lease_generation = 1\<rparr>"

definition demo_leased :: Book where
  "demo_leased = upd_rt ''a'' (\<lambda>r. add_heat demo_ready 3 1 (r\<lparr>rt_leases := dput ''L1'' demo_lease (rt_leases r),
     rt_total_requests := rt_total_requests r + 1, rt_idle_since := None\<rparr>)) demo_ready"

lemma demo_ready_a:
  "dget (runtime demo_ready) ''a'' = Some (new_runtime 100\<lparr>rt_generation := 1, rt_state := READY, rt_idle_since := Some 2\<rparr>)"
  "dget (ledger demo_ready) ''a'' = Some (demo_ledger ''a'' 100 92)" "\<not> recovering demo_ready"
  "all_leases demo_ready = []" "request_weight demo_ready = 1"
  by (simp_all add: demo_book_defs all_leases_def)

lemma demo_acquire: "acquire_ready demo_ready ''L1'' ''a'' ''r1'' 3 = Inr (demo_leased, demo_lease)"
  unfolding acquire_ready_def
  by (simp add: dlookup_Some demo_ready_a demo_leased_def demo_lease_def new_runtime_def demo_ledger_def
      Let_def)

lemma demo_reach_leased: "reaches book_start book_step (demo_leased, {''L1'', ''op1''})"
  using book_reach_step [OF demo_reach(3) bs_acquire [OF _ demo_acquire]] by (simp add: fresh_id_def)

lemma demo_leased_a:
  "dget (runtime demo_leased) ''a'' = Some (add_heat demo_ready 3 1 (new_runtime 100\<lparr>rt_generation := 1, rt_state := READY,
     rt_leases := [(''L1'', demo_lease)], rt_total_requests := 1\<rparr>))"
  by (simp add: demo_leased_def demo_ready_a new_runtime_def)

section \<open>Consistency and the budget\<close>

text \<open>The admission rule of loads, as a predicate of the model's entries.\<close>

definition load_allowed :: "Book \<Rightarrow> Runtime \<Rightarrow> LedgerSpec \<Rightarrow> MemorySample \<Rightarrow> time \<Rightarrow> bool" where
  "load_allowed b r l s now \<longleftrightarrow>
      \<not> recovering b \<and> rt_state r = UNLOADED \<and> rt_leases r = [] \<and> \<not> rt_admission_blocked r
      \<and> sample_valid b s now \<and> (\<forall>t. rt_stopped_at r = Some t \<longrightarrow> t \<le> sampled_at s)
      \<and> free_floor b + ls_effective_reserved_bytes l \<le> available_bytes s
      \<and> committed b + ls_effective_reserved_bytes l \<le> model_budget b
      \<and> (physical_enforced b \<longrightarrow>
           (\<exists>p. ls_physical_reserved_bytes l = Some p \<and> physical_committed b + p \<le> model_budget b))"

lemma can_load_iff:
  assumes inv: "book_inv b" and r: "dget (runtime b) mid = Some r" and l: "dget (ledger b) mid = Some l"
  shows "can_load b mid s now = Inr (load_allowed b r l s now)"
proof -
  have s: "sample_after_stop r s \<longleftrightarrow> (\<forall>t. rt_stopped_at r = Some t \<longrightarrow> t \<le> sampled_at s)"
    by (simp add: sample_after_stop_def split: option.splits)
  show ?thesis
  proof (cases "rt_state r = UNLOADED")
    case True
    with inv r have z: "rt_reservation r = 0" by (auto simp: rt_ok_def elim!: book_inv_ledger)
    have "physical_admissible b mid = Inr (physical_enforced b \<longrightarrow>
        (\<exists>p. ls_physical_reserved_bytes l = Some p \<and> physical_committed b + p \<le> model_budget b))"
      using physical_others [OF book_inv_keys(3) [OF inv] r z] l
      by (simp add: physical_admissible_def dlookup_Some Let_def split: option.splits)
    with True r l s show ?thesis by (auto simp: can_load_def required_def dlookup_Some load_allowed_def)
  qed (use r l in \<open>simp add: can_load_def required_def dlookup_Some load_allowed_def\<close>)
qed

text \<open>
  C31. Every book reached from a freshly built one is consistent: each model's reservation is
  the one of its ledger entry unless it is UNLOADED (then 0), it carries an operation token
  exactly while LOADING or EVICTING, it is leased only while READY or ERROR and by at most
  its concurrency, EVICTING and ERROR models admit nobody, and during recovery every model is
  fenced.
\<close>

theorem book_reachable_inv:
  assumes "reaches book_start book_step s"
  shows "book_inv (fst s)"
  using bm.reaches_inv [OF assms] by (simp add: run_inv_def)

theorem book_reachable_inv_witness: "book_inv demo_ready \<and> dkeys (runtime demo_ready) = [''a'', ''b'']"
  using book_reachable_inv [OF demo_reach(3)] by (simp add: demo_book_defs)

text \<open>
  C30. Once the sum of the reservations and the sum of the physical figures are within the
  model budget, no sequence of operations of the book takes either of them above it.
\<close>

theorem book_budget_never_exceeded:
  assumes "reaches book_start book_step s" and "within_budget (fst s)" and "book_step\<^sup>*\<^sup>* s t"
  shows "committed (fst t) \<le> model_budget (fst t) \<and> physical_committed (fst t) \<le> model_budget (fst t)"
proof -
  have "within_budget (fst t)"
    using assms(3) bm.reaches_inv [OF assms(1)] assms(2)
    by (rule bm.steps_stable [where Q = "\<lambda>s. within_budget (fst s)", rotated]) (rule book_step_budget)
  then show ?thesis by (simp add: within_budget_def)
qed

theorem book_budget_never_exceeded_witness:
  "committed demo_ready = 100 \<and> physical_committed demo_ready = 92 \<and> committed demo_ready \<le> model_budget demo_ready"
proof -
  have "within_budget demo_off"
    by (simp add: within_budget_def committed_def physical_committed_def demo_book_defs)
  moreover have "book_step\<^sup>*\<^sup>* (demo_off, {}) (demo_ready, {''op1''})"
    using bs_load [OF _ demo_steps(3), of "{}"] bs_loaded [OF demo_steps(4), of "{''op1''}"]
    by (auto simp: fresh_id_def intro: converse_rtranclp_into_rtranclp)
  ultimately have "committed demo_ready \<le> model_budget demo_ready"
    using book_budget_never_exceeded [of "(demo_off, {})" "(demo_ready, {''op1''})"] demo_reach(1) by simp
  then show ?thesis
    by (simp add: committed_def physical_committed_def physical_figure_def demo_book_defs)
qed

text \<open>
  C33. A load is admitted exactly when the model is UNLOADED, idle and unblocked outside
  recovery, the memory sample is recent, well-formed and not older than the model's last
  stop, the free memory covers the floor and the reservation, and both ledgers have room;
  its token is then current, and exactly the model's reservation is added to the ledger.
\<close>

theorem begin_load_correct:
  assumes inv: "book_inv b" and r: "dget (runtime b) mid = Some r" and l: "dget (ledger b) mid = Some l"
  shows "case begin_load b uuid mid s now of
      Inl e \<Rightarrow> e = Conflict ''load not admissible'' \<and> \<not> load_allowed b r l s now
    | Inr (b', oper) \<Rightarrow> load_allowed b r l s now
        \<and> operation_rt b' oper = Inr (the (dget (runtime b') mid))
        \<and> committed b' = committed b + ls_effective_reserved_bytes l
        \<and> (\<forall>m. m \<noteq> mid \<longrightarrow> dget (runtime b') m = dget (runtime b) m)"
proof -
  note d = book_inv_keys(3) [OF inv]
  have c: "can_load b mid s now = Inr (load_allowed b r l s now)" by (rule can_load_iff [OF assms])
  show ?thesis
  proof (cases "load_allowed b r l s now")
    case True
    with inv r have "rt_reservation r = 0" by (auto simp: load_allowed_def rt_ok_def elim!: book_inv_ledger)
    with c True r l committed_upd_rt [OF d r] show ?thesis
      by (auto simp: begin_load_def required_def dlookup_Some operation_rtD)
  qed (simp add: begin_load_def c)
qed

theorem begin_load_correct_witness:
  "(case begin_load demo_off ''op1'' ''a'' demo_sample 1 of Inl e \<Rightarrow> False
    | Inr (b', oper) \<Rightarrow> committed b' = committed demo_off + 100)
   \<and> begin_load demo_loading ''op2'' ''b'' demo_sample 1 = Inl (Conflict ''load not admissible'')"
proof -
  have inv: "book_inv demo_off" "book_inv demo_loading"
    using bm.reaches_inv demo_reach by (auto simp: run_inv_def)
  obtain r where r: "dget (runtime demo_off) ''a'' = Some r" by (simp add: demo_book_defs)
  obtain r' where r': "dget (runtime demo_loading) ''b'' = Some r'" by (simp add: demo_book_defs)
  have l: "dget (ledger demo_off) ''a'' = Some (demo_ledger ''a'' 100 92)"
    "dget (ledger demo_loading) ''b'' = Some (demo_ledger ''b'' 60 46)" by (simp_all add: demo_book_defs)
  have "\<not> load_allowed demo_loading r' (demo_ledger ''b'' 60 46) demo_sample 1"
    by (simp add: load_allowed_def committed_def demo_book_defs)
  then show ?thesis
    using begin_load_correct [OF inv(1) r l(1), where uuid = "''op1''" and s = demo_sample and now = 1]
      begin_load_correct [OF inv(2) r' l(2), where uuid = "''op2''" and s = demo_sample and now = 1] demo_steps(3)
    by (auto simp: demo_ledger_def split: sum.splits)
qed

section \<open>Operation tokens\<close>

definition token_current :: "Book \<Rightarrow> Operation \<Rightarrow> bool" where
  "token_current b oper \<longleftrightarrow> (\<exists>r. operation_rt b oper = Inr r)"

lemma token_step:
  assumes "run_inv s" and "book_step s t" and "op_operation_id oper \<in> snd s" and "token_current (fst t) oper"
  shows "token_current (fst s) oper"
proof -
  from assms(1) have inv: "book_inv (fst s)" by (simp add: run_inv_def)
  obtain r' where r': "dget (runtime (fst t)) (op_model_id oper) = Some r'" "op_epoch oper = epoch (fst t)"
    "rt_generation r' = op_generation oper" "rt_operation_id r' = Some (op_operation_id oper)"
    using assms(4) by (auto simp: token_current_def operation_rtD)
  from book_step_evolves [OF assms(2) inv] obtain ld new where "new \<inter> snd s = {}"
    and ev: "evolves ld new (fst s) (fst t)" by blast
  with assms(3) have new: "op_operation_id oper \<notin> new" by blast
  from ev r'(1) obtain r where r: "dget (runtime (fst s)) (op_model_id oper) = Some r"
    and "rt_evolves ld new (epoch (fst t) = epoch (fst s)) r r'" unfolding evolves_def by blast
  with r'(2-4) new show ?thesis by (auto simp: token_current_def operation_rtD rt_evolves_def)
qed

lemma stale_writebacks:
  assumes "\<not> token_current b oper" and "op_model_id oper \<in> set (dkeys (runtime b))"
  defines "e \<equiv> Inl (StaleOperation (op_operation_id oper))"
  shows "loaded b oper now = e" "failed b oper code = e" "rollback_unsent b oper = e" "stopped b oper t = e"
proof -
  obtain r where "dget (runtime b) (op_model_id oper) = Some r"
    using assms(2) dget_None_iff [of "runtime b" "op_model_id oper"] by auto
  then have "operation_rt b oper = Inl (StaleOperation (op_operation_id oper))"
    using assms(1) by (auto simp: token_current_def operation_rt_def dlookup_Some)
  then show "loaded b oper now = e" "failed b oper code = e" "rollback_unsent b oper = e" "stopped b oper t = e"
    by (simp_all add: loaded_def failed_def rollback_unsent_def stopped_def e_def)
qed

lemma step_keys:
  assumes "run_inv s" and "book_step s t" shows "dkeys (runtime (fst t)) = dkeys (runtime (fst s))"
  using book_step_evolves [OF assms(2)] assms(1) by (auto simp: run_inv_def evolves_def)

text \<open>
  C32. An operation token that is no longer current (its operation was written back, rolled
  back, or fenced by a recovery) never becomes current again: after any further run of the book
  all four writebacks refuse it with StaleOperation and change nothing.
\<close>

theorem stale_token_refused_forever:
  assumes "reaches book_start book_step s" and "op_operation_id oper \<in> snd s"
    and "op_model_id oper \<in> set (dkeys (runtime (fst s)))"
    and "\<forall>r. operation_rt (fst s) oper \<noteq> Inr r" and "book_step\<^sup>*\<^sup>* s t"
  shows "loaded (fst t) oper now = Inl (StaleOperation (op_operation_id oper))
    \<and> failed (fst t) oper code = Inl (StaleOperation (op_operation_id oper))
    \<and> rollback_unsent (fst t) oper = Inl (StaleOperation (op_operation_id oper))
    \<and> stopped (fst t) oper at_time = Inl (StaleOperation (op_operation_id oper))"
proof -
  let ?Q = "\<lambda>s. op_operation_id oper \<in> snd s \<and> op_model_id oper \<in> set (dkeys (runtime (fst s)))
    \<and> \<not> token_current (fst s) oper"
  have keep: "?Q t" if s: "run_inv s" "book_step s t" and q: "?Q s" for s t
  proof -
    have "snd s \<subseteq> snd t" using book_step_evolves [OF s(2)] s(1) by (auto simp: run_inv_def)
    with token_step [OF s, of oper] step_keys [OF s] q show ?thesis by auto
  qed
  have "?Q t"
    using assms(5) bm.reaches_inv [OF assms(1)]
    by (rule bm.steps_stable [where Q = ?Q, rotated]) (use assms(2-4) keep in \<open>auto simp: token_current_def\<close>)
  then show ?thesis using stale_writebacks by simp
qed

theorem stale_token_refused_forever_witness:
  "loaded demo_ready demo_op 3 = Inl (StaleOperation ''op1'')
   \<and> stopped demo_ready demo_op None = Inl (StaleOperation ''op1'')"
proof -
  have "\<forall>r. operation_rt demo_ready demo_op \<noteq> Inr r" by (simp add: operation_rt_def demo_book_defs)
  with stale_token_refused_forever [OF demo_reach(3), of demo_op "(demo_ready, {''op1''})" 3 "Some ''x''" None]
  show ?thesis by (simp add: demo_book_defs)
qed

section \<open>Leases\<close>

lemma lease_step:
  assumes "run_inv s" and "book_step s t" and "k \<in> snd s" and "lease_at (fst t) m k x"
  shows "lease_at (fst s) m k x"
proof -
  from assms(1) have inv: "book_inv (fst s)" by (simp add: run_inv_def)
  from assms(4) obtain r' where r': "dget (runtime (fst t)) m = Some r'" "dget (rt_leases r') k = Some x"
    by (auto simp: lease_at_def)
  from book_step_evolves [OF assms(2) inv] obtain ld new where "new \<inter> snd s = {}"
    and ev: "evolves ld new (fst s) (fst t)" by blast
  with assms(3) have "k \<notin> new" by blast
  moreover from ev r'(1) obtain r where "dget (runtime (fst s)) m = Some r"
    "rt_evolves ld new (epoch (fst t) = epoch (fst s)) r r'" unfolding evolves_def by blast
  ultimately show ?thesis using r'(2) by (auto simp: lease_at_def rt_evolves_def)
qed

text \<open>
  A lease is released at most once: after a release that returned true, every later
  release of it, in every state that the book reaches from there, returns false and changes
  nothing.
\<close>

theorem lease_released_once:
  assumes "reaches book_start book_step (b, used)" and "release b lease out now tok = Inr (b', True)"
    and "book_step\<^sup>*\<^sup>* (b', used) t"
  shows "release (fst t) lease out' now' tok' = Inr (fst t, False)"
proof -
  let ?m = "lease_model_id lease" and ?k = "lease_id lease"
  have s: "run_inv (b, used)" by (rule bm.reaches_inv [OF assms(1)])
  have step: "book_step (b, used) (b', used)" using assms(2) by (rule bs_release)
  then have inv': "run_inv (b', used)" by (rule bm.step_inv [OF s])
  from assms(2) obtain r where r: "dget (runtime b) ?m = Some r" "owns r lease"
    and b': "b' = upd_rt ?m (release_rt b lease out now tok) b" by (auto simp: release_def split: if_splits)
  have used: "?k \<in> used" using s r by (auto simp: run_inv_def ids_used_def owns_def)
  let ?Q = "\<lambda>s. ?k \<in> snd s \<and> ?m \<in> set (dkeys (runtime (fst s))) \<and> (\<forall>x. \<not> lease_at (fst s) ?m ?k x)"
  have keep: "?Q t" if s: "run_inv s" "book_step s t" and q: "?Q s" for s t
  proof -
    have "snd s \<subseteq> snd t" using book_step_evolves [OF s(2)] s(1) by (auto simp: run_inv_def)
    with lease_step [OF s, of ?k ?m] step_keys [OF s] q show ?thesis by auto
  qed
  have "?m \<in> set (dkeys (runtime b))" using r(1) by (metis dget_None_iff option.distinct(1))
  then have "?Q (b', used)" using used r by (auto simp: b' lease_at_def release_rt_leases)
  with keep have "?Q t" using bm.steps_stable [where Q = ?Q, OF _ assms(3) inv'] by blast
  moreover from this obtain q where "dget (runtime (fst t)) ?m = Some q"
    using dget_None_iff [of "runtime (fst t)" ?m] by auto
  ultimately show ?thesis by (auto simp: release_def dlookup_Some owns_def lease_at_def)
qed

theorem lease_released_once_witness:
  "\<exists>b'. release demo_leased demo_lease SUCCESS 4 (Some 7) = Inr (b', True)
     \<and> release b' demo_lease ABORTED 5 None = Inr (b', False)"
proof -
  obtain b' where b': "release demo_leased demo_lease SUCCESS 4 (Some 7) = Inr (b', True)"
    unfolding release_def
    by (simp add: demo_lease_def dlookup_Some demo_leased_a owns_def new_runtime_def)
  from lease_released_once [OF demo_reach_leased b', of "(b', {''L1'', ''op1''})"] b' show ?thesis by auto
qed

text \<open>
  C34. In every reachable book a request owns at most one lease over all models, a model's
  leases never exceed its concurrency, and each lease carries the model's current generation.
\<close>

theorem leases_bounded_and_unique:
  assumes "reaches book_start book_step s" and "dget (runtime (fst s)) m = Some r"
    and "dget (rt_leases r) k = Some x"
  shows "(\<forall>m' r' k' y. dget (runtime (fst s)) m' = Some r' \<and> dget (rt_leases r') k' = Some y
            \<and> lease_request_id y = lease_request_id x \<longrightarrow> m' = m \<and> k' = k \<and> y = x)
    \<and> (\<exists>l. dget (ledger (fst s)) m = Some l \<and> int (length (rt_leases r)) \<le> ls_max_concurrency l)
    \<and> lease_model_id x = m \<and> lease_id x = k \<and> lease_generation x = rt_generation r"
proof -
  have inv: "book_inv (fst s)" using bm.reaches_inv [OF assms(1)] by (simp add: run_inv_def)
  obtain l where l: "dget (ledger (fst s)) m = Some l" and ok: "rt_ok (recovering (fst s)) l m r"
    by (rule book_inv_ledger [OF inv assms(2)])
  have at_x: "lease_at (fst s) m k x" using assms(2,3) by (auto simp: lease_at_def)
  have "m' = m \<and> k' = k \<and> y = x"
    if "dget (runtime (fst s)) m' = Some r'" "dget (rt_leases r') k' = Some y"
      "lease_request_id y = lease_request_id x" for m' r' k' y
  proof -
    have "lease_at (fst s) m' k' y" using that(1,2) by (auto simp: lease_at_def)
    with at_x that(3) book_inv_unique [OF inv] have "m' = m \<and> k' = k" unfolding requests_unique_def by metis
    with that assms(2,3) show ?thesis by auto
  qed
  then show ?thesis using l ok assms(3) by (auto simp: rt_ok_def leases_ok_def)
qed

theorem leases_bounded_and_unique_witness:
  "\<exists>r. dget (runtime demo_leased) ''a'' = Some r \<and> int (length (rt_leases r)) \<le> 2
     \<and> acquire_ready demo_leased ''L2'' ''a'' ''r1'' 4 = Inl (Conflict ''request already owns a lease'')"
proof -
  obtain r where r: "dget (runtime demo_leased) ''a'' = Some r" "rt_leases r = [(''L1'', demo_lease)]"
    "rt_state r = READY" "\<not> rt_admission_blocked r"
    by (simp add: demo_leased_a new_runtime_def)
  have l: "dget (ledger demo_leased) ''a'' = Some (demo_ledger ''a'' 100 92)"
    by (simp add: demo_leased_def demo_ready_a)
  have "int (length (rt_leases r)) \<le> 2"
    using leases_bounded_and_unique [OF demo_reach_leased, of "''a''" r "''L1''" demo_lease] r l
    by (simp add: demo_ledger_def)
  moreover have "demo_lease \<in> set (all_leases demo_leased)"
    using r(1,2) by (force simp: all_leases_def dest: dget_in_set)
  then have dup: "\<exists>x \<in> set (all_leases demo_leased). lease_request_id x = ''r1''"
    by (rule bexI [rotated]) (simp add: demo_lease_def)
  have "\<not> recovering demo_leased" by (simp add: demo_leased_def demo_ready_a)
  then have "acquire_ready demo_leased ''L2'' ''a'' ''r1'' 4 = Inl (Conflict ''request already owns a lease'')"
    unfolding acquire_ready_def using r l dup by (simp add: dlookup_Some demo_ledger_def)
  ultimately show ?thesis using r(1) by blast
qed

section \<open>Stops\<close>

text \<open>
  A stop batch is all or nothing and touches only what it may: when \<^verbatim>\<open>begin_eviction\<close>
  succeeds, every named model was READY, idle, unpinned (and evictable for an automatic
  eviction); all of them are then EVICTING and closed to admission with their reservation still
  held, each under a current token, and no other model has changed.
\<close>

theorem begin_eviction_safe:
  assumes inv: "book_inv b" and "begin_eviction b fresh mids automatic = Inr (b', ops)"
  shows "map op_model_id ops = mids \<and> committed b' = committed b
    \<and> (\<forall>m. m \<notin> set mids \<longrightarrow> dget (runtime b') m = dget (runtime b) m)
    \<and> (\<forall>m \<in> set mids. \<exists>r r' l. dget (runtime b) m = Some r \<and> dget (runtime b') m = Some r'
         \<and> dget (ledger b) m = Some l \<and> rt_state r = READY \<and> rt_leases r = [] \<and> \<not> ls_pinned l
         \<and> (automatic \<longrightarrow> ls_evictable l) \<and> rt_state r' = EVICTING \<and> rt_admission_blocked r'
         \<and> rt_reservation r' = rt_reservation r \<and> 0 < rt_reservation r')"
proof -
  note e = begin_evictionD [OF assms]
  note st = begin_stops_static [OF e(6)] and un = begin_stops_unchanged [OF e(6)]
  have each: "\<exists>r r' l. dget (runtime b) m = Some r \<and> dget (runtime b') m = Some r'
         \<and> dget (ledger b) m = Some l \<and> rt_state r = READY \<and> rt_leases r = [] \<and> \<not> ls_pinned l
         \<and> (automatic \<longrightarrow> ls_evictable l) \<and> rt_state r' = EVICTING \<and> rt_admission_blocked r'
         \<and> rt_reservation r' = rt_reservation r \<and> 0 < rt_reservation r'" if m: "m \<in> set mids" for m
  proof -
    from e(5) m obtain r l where r: "dget (runtime b) m = Some r" "dget (ledger b) m = Some l" "\<not> ls_pinned l"
      "automatic \<longrightarrow> ls_evictable l" "rt_state r = READY" "rt_leases r = []" by blast
    moreover have "0 < rt_reservation r"
      using book_inv_ledger [OF inv r(1)] r(5) by (metis State.distinct(13) ledger_ok_def rt_okD(3))
    moreover from begin_stops_stopped [OF e(6,2) m] r(1) obtain j
      where "dget (runtime b') m = Some (stop_rt (fresh j) r)" by auto
    ultimately show ?thesis by auto
  qed
  have "reserved b' m = reserved b m" for m
    using each [of m] un [of m] by (cases "m \<in> set mids") (auto simp: reserved_def)
  then have "committed b' = committed b"
    using book_inv_keys(3) [OF inv] st by (simp add: committed_keys cong: map_cong)
  with each un st show ?thesis by blast
qed

theorem begin_eviction_safe_witness:
  "\<exists>b' ops. begin_eviction demo_ready (\<lambda>_. ''op2'') [''a''] True = Inr (b', ops)
     \<and> committed b' = 100 \<and> map op_model_id ops = [''a'']
     \<and> (\<exists>e. begin_eviction demo_leased (\<lambda>_. ''op2'') [''a''] True = Inl e)"
proof -
  have inv: "book_inv demo_ready" using bm.reaches_inv [OF demo_reach(3)] by (simp add: run_inv_def)
  have "eviction_check demo_ready True ''a'' = Inr ()"
    by (simp add: eviction_check_def dlookup_Some demo_ready_a new_runtime_def demo_ledger_def)
  then obtain b' ops where b': "begin_eviction demo_ready (\<lambda>_. ''op2'') [''a''] True = Inr (b', ops)"
    by (simp add: begin_eviction_def batch_invalid_def demo_ready_a dlookup_Some)
  have "committed demo_ready = 100" by (simp add: committed_def demo_book_defs)
  moreover have "\<exists>e. begin_eviction demo_leased (\<lambda>_. ''op2'') [''a''] True = Inl e"
    by (simp add: begin_eviction_def batch_invalid_def eviction_check_def demo_leased_a dlookup_Some
        demo_leased_def demo_ready_a new_runtime_def)
  ultimately show ?thesis using b' begin_eviction_safe [OF inv b'] by auto
qed

lemma stops_keep_reservation:
  assumes "begin_stops fresh i mids b = Inr (b', ops)" and "distinct mids" and "dget (runtime b) m = Some r"
    and "dget (runtime b') m = Some r'"
  shows "rt_reservation r' = rt_reservation r"
  using assms begin_stops_stopped [OF assms(1,2), of m] begin_stops_unchanged [OF assms(1), of m]
  by (cases "m \<in> set mids") auto

text \<open>
  Memory is given back only on evidence that the model is stopped: a step that takes the
  reservation of a model to 0 is a confirmed stop of an EVICTING model, the bootstrap of a model
  never loaded, or the end of a recovery that confirmed that the model is stopped.
\<close>

theorem reservation_freed_only_by_stop:
  assumes "reaches book_start book_step s" and "book_step s t"
    and r: "dget (runtime (fst s)) m = Some r" "0 < rt_reservation r"
    and r': "dget (runtime (fst t)) m = Some r'" "rt_reservation r' = 0"
  shows "rt_state r = EVICTING \<and> (\<exists>oper now. op_model_id oper = m \<and> stopped (fst s) oper now = Inr (fst t))
    \<or> rt_state r = UNKNOWN \<and> bootstrap_stopped (fst s) m = Inr (fst t)
    \<or> rt_state r = ERROR \<and> (\<exists>ep ids. m \<in> set ids \<and> finish_recovery (fst s) ep ids = Inr (fst t))"
  using assms(2)
proof (cases rule: book_step.cases)
  case (bs_bootstrap b mid b' used)
  then have "m = mid \<and> rt_state r = UNKNOWN" using r r' by (auto simp: bootstrap_stopped_def split: if_splits)
  with bs_bootstrap show ?thesis by simp
next
  case (bs_load used uuid b mid smp now b' oper)
  have "book_inv b" using bm.reaches_inv [OF assms(1)] bs_load by (simp add: run_inv_def)
  with bs_load(4) r r' bs_load(1,2) show ?thesis
    by (elim begin_loadD) (auto elim!: book_inv_ledger simp: ledger_ok_def split: if_splits)
next
  case (bs_release b lease out now tok b' ok used)
  with r r' show ?thesis by (auto simp: release_def release_rt_fields split: if_splits)
next
  case (bs_acquire used uuid b mid rid now b' lease)
  from bs_acquire(4) r r' bs_acquire(1,2) show ?thesis by (elim acquire_readyD) (auto split: if_splits)
next
  case (bs_evict used fresh b mids auto b' ops)
  have "book_inv b" using bm.reaches_inv [OF assms(1)] bs_evict by (simp add: run_inv_def)
  note e = begin_evictionD [OF this bs_evict(4)]
  from stops_keep_reservation [OF e(6,2)] r r' bs_evict(1,2) show ?thesis by auto
next
  case (bs_cleanup used fresh b mids b' ops)
  have "book_inv b" using bm.reaches_inv [OF assms(1)] bs_cleanup by (simp add: run_inv_def)
  note e = begin_cleanupD [OF this bs_cleanup(4)]
  from stops_keep_reservation [OF e(5,2)] r r' bs_cleanup(1,2) show ?thesis by auto
next
  case (bs_stopped b oper tm b' used)
  then have "m = op_model_id oper \<and> rt_state r = EVICTING"
    using r r' by (auto simp: stopped_def operation_rtD split: if_splits)
  with bs_stopped show ?thesis by auto
next
  case (bs_finish_recovery b ep ids b' used)
  have inv: "book_inv b" using bm.reaches_inv [OF assms(1)] bs_finish_recovery by (simp add: run_inv_def)
  have "m \<in> set (dkeys (specs b))"
    using r(1) bs_finish_recovery(1) book_inv_keys(1) [OF inv] by (metis dget_None_iff fst_conv option.distinct(1))
  moreover have "rt_state r \<in> {UNLOADED, ERROR}"
    using r(1) bs_finish_recovery(1) finish_recoveryD(1) [OF bs_finish_recovery(3)] inv
    by (auto elim!: book_inv_ledger simp: rt_ok_def)
  moreover have "rt_state r \<noteq> UNLOADED"
    using r bs_finish_recovery(1) inv by (auto elim!: book_inv_ledger simp: rt_ok_def)
  ultimately show ?thesis using bs_finish_recovery finish_recoveryD(3) [OF bs_finish_recovery(3)] by auto
next
  case (bs_unfreeze mids b b' used)
  have "book_inv b" using bm.reaches_inv [OF assms(1)] bs_unfreeze by (simp add: run_inv_def)
  from unfreeze_switch_induct [OF bs_unfreeze(3) this, of "unfrozen b"] unfrozen_step
  have "dget (runtime b') m \<in> {dget (runtime b) m, map_option unfreeze_rt (dget (runtime b) m)}"
    by (auto simp: unfrozen_def)
  with r r' bs_unfreeze(1,2) show ?thesis by auto
next
  case (bs_freeze b mids b' used)
  with r r' freeze_for_switchD(5) [OF bs_freeze(3)] show ?thesis by (auto simp: fold_freeze split: if_splits)
next
  case (bs_begin_recovery b b' ep used)
  with r r' show ?thesis
    by (auto simp: begin_recovery_eq map_of_map fence_rt_def Let_def split: if_splits)
qed (use r r' in \<open>auto simp: loaded_def failed_def rollback_unsent_def begin_cancel_def split: if_splits\<close>)

theorem reservation_freed_only_by_stop_witness:
  "\<exists>b' r'. dget (runtime b') ''a'' = Some r' \<and> rt_reservation r' = 0 \<and> bootstrap_stopped demo_book ''a'' = Inr b'"
proof -
  let ?b' = "upd_rt ''a'' (\<lambda>r. r\<lparr>rt_state := UNLOADED, rt_reservation := 0\<rparr>) demo_book"
  have r: "dget (runtime demo_book) ''a'' = Some (new_runtime 100)" by (simp add: demo_book_def)
  have r': "dget (runtime ?b') ''a'' = Some (new_runtime 100\<lparr>rt_state := UNLOADED, rt_reservation := 0\<rparr>)"
    by (simp add: r)
  from reservation_freed_only_by_stop [OF book_reach_start [OF demo_start] bs_bootstrap [OF demo_steps(2)],
      of "''a''" "new_runtime 100"] r r'
  have "bootstrap_stopped demo_book ''a'' = Inr ?b'" by (simp add: new_runtime_def)
  with r' show ?thesis by fastforce
qed

section \<open>Recovery\<close>

text \<open>
  C35. While the book is recovering nothing gets past the fence: no load, lease, eviction,
  freeze or cleanup starts and no operation token is current.
\<close>

theorem recovery_fences_the_book:
  assumes "reaches book_start book_step s" and "recovering (fst s)" and "m \<in> set (dkeys (runtime (fst s)))"
  shows "begin_load (fst s) uuid m smp now = Inl (Conflict ''load not admissible'')
    \<and> acquire_ready (fst s) uuid m rid now = Inl (Conflict ''model not admissible'')
    \<and> begin_eviction (fst s) fresh mids automatic = Inl (Conflict ''invalid eviction batch'')
    \<and> freeze_for_switch (fst s) mids = Inl (Conflict ''invalid switch freeze'')
    \<and> begin_cleanup (fst s) fresh mids = Inl (Conflict ''invalid cleanup batch'')
    \<and> (\<forall>oper r. operation_rt (fst s) oper \<noteq> Inr r)"
proof -
  have inv: "book_inv (fst s)" using bm.reaches_inv [OF assms(1)] by (simp add: run_inv_def)
  obtain r where r: "dget (runtime (fst s)) m = Some r"
    using assms(3) dget_None_iff [of "runtime (fst s)" m] by auto
  obtain l where l: "dget (ledger (fst s)) m = Some l" by (rule book_inv_ledger [OF inv r])
  have "rt_operation_id q = None" if "dget (runtime (fst s)) m' = Some q" for m' q
    using that inv assms(2) by (auto elim!: book_inv_ledger simp: rt_ok_def)
  then have "\<forall>oper r. operation_rt (fst s) oper \<noteq> Inr r" by (auto simp: operation_rtD)
  moreover have "can_load (fst s) m smp now = Inr False"
    using r l assms(2) by (simp add: can_load_def required_def dlookup_Some)
  ultimately show ?thesis
    using assms(2) r l
    by (simp add: begin_load_def acquire_ready_def begin_eviction_def freeze_for_switch_def begin_cleanup_def
        batch_invalid_def dlookup_Some)
qed

lemma demo_recovering: "reaches book_start book_step (fst (begin_recovery demo_ready), {''op1''})"
  by (rule book_reach_step [OF demo_reach(3) bs_begin_recovery [of demo_ready _ "snd (begin_recovery demo_ready)"]]) simp

lemma demo_recovering_fields:
  "recovering (fst (begin_recovery demo_ready))" "epoch (fst (begin_recovery demo_ready)) = 1"
  "dkeys (runtime (fst (begin_recovery demo_ready))) = [''a'', ''b'']"
  "dkeys (specs (fst (begin_recovery demo_ready))) = [''a'', ''b'']"
  "\<forall>r \<in> set (dvals (runtime (fst (begin_recovery demo_ready)))). rt_leases r = []"
  by (simp_all add: begin_recovery_eq demo_book_defs fence_rt_def)

theorem recovery_fences_the_book_witness:
  "recovering (fst (begin_recovery demo_ready))
   \<and> acquire_ready (fst (begin_recovery demo_ready)) ''L1'' ''a'' ''r1'' 3 = Inl (Conflict ''model not admissible'')"
  using recovery_fences_the_book [OF demo_recovering, of "''a''"] demo_recovering_fields by simp

text \<open>
  A recovery ends exactly when the caller names the current epoch, every registered
  model is confirmed stopped and no lease is left; then every model is UNLOADED and open, both
  ledgers are empty, and the epoch still refuses the tokens of before.
\<close>

theorem finish_recovery_resets:
  assumes "reaches book_start book_step s"
  shows "case finish_recovery (fst s) ep ids of
      Inl e \<Rightarrow> \<not> recovering (fst s) \<or> ep \<noteq> epoch (fst s) \<or> set ids \<noteq> set (dkeys (specs (fst s)))
        \<or> all_leases (fst s) \<noteq> []
    | Inr b' \<Rightarrow> recovering (fst s) \<and> ep = epoch (fst s) \<and> set ids = set (dkeys (specs (fst s)))
        \<and> all_leases (fst s) = [] \<and> \<not> recovering b' \<and> epoch b' = epoch (fst s)
        \<and> committed b' = 0 \<and> physical_committed b' = 0
        \<and> (\<forall>m r. dget (runtime b') m = Some r \<longrightarrow> rt_state r = UNLOADED \<and> \<not> rt_admission_blocked r)"
proof (cases "finish_recovery (fst s) ep ids")
  case (Inl e)
  then have "\<not> recovering (fst s) \<or> ep \<noteq> epoch (fst s) \<or> set ids \<noteq> set (dkeys (specs (fst s)))
      \<or> all_leases (fst s) \<noteq> []"
    by (force simp: finish_recovery_def all_leases_def rbind_eq_Inl_iff)
  with Inl show ?thesis by simp
next
  case (Inr b')
  note f = finish_recoveryD [OF this]
  have "committed b' = 0" by (simp add: f(5) committed_def clear_rt_def comp_def case_prod_beta)
  moreover have "sum_list (map ((\<lambda>(m, r). if rt_reservation r > 0 then g m else 0) \<circ> (\<lambda>(mid, r). (mid, clear_rt r))) d) = 0"
    for g :: "string \<Rightarrow> int" and d
    by (induction d) (auto simp: clear_rt_def)
  then have "physical_committed b' = 0" by (simp add: f(5) physical_committed_def)
  moreover have "all_leases (fst s) = []" using f(4) by (auto simp: all_leases_def)
  ultimately show ?thesis using Inr f by (auto simp: map_of_map clear_rt_def)
qed

theorem finish_recovery_resets_witness:
  "\<exists>b'. finish_recovery (fst (begin_recovery demo_ready)) 1 [''a'', ''b''] = Inr b' \<and> committed b' = 0"
proof -
  obtain b' where b': "finish_recovery (fst (begin_recovery demo_ready)) 1 [''a'', ''b''] = Inr b'"
    unfolding finish_recovery_def using demo_recovering_fields by auto
  with finish_recovery_resets [OF demo_recovering, of 1 "[''a'', ''b'']"] show ?thesis by simp
qed

end
