(* ===== verification/Eviction_Policy.thy ===== *)
theory Eviction_Policy
  imports Book_Properties
begin

text \<open>
  Candidate selection of \<^verbatim>\<open>model_scheduler/eviction_policy.py\<close> over the accounting book.  The
  policy reads the attributes \<^verbatim>\<open>pinned\<close>, \<^verbatim>\<open>evictable\<close> and \<^verbatim>\<open>priority\<close> of the registration
  itself, which a v2 registration does not have.
\<close>

record EvictionCandidate =
  ec_model_id :: string
  ec_reserved_bytes :: int
  ec_heat :: real
  ec_priority :: int
  ec_score :: real

definition policy_init :: "int \<Rightarrow> int result" where
  "policy_init max_evictions =
     rbind (raise_if (max_evictions < 1) (ValueError ''max_evictions must be positive'')) (\<lambda>_. Inr max_evictions)"

fun spec_pinned :: "Registration \<Rightarrow> bool result" where
  "spec_pinned (RegV1 s) = Inr (ms_pinned s)"
| "spec_pinned _ = Inl (AttributeError ''pinned'')"

fun spec_evictable :: "Registration \<Rightarrow> bool result" where
  "spec_evictable (RegV1 s) = Inr (ms_evictable s)"
| "spec_evictable _ = Inl (AttributeError ''evictable'')"

fun spec_priority :: "Registration \<Rightarrow> int result" where
  "spec_priority (RegV1 s) = Inr (ms_priority s)"
| "spec_priority _ = Inl (AttributeError ''priority'')"

text \<open>One iteration of the loop of \<^verbatim>\<open>candidates\<close>: \<open>None\<close> is \<^verbatim>\<open>continue\<close>.\<close>

definition candidate_of :: "Book \<Rightarrow> time \<Rightarrow> bool \<Rightarrow> string \<Rightarrow> Registration \<Rightarrow> EvictionCandidate option result" where
  "candidate_of b now include_busy mid spec =
     rbind (dlookup (runtime b) mid) (\<lambda>r.
     if rt_state r \<noteq> READY \<or> (rt_leases r \<noteq> [] \<and> \<not> include_busy) \<or> rt_admission_blocked r then Inr None
     else rbind (spec_pinned spec) (\<lambda>pinned. if pinned then Inr None
     else rbind (spec_evictable spec) (\<lambda>evictable. if \<not> evictable then Inr None
     else rbind (required b mid) (\<lambda>reserved.
     rbind (heat b mid now) (\<lambda>h.
     rbind (spec_priority spec) (\<lambda>priority.
     Inr (Some \<lparr>ec_model_id = mid, ec_reserved_bytes = reserved, ec_heat = h, ec_priority = priority,
                ec_score = (h + real_of_int priority) / real_of_int reserved\<rparr>)))))))"

fun collect_candidates ::
  "Book \<Rightarrow> time \<Rightarrow> bool \<Rightarrow> (string, Registration) dict \<Rightarrow> EvictionCandidate list result" where
  "collect_candidates b now include_busy [] = Inr []"
| "collect_candidates b now include_busy ((mid, spec) # rest) =
     rbind (candidate_of b now include_busy mid spec) (\<lambda>c.
     rbind (collect_candidates b now include_busy rest) (\<lambda>cs.
     Inr (case c of None \<Rightarrow> cs | Some x \<Rightarrow> x # cs)))"

definition candidate_key :: "EvictionCandidate \<Rightarrow> real \<times> string" where
  "candidate_key c = (ec_score c, ec_model_id c)"

definition candidates :: "Book \<Rightarrow> time \<Rightarrow> bool \<Rightarrow> EvictionCandidate list result" where
  "candidates b now include_busy =
     rbind (collect_candidates b now include_busy (specs b)) (\<lambda>cs. Inr (sort_key candidate_key cs))"

fun choose_loop ::
  "int \<Rightarrow> int \<Rightarrow> EvictionCandidate list \<Rightarrow> int \<Rightarrow> EvictionCandidate list \<Rightarrow> EvictionCandidate list" where
  "choose_loop bytes_needed max_evictions selected released [] = []"
| "choose_loop bytes_needed max_evictions selected released (c # cs) =
     (let selected' = selected @ [c]; released' = released + ec_reserved_bytes c
      in if released' \<ge> bytes_needed then selected'
         else if int (length selected') \<ge> max_evictions then []
         else choose_loop bytes_needed max_evictions selected' released' cs)"

definition policy_choose :: "Book \<Rightarrow> int \<Rightarrow> int \<Rightarrow> time \<Rightarrow> bool \<Rightarrow> EvictionCandidate list result" where
  "policy_choose b max_evictions bytes_needed now include_busy =
     (if bytes_needed \<le> 0 then Inr []
      else rbind (candidates b now include_busy) (\<lambda>cs. Inr (choose_loop bytes_needed max_evictions [] 0 cs)))"

section \<open>Lemmas\<close>

definition freed :: "EvictionCandidate list \<Rightarrow> int" where
  "freed cs = sum_list (map ec_reserved_bytes cs)"

lemma freed_simps [simp]: "freed [] = 0" "freed (c # cs) = ec_reserved_bytes c + freed cs"
  "freed (xs @ ys) = freed xs + freed ys"
  by (simp_all add: freed_def)

text \<open>The loop returns the shortest prefix that frees enough, if one of at most the maximal length does.\<close>

lemma choose_loop_spec:
  fixes sel cs :: "EvictionCandidate list" and need mx :: int
  defines "res \<equiv> choose_loop need mx sel (freed sel) cs"
  assumes "freed sel < need" and "int (length sel) < mx"
  shows "(res \<noteq> [] \<longrightarrow> (\<exists>n. res = sel @ take n cs \<and> 0 < n \<and> n \<le> length cs \<and> int (length sel + n) \<le> mx
            \<and> need \<le> freed res \<and> (\<forall>k < n. freed sel + freed (take k cs) < need)))
       \<and> (res = [] \<longrightarrow> (\<forall>n. int (length sel + n) \<le> mx \<longrightarrow> freed sel + freed (take n cs) < need))"
  using assms(2,3) unfolding res_def
proof (induction cs arbitrary: sel)
  case (Cons c cs)
  let ?sel = "sel @ [c]"
  have split: "(\<forall>n. P n) \<longleftrightarrow> P 0 \<and> (\<forall>n. P (Suc n))" for P :: "nat \<Rightarrow> bool" by (metis not0_implies_Suc)
  consider (enough) "need \<le> freed ?sel" | (full) "freed ?sel < need" "mx \<le> int (length ?sel)"
    | (more) "freed ?sel < need" "int (length ?sel) < mx" by linarith
  then show ?case
  proof cases
    case enough
    with Cons.prems show ?thesis by (auto intro!: exI [of _ 1])
  next
    case full
    have "freed sel + freed (take n (c # cs)) < need" if "int (length sel + n) \<le> mx" for n
    proof -
      from that full(2) have "n = 0 \<or> n = 1" by auto
      then show ?thesis using full(1) Cons.prems(1) by auto
    qed
    with full show ?thesis by (auto simp: Let_def)
  next
    case more
    note ih = Cons.IH [OF more]
    have res: "choose_loop need mx sel (freed sel) (c # cs) = choose_loop need mx ?sel (freed ?sel) cs"
      using more by (simp add: Let_def)
    show ?thesis
    proof (cases "choose_loop need mx ?sel (freed ?sel) cs = []")
      case True
      with ih more Cons.prems show ?thesis unfolding res by (subst (2) split) (auto simp: add.assoc)
    next
      case False
      with ih obtain n where n: "choose_loop need mx ?sel (freed ?sel) cs = ?sel @ take n cs" "0 < n" "n \<le> length cs"
        "int (length ?sel + n) \<le> mx" "need \<le> freed (?sel @ take n cs)"
        "\<forall>k < n. freed ?sel + freed (take k cs) < need" by (metis (no_types, lifting))
      have "\<forall>k < Suc n. freed sel + freed (take k (c # cs)) < need"
        using n(6) Cons.prems(1) by (auto simp: take_Cons' add.assoc)
      with n show ?thesis unfolding res by (intro conjI impI exI [of _ "Suc n"]) auto
    qed
  qed
qed auto

lemma candidate_ofD:
  assumes "candidate_of b now busy mid spec = Inr (Some c)"
  obtains r s l where "spec = RegV1 s" "dget (runtime b) mid = Some r" "dget (ledger b) mid = Some l"
    "rt_state r = READY" "rt_leases r = [] \<or> busy" "\<not> rt_admission_blocked r" "\<not> ms_pinned s" "ms_evictable s"
    "ec_model_id c = mid" "ec_reserved_bytes c = ls_effective_reserved_bytes l"
  using assms by (cases spec) (auto simp: candidate_of_def required_def split: if_splits)

lemma collect_mem:
  "collect_candidates b now busy sps = Inr cs \<Longrightarrow> c \<in> set cs \<Longrightarrow>
     \<exists>mid spec. (mid, spec) \<in> set sps \<and> candidate_of b now busy mid spec = Inr (Some c)"
  by (induction sps arbitrary: cs) (fastforce split: option.splits)+

lemma collect_distinct:
  "collect_candidates b now busy sps = Inr cs \<Longrightarrow> distinct (dkeys sps) \<Longrightarrow> distinct (map ec_model_id cs)"
proof (induction sps arbitrary: cs)
  case (Cons p sps)
  obtain mid spec where p: "p = (mid, spec)" by (cases p)
  with Cons.prems(1) obtain x cs' where x: "candidate_of b now busy mid spec = Inr x"
    and cs': "collect_candidates b now busy sps = Inr cs'" and cs: "cs = (case x of None \<Rightarrow> cs' | Some y \<Rightarrow> y # cs')"
    by auto
  have "distinct (map ec_model_id cs')" using Cons.IH [OF cs'] Cons.prems(2) by simp
  moreover have "ec_model_id c \<in> set (dkeys sps)" if "c \<in> set cs'" for c
    using collect_mem [OF cs' that] by (force elim: candidate_ofD)
  ultimately show ?case using x cs p Cons.prems(2) by (auto elim: candidate_ofD split: option.splits)
qed simp

lemma candidatesD:
  assumes "candidates b now busy = Inr cs"
  shows "sorted (map candidate_key cs)"
    and "\<And>c. c \<in> set cs \<Longrightarrow> \<exists>spec. (ec_model_id c, spec) \<in> set (specs b)
           \<and> candidate_of b now busy (ec_model_id c) spec = Inr (Some c)"
    and "distinct (dkeys (specs b)) \<Longrightarrow> distinct (map ec_model_id cs)"
proof -
  from assms obtain cs0 where cs0: "collect_candidates b now busy (specs b) = Inr cs0" "cs = sort_key candidate_key cs0"
    by (auto simp: candidates_def)
  show "sorted (map candidate_key cs)" by (simp add: cs0(2))
  show "\<exists>spec. (ec_model_id c, spec) \<in> set (specs b) \<and> candidate_of b now busy (ec_model_id c) spec = Inr (Some c)"
    if "c \<in> set cs" for c
    using collect_mem [OF cs0(1), of c] that by (auto simp: cs0(2) elim: candidate_ofD)
  assume "distinct (dkeys (specs b))"
  from collect_distinct [OF cs0(1) this] show "distinct (map ec_model_id cs)"
    by (simp add: cs0(2) distinct_map inj_on_def distinct_sort)
qed

lemma policy_choose_spec:
  assumes "0 < need" and "0 < mx" and "candidates b now busy = Inr cs"
  obtains sel where "policy_choose b mx need now busy = Inr sel"
    "sel \<noteq> [] \<longrightarrow> (\<exists>n. sel = take n cs \<and> 0 < n \<and> int n \<le> mx \<and> need \<le> freed sel
       \<and> (\<forall>k < n. freed (take k cs) < need))"
    "sel = [] \<longrightarrow> (\<forall>n. int n \<le> mx \<longrightarrow> freed (take n cs) < need)"
  using assms choose_loop_spec [of "[]" need mx cs] by (auto simp: policy_choose_def)

lemma choose_prefix:
  assumes "policy_choose b mx need now busy = Inr sel" and "sel \<noteq> []" and "0 < mx"
  obtains cs n where "candidates b now busy = Inr cs" "sel = take n cs" "0 < n" "need \<le> freed sel"
proof -
  from assms(1,2) obtain cs where cs: "candidates b now busy = Inr cs" and need: "0 < need"
    by (auto simp: policy_choose_def split: if_splits)
  from need assms(3) cs obtain sel' where "policy_choose b mx need now busy = Inr sel'"
    "sel' \<noteq> [] \<longrightarrow> (\<exists>n. sel' = take n cs \<and> 0 < n \<and> int n \<le> mx \<and> need \<le> freed sel'
       \<and> (\<forall>k < n. freed (take k cs) < need))"
    by (rule policy_choose_spec)
  with assms(1,2) cs that show thesis by auto
qed

lemma begin_stops_ok: "set mids \<subseteq> set (dkeys (runtime b)) \<Longrightarrow> \<exists>b' ops. begin_stops fresh i mids b = Inr (b', ops)"
proof (induction mids arbitrary: i b)
  case (Cons mid mids)
  then obtain r where "dget (runtime b) mid = Some r" using dget_None_iff [of "runtime b" mid] by auto
  moreover obtain b' ops where "begin_stops fresh (Suc i) mids (upd_rt mid (stop_rt (fresh i)) b) = Inr (b', ops)"
    using Cons.IH [of "upd_rt mid (stop_rt (fresh i)) b" "Suc i"] Cons.prems by auto
  ultimately show ?case unfolding begin_stops_Cons by blast
qed simp

lemma ledger_from_lookup:
  "ledger_from m sps = Inr ls \<Longrightarrow> dget sps mid = Some spec \<Longrightarrow> dget ls mid = Some l \<Longrightarrow> from_registration spec m = Inr l"
  by (induction sps arbitrary: ls) (auto split: if_splits)

lemma candidate_ledger:
  assumes inv: "book_inv b" and "(mid, RegV1 s) \<in> set (specs b)" and "dget (ledger b) mid = Some l"
  shows "ls_pinned l = ms_pinned s" "ls_evictable l = ms_evictable s"
proof -
  have "ledger_from (margin b) (specs b) = Inr (ledger b)" using inv by (simp add: book_inv_def book_static_def)
  moreover have "dget (specs b) mid = Some (RegV1 s)"
    using assms(2) book_inv_keys(4) [OF inv] by (simp add: dget_iff_mem)
  ultimately have "from_registration (RegV1 s) (margin b) = Inr l" using assms(3) by (rule ledger_from_lookup)
  then show "ls_pinned l = ms_pinned s" "ls_evictable l = ms_evictable s" by auto
qed

text \<open>What the checks of the book see of a chosen model.\<close>

lemma chosen_model:
  assumes inv: "book_inv b" and "candidates b now busy = Inr cs" and "c \<in> set cs"
  obtains r l where "dget (runtime b) (ec_model_id c) = Some r" "dget (ledger b) (ec_model_id c) = Some l"
    "rt_state r = READY" "rt_leases r = [] \<or> busy" "\<not> rt_admission_blocked r" "rt_operation_id r = None"
    "\<not> ls_pinned l" "ls_evictable l" "rt_reservation r = ec_reserved_bytes c"
proof -
  from candidatesD(2) [OF assms(2,3)] obtain spec where spec: "(ec_model_id c, spec) \<in> set (specs b)"
    and c: "candidate_of b now busy (ec_model_id c) spec = Inr (Some c)" by blast
  from c obtain r s l where c': "spec = RegV1 s" "dget (runtime b) (ec_model_id c) = Some r"
    "dget (ledger b) (ec_model_id c) = Some l" "rt_state r = READY" "rt_leases r = [] \<or> busy"
    "\<not> rt_admission_blocked r" "\<not> ms_pinned s" "ms_evictable s" "ec_reserved_bytes c = ls_effective_reserved_bytes l"
    by (rule candidate_ofD)
  moreover have "rt_ok (recovering b) l (ec_model_id c) r"
    using book_inv_ledger [OF inv c'(2)] c'(3) by (metis option.inject)
  ultimately show thesis
    using candidate_ledger [OF inv] spec that by (auto simp: rt_ok_def)
qed

text \<open>A book with two ready v1 models.\<close>

definition demo_v1 :: "string \<Rightarrow> int \<Rightarrow> int \<Rightarrow> ModelSpec" where
  "demo_v1 mid res pri = \<lparr>ms_model_id = mid, ms_upstream_url = ''http'', ms_capabilities = [CHAT],
     ms_reserved_bytes = res, ms_priority = pri, ms_max_concurrency = 1, ms_pinned = False, ms_evictable = True,
     ms_preload = False, ms_ttl_seconds = 0\<rparr>"

definition demo_v1_ledger :: "string \<Rightarrow> int \<Rightarrow> int \<Rightarrow> LedgerSpec" where
  "demo_v1_ledger mid res pri = \<lparr>ls_model_id = mid, ls_effective_reserved_bytes = res,
     ls_physical_reserved_bytes = None, ls_max_concurrency = 1, ls_pinned = False, ls_evictable = True,
     ls_preload = False, ls_ttl_seconds = 0, ls_priority = pri\<rparr>"

definition demo_v1_book :: Book where
  "demo_v1_book = \<lparr>model_budget = 150, free_floor = 10, margin = 0,
     specs = [(''a'', RegV1 (demo_v1 ''a'' 100 1)), (''b'', RegV1 (demo_v1 ''b'' 50 2))],
     ledger = [(''a'', demo_v1_ledger ''a'' 100 1), (''b'', demo_v1_ledger ''b'' 50 2)],
     runtime = [(''a'', (new_runtime 100)\<lparr>rt_state := READY\<rparr>), (''b'', (new_runtime 50)\<lparr>rt_state := READY\<rparr>)],
     physical_enforced = False, max_sample_age = 5, half_life = 60, request_weight = 1, token_weight = 0,
     epoch = 0, recovering = False\<rparr>"

lemma demo_v1_inv: "book_inv demo_v1_book" "\<not> recovering demo_v1_book"
proof -
  have "ledger_from 0 [(''a'', RegV1 (demo_v1 ''a'' 100 1)), (''b'', RegV1 (demo_v1 ''b'' 50 2))]
      = Inr [(''a'', demo_v1_ledger ''a'' 100 1), (''b'', demo_v1_ledger ''b'' 50 2)]"
    by (simp add: demo_v1_def demo_v1_ledger_def effective_reserved_bytes_def positive_int_def)
  then have "book_static demo_v1_book"
    by (simp add: demo_v1_book_def book_static_def demo_v1_ledger_def ledger_ok_def)
  moreover have "rt_ok False (demo_v1_ledger mid res pri) mid ((new_runtime res)\<lparr>rt_state := READY\<rparr>)" for mid res pri
    by (simp add: rt_ok_def new_runtime_def demo_v1_ledger_def)
  moreover have "requests_unique demo_v1_book"
    by (auto simp: requests_unique_def lease_at_def demo_v1_book_def new_runtime_def split: if_splits)
  ultimately show "book_inv demo_v1_book" by (auto simp: book_inv_def demo_v1_book_def split: if_splits)
  show "\<not> recovering demo_v1_book" by (simp add: demo_v1_book_def)
qed

definition demo_candidate :: "string \<Rightarrow> int \<Rightarrow> int \<Rightarrow> EvictionCandidate" where
  "demo_candidate mid res pri = \<lparr>ec_model_id = mid, ec_reserved_bytes = res, ec_heat = 0, ec_priority = pri,
     ec_score = real_of_int pri / real_of_int res\<rparr>"

lemma demo_v1_candidates:
  "candidates demo_v1_book 5 False = Inr [demo_candidate ''a'' 100 1, demo_candidate ''b'' 50 2]"
  by (simp add: candidates_def demo_v1_book_def candidate_of_def dlookup_def new_runtime_def required_def heat_def
      rt_heat_def demo_v1_def demo_v1_ledger_def demo_candidate_def candidate_key_def)

lemma demo_v1_choose:
  "policy_choose demo_v1_book 8 120 5 False = Inr [demo_candidate ''a'' 100 1, demo_candidate ''b'' 50 2]"
  by (simp add: policy_choose_def demo_v1_candidates Let_def demo_candidate_def)

text \<open>
  C29. The policy returns the shortest prefix of the candidates, in ascending order of score
  and model id, that frees at least the bytes asked for, and nothing when no prefix of the
  allowed length does.
\<close>

theorem policy_choose_shortest_prefix:
  assumes "0 < need" and "policy_init mx = Inr mx'" and "candidates b now busy = Inr cs"
  shows "sorted (map candidate_key cs) \<and> (\<exists>sel. policy_choose b mx need now busy = Inr sel
    \<and> (sel \<noteq> [] \<longrightarrow> (\<exists>n. sel = take n cs \<and> 0 < n \<and> int n \<le> mx \<and> need \<le> sum_list (map ec_reserved_bytes sel)
         \<and> (\<forall>k < n. sum_list (map ec_reserved_bytes (take k cs)) < need)))
    \<and> (sel = [] \<longrightarrow> (\<forall>n. int n \<le> mx \<longrightarrow> sum_list (map ec_reserved_bytes (take n cs)) < need)))"
proof -
  have "0 < mx" using assms(2) by (auto simp: policy_init_def)
  from policy_choose_spec [OF assms(1) this assms(3)] show ?thesis
    using candidatesD(1) [OF assms(3)] unfolding freed_def by metis
qed

theorem policy_choose_shortest_prefix_witness:
  "policy_choose demo_v1_book 8 120 5 False = Inr [demo_candidate ''a'' 100 1, demo_candidate ''b'' 50 2]
   \<and> sorted (map candidate_key [demo_candidate ''a'' 100 1, demo_candidate ''b'' 50 2])"
  using policy_choose_shortest_prefix [OF _ _ demo_v1_candidates, of 120 8 8] demo_v1_choose
  by (simp add: policy_init_def)

text \<open>
  What the policy chooses the book accepts: an idle choice passes the checks of
  \<^verbatim>\<open>begin_eviction\<close>, any choice passes those of \<^verbatim>\<open>freeze_for_switch\<close>, and the reservations of the
  chosen models add up to at least the bytes asked for.
\<close>

theorem chosen_models_accepted:
  assumes inv: "book_inv b" and "\<not> recovering b" and "0 < mx"
    and "policy_choose b mx need now busy = Inr sel" and "sel \<noteq> []"
  shows "(\<not> busy \<longrightarrow> (\<exists>b' ops. begin_eviction b fresh (map ec_model_id sel) True = Inr (b', ops)))
    \<and> (\<exists>b'. freeze_for_switch b (map ec_model_id sel) = Inr b')
    \<and> need \<le> sum_list (map (reserved b) (map ec_model_id sel))"
proof -
  from assms(4,5,3) obtain cs n where cs: "candidates b now busy = Inr cs" and sel: "sel = take n cs" "0 < n"
    and need: "need \<le> freed sel" by (rule choose_prefix)
  have in_cs: "c \<in> set cs" if "c \<in> set sel" for c using that by (auto simp: sel dest: in_set_takeD)
  have "distinct (map ec_model_id cs)" by (rule candidatesD(3) [OF cs book_inv_keys(4) [OF inv]])
  then have "distinct (map ec_model_id sel)" unfolding sel take_map [symmetric] by (rule distinct_take)
  then have batch: "\<not> batch_invalid b (map ec_model_id sel)" using assms(2,5) by (simp add: batch_invalid_def)
  have checks: "freeze_check b (ec_model_id c) = Inr () \<and> (\<not> busy \<longrightarrow> eviction_check b True (ec_model_id c) = Inr ())
      \<and> ec_model_id c \<in> set (dkeys (runtime b)) \<and> reserved b (ec_model_id c) = ec_reserved_bytes c"
    if "c \<in> set sel" for c
    by (rule chosen_model [OF inv cs in_cs [OF that]])
      (auto simp: freeze_check_def eviction_check_def dlookup_Some reserved_def truthy_iff dest: dget_key)
  then have "check_all (freeze_check b) (map ec_model_id sel) = Inr ()"
    and "\<not> busy \<Longrightarrow> check_all (eviction_check b True) (map ec_model_id sel) = Inr ()"
    and keys: "set (map ec_model_id sel) \<subseteq> set (dkeys (runtime b))"
    and sum: "map (reserved b) (map ec_model_id sel) = map ec_reserved_bytes sel"
    by (auto simp: check_all_Inr)
  then show ?thesis
    using batch begin_stops_ok [OF keys] need unfolding sum freed_def [symmetric]
    by (simp add: begin_eviction_def freeze_for_switch_def)
qed

theorem chosen_models_accepted_witness:
  "(\<exists>b' ops. begin_eviction demo_v1_book (\<lambda>_. ''op'') [''a'', ''b''] True = Inr (b', ops))
   \<and> (120::int) \<le> sum_list (map (reserved demo_v1_book) [''a'', ''b''])"
  using chosen_models_accepted [OF demo_v1_inv _ demo_v1_choose] by (simp add: demo_candidate_def)

text \<open>
  The policy cannot serve v2 registrations: as soon as a registered v2 model is READY,
  idle and open, \<^verbatim>\<open>candidates\<close> raises instead of returning a list.
\<close>

theorem candidates_raise_on_v2:
  assumes "book_inv b" and "(mid, RegV2 s) \<in> set (specs b)" and "dget (runtime b) mid = Some r"
    and "rt_state r = READY" and "rt_leases r = []" and "\<not> rt_admission_blocked r"
  shows "\<exists>e. candidates b now busy = Inl e"
proof -
  have "candidate_of b now busy mid (RegV2 s) = Inl (AttributeError ''pinned'')"
    using assms(3-6) by (simp add: candidate_of_def dlookup_Some)
  then have "\<exists>e. collect_candidates b now busy sps = Inl e" if "(mid, RegV2 s) \<in> set sps" for sps
    using that
  proof (induction sps)
    case (Cons p sps)
    then show ?case by (cases p; cases "candidate_of b now busy (fst p) (snd p)") auto
  qed simp
  with assms(2) show ?thesis by (fastforce simp: candidates_def)
qed

theorem candidates_raise_on_v2_witness:
  "\<exists>e. candidates demo_ready 5 False = Inl e"
proof -
  have "book_inv demo_ready" using bm.reaches_inv [OF demo_reach(3)] by (simp add: run_inv_def)
  moreover have "(''a'', RegV2 (demo_spec ''a'' 100 80)) \<in> set (specs demo_ready)"
    by (simp add: demo_ready_def demo_loading_def demo_off_def demo_book_def)
  ultimately show ?thesis
    by (rule candidates_raise_on_v2 [OF _ _ demo_ready_a(1)]) (simp_all add: new_runtime_def)
qed

end
