(* ===== verification/Request_Queue.thy ===== *)
theory Request_Queue
  imports Prelude
begin

text \<open>
  The bounded, aged waiter queue of \<^verbatim>\<open>model_scheduler/request_queue.py\<close>.  Waiters
  are kept in a dictionary in insertion order; the order of service is decided when
  the head is asked for, by the aged priority and then by the arrival sequence.
\<close>

section \<open>Data\<close>

datatype WaitState = WAITING | GRANTED | CLAIMED | CANCELLED | EXPIRED

datatype WaitKind = INTERACTIVE | SESSION

record QueuedRequest =
  q_request_id :: string
  q_model_id :: string
  q_priority :: int
  q_enqueued_at :: time
  q_deadline :: time
  q_sequence :: int
  q_state :: WaitState
  q_kind :: WaitKind

record RequestQueue =
  capacity :: int
  aging_seconds :: time
  q_items :: "(string, QueuedRequest) dict"
  q_next :: int

definition queue_init :: "int \<Rightarrow> time \<Rightarrow> RequestQueue result" where
  "queue_init cap aging =
     (if cap < 1 \<or> aging \<le> 0 then Inl (ValueError ''invalid queue policy'')
      else Inr \<lparr>capacity = cap, aging_seconds = aging, q_items = [], q_next = 0\<rparr>)"

section \<open>Operations\<close>

text \<open>
  \<open>expire\<close> deletes the due waiters one by one and returns them with their final
  state; the other operations that end a wait return the waiter in the same way.
\<close>

definition queue_due :: "time \<Rightarrow> RequestQueue \<Rightarrow> QueuedRequest list" where
  "queue_due now q = filter (\<lambda>item. now \<ge> q_deadline item) (dvals (q_items q))"

definition expire :: "time \<Rightarrow> RequestQueue \<Rightarrow> RequestQueue \<times> QueuedRequest list" where
  "expire now q =
     (let expired = queue_due now q
      in (q\<lparr>q_items := fold (\<lambda>item items. ddel (q_request_id item) items) expired (q_items q)\<rparr>,
          map (\<lambda>item. item\<lparr>q_state := EXPIRED\<rparr>) expired))"

text \<open>
  \<open>enqueue\<close> expires first, also when it then refuses the waiter, so the queue is
  returned in both cases.
\<close>

definition enqueue ::
  "string \<Rightarrow> string \<Rightarrow> int \<Rightarrow> time \<Rightarrow> time \<Rightarrow> WaitKind \<Rightarrow> RequestQueue
     \<Rightarrow> RequestQueue \<times> QueuedRequest result" where
  "enqueue request_id model_id priority deadline now kind q0 =
     (let q = fst (expire now q0)
      in if request_id \<in> set (dkeys (q_items q)) then (q, Inl (ValueError ''duplicate waiter''))
         else if int (length (q_items q)) \<ge> capacity q then (q, Inl (OverflowError ''queue full''))
         else let item = \<lparr>q_request_id = request_id, q_model_id = model_id, q_priority = priority,
                          q_enqueued_at = now, q_deadline = deadline, q_sequence = q_next q + 1,
                          q_state = WAITING, q_kind = kind\<rparr>
              in (q\<lparr>q_next := q_next q + 1, q_items := dput request_id item (q_items q)\<rparr>, Inr item))"

definition requeue :: "QueuedRequest \<Rightarrow> RequestQueue \<Rightarrow> (RequestQueue \<times> QueuedRequest) result" where
  "requeue item q =
     (if q_request_id item \<in> set (dkeys (q_items q)) then Inl (ValueError ''duplicate waiter'')
      else if int (length (q_items q)) \<ge> capacity q then Inl (OverflowError ''queue full'')
      else let item' = item\<lparr>q_state := WAITING\<rparr>
           in Inr (q\<lparr>q_items := dput (q_request_id item) item' (q_items q)\<rparr>, item'))"

definition queue_get :: "string \<Rightarrow> RequestQueue \<Rightarrow> QueuedRequest option" where
  "queue_get request_id q = dget (q_items q) request_id"

definition queue_remove :: "string \<Rightarrow> WaitState \<Rightarrow> RequestQueue \<Rightarrow> RequestQueue \<times> QueuedRequest option" where
  "queue_remove request_id state q =
     (case dget (q_items q) request_id of
        None \<Rightarrow> (q, None)
      | Some item \<Rightarrow> (q\<lparr>q_items := ddel request_id (q_items q)\<rparr>, Some (item\<lparr>q_state := state\<rparr>)))"

text \<open>The aged priority: one extra point for each full aging period waited.\<close>

definition queue_priority :: "RequestQueue \<Rightarrow> QueuedRequest \<Rightarrow> time \<Rightarrow> int" where
  "queue_priority q item now =
     q_priority item + \<lfloor>max 0 (now - q_enqueued_at item) / aging_seconds q\<rfloor>"

definition service_key :: "RequestQueue \<Rightarrow> time \<Rightarrow> QueuedRequest \<Rightarrow> int \<times> int" where
  "service_key q now item = (- queue_priority q item now, q_sequence item)"

text \<open>
  The candidates of a head query: not due, of the asked kind, eligible.  \<open>head\<close>
  mutates the queue (it expires) and picks the first candidate of least key.
\<close>

definition queue_candidates ::
  "(QueuedRequest \<Rightarrow> bool) option \<Rightarrow> WaitKind option \<Rightarrow> RequestQueue \<Rightarrow> QueuedRequest list" where
  "queue_candidates eligible kind q =
     filter (\<lambda>item. (case kind of None \<Rightarrow> True | Some k \<Rightarrow> q_kind item = k)
                  \<and> (case eligible of None \<Rightarrow> True | Some p \<Rightarrow> p item)) (dvals (q_items q))"

definition queue_head ::
  "time \<Rightarrow> (QueuedRequest \<Rightarrow> bool) option \<Rightarrow> WaitKind option \<Rightarrow> RequestQueue
     \<Rightarrow> RequestQueue \<times> QueuedRequest option" where
  "queue_head now eligible kind q0 =
     (let q = fst (expire now q0); items = queue_candidates eligible kind q
      in (q, if items = [] then None else Some (arg_min_list (service_key q now) items)))"

definition is_head ::
  "string \<Rightarrow> time \<Rightarrow> (QueuedRequest \<Rightarrow> bool) option \<Rightarrow> WaitKind option \<Rightarrow> RequestQueue
     \<Rightarrow> RequestQueue \<times> bool" where
  "is_head request_id now eligible kind q =
     (case queue_head now eligible kind q of
        (q', None) \<Rightarrow> (q', False)
      | (q', Some item) \<Rightarrow> (q', q_request_id item = request_id))"

definition queue_contains :: "string \<Rightarrow> RequestQueue \<Rightarrow> bool" where
  "queue_contains request_id q \<longleftrightarrow> request_id \<in> set (dkeys (q_items q))"

definition waiting_models :: "RequestQueue \<Rightarrow> string set" where
  "waiting_models q = set (map q_model_id (dvals (q_items q)))"

definition waiting_count :: "string \<Rightarrow> RequestQueue \<Rightarrow> int" where
  "waiting_count model_id q = int (length (filter (\<lambda>item. q_model_id item = model_id) (dvals (q_items q))))"

definition queue_clear :: "WaitState \<Rightarrow> RequestQueue \<Rightarrow> RequestQueue \<times> QueuedRequest list" where
  "queue_clear state q =
     (q\<lparr>q_items := []\<rparr>, map (\<lambda>item. item\<lparr>q_state := state\<rparr>) (dvals (q_items q)))"

definition queue_size :: "RequestQueue \<Rightarrow> int" where
  "queue_size q = int (length (q_items q))"

section \<open>Well-formed queues\<close>

text \<open>
  Keys are the waiters' own ids, everybody in the queue is still \<open>WAITING\<close>, arrival
  sequences are distinct and were handed out by this queue, and the capacity holds.
\<close>

definition queue_wf :: "RequestQueue \<Rightarrow> bool" where
  "queue_wf q \<longleftrightarrow>
     1 \<le> capacity q \<and> 0 < aging_seconds q \<and> 0 \<le> q_next q
     \<and> distinct (dkeys (q_items q))
     \<and> (\<forall>(k, item) \<in> set (q_items q). q_request_id item = k \<and> q_state item = WAITING
           \<and> 0 < q_sequence item \<and> q_sequence item \<le> q_next q)
     \<and> distinct (map q_sequence (dvals (q_items q)))
     \<and> int (length (q_items q)) \<le> capacity q"

lemma queue_wfD:
  assumes "queue_wf q"
  shows "1 \<le> capacity q" "0 < aging_seconds q" "distinct (dkeys (q_items q))"
    "distinct (map q_sequence (dvals (q_items q)))" "int (length (q_items q)) \<le> capacity q"
    "(k, item) \<in> set (q_items q) \<Longrightarrow> q_request_id item = k \<and> q_state item = WAITING
       \<and> 0 < q_sequence item \<and> q_sequence item \<le> q_next q"
  using assms by (auto simp: queue_wf_def)

lemma queue_wf_item:
  assumes "queue_wf q" and "dget (q_items q) k = Some item"
  shows "q_request_id item = k" "q_state item = WAITING" "q_sequence item \<le> q_next q"
  using queue_wfD(6) [OF assms(1) dget_in_set [OF assms(2)]] by auto

text \<open>Dropping waiters keeps a queue well formed.\<close>

lemma queue_wf_filter:
  assumes "queue_wf q"
  shows "queue_wf (q\<lparr>q_items := filter P (q_items q)\<rparr>)"
proof -
  have len: "int (length (filter P (q_items q))) \<le> int (length (q_items q))"
    by simp
  have "distinct (map q_sequence (dvals (filter P (q_items q))))"
    using queue_wfD(4) [OF assms] by (simp add: distinct_map_filter)
  moreover have "int (length (filter P (q_items q))) \<le> capacity q"
    using len queue_wfD(5) [OF assms] by linarith
  ultimately show ?thesis
    using assms by (auto simp: queue_wf_def distinct_map_filter)
qed

lemma fold_ddel:
  "fold (\<lambda>x d. ddel (f x) d) xs d = filter (\<lambda>p. fst p \<notin> f ` set xs) d"
proof (induction xs arbitrary: d)
  case Nil
  then show ?case by simp
next
  case (Cons x xs)
  have "ddel (f x) d = filter (\<lambda>p. fst p \<noteq> f x) d"
    by (induction d) auto
  with Cons show ?case by simp
qed

lemma expire_items:
  assumes "queue_wf q"
  shows "q_items (fst (expire now q)) = filter (\<lambda>p. now < q_deadline (snd p)) (q_items q)"
proof -
  have "fst p \<in> q_request_id ` set (queue_due now q) \<longleftrightarrow> now \<ge> q_deadline (snd p)"
    if p: "p \<in> set (q_items q)" for p
  proof
    assume "fst p \<in> q_request_id ` set (queue_due now q)"
    then obtain p' where p': "p' \<in> set (q_items q)" "q_deadline (snd p') \<le> now"
      and eq: "fst p = q_request_id (snd p')" by (auto simp: queue_due_def)
    then have "fst p' = fst p" using queue_wfD(6) [OF assms, of "fst p'" "snd p'"] by simp
    with p p'(1) have "p' = p"
      using queue_wfD(3) [OF assms] by (metis eq_key_imp_eq_value prod.collapse)
    with p' show "now \<ge> q_deadline (snd p)" by simp
  next
    assume "now \<ge> q_deadline (snd p)"
    with p have "snd p \<in> set (queue_due now q)" by (auto simp: queue_due_def)
    moreover have "fst p = q_request_id (snd p)"
      using queue_wfD(6) [OF assms, of "fst p" "snd p"] p by simp
    ultimately show "fst p \<in> q_request_id ` set (queue_due now q)" by simp
  qed
  then have "filter (\<lambda>p. fst p \<notin> q_request_id ` set (queue_due now q)) (q_items q)
      = filter (\<lambda>p. now < q_deadline (snd p)) (q_items q)"
    by (intro filter_cong refl) (metis not_le)
  then show ?thesis by (simp add: expire_def Let_def fold_ddel)
qed

lemma expire_fields [simp]:
  "capacity (fst (expire now q)) = capacity q"
  "aging_seconds (fst (expire now q)) = aging_seconds q"
  "q_next (fst (expire now q)) = q_next q"
  by (simp_all add: expire_def Let_def)

lemma expire_eq:
  assumes "queue_wf q"
  shows "fst (expire now q) = q\<lparr>q_items := filter (\<lambda>p. now < q_deadline (snd p)) (q_items q)\<rparr>"
  using expire_items [OF assms, of now] by (simp add: expire_def Let_def)

lemma queue_wf_expire [intro]: "queue_wf q \<Longrightarrow> queue_wf (fst (expire now q))"
  by (simp add: expire_eq queue_wf_filter)

lemma dget_filter_snd:
  assumes "distinct (dkeys d)"
  shows "dget (filter (\<lambda>p. P (snd p)) d) k
       = (case dget d k of None \<Rightarrow> None | Some v \<Rightarrow> if P v then Some v else None)"
  using assms
proof (induction d)
  case Nil
  then show ?case by simp
next
  case (Cons p d)
  then have "dget d (fst p) = None" by (simp add: dget_None_iff)
  with Cons show ?case by (cases p) (auto split: option.splits)
qed

lemma expire_look:
  assumes "queue_wf q"
  shows "dget (q_items (fst (expire now q))) k
       = (case dget (q_items q) k of None \<Rightarrow> None
          | Some item \<Rightarrow> if now < q_deadline item then Some item else None)"
  using dget_filter_snd [OF queue_wfD(3) [OF assms], of "\<lambda>item. now < q_deadline item"]
  by (simp add: expire_items [OF assms])

section \<open>Every operation keeps the queue well formed\<close>

lemma queue_wf_init: "queue_init cap aging = Inr q \<Longrightarrow> queue_wf q"
  by (auto simp: queue_init_def queue_wf_def split: if_splits)

text \<open>Admitting a waiter with an unused id and an unused sequence.\<close>

lemma queue_wf_admit:
  assumes wf: "queue_wf q" and new: "q_request_id item \<notin> set (dkeys (q_items q))"
    and room: "int (length (q_items q)) < capacity q" and st: "q_state item = WAITING"
    and seq: "0 < q_sequence item" "q_sequence item \<notin> q_sequence ` set (dvals (q_items q))"
    and nx: "q_next q \<le> n" "q_sequence item \<le> n"
  shows "queue_wf (q\<lparr>q_next := n, q_items := dput (q_request_id item) item (q_items q)\<rparr>)"
  using wf new room st seq nx unfolding queue_wf_def
  by (auto simp: dput_new)

lemma enqueue_cases:
  assumes "enqueue rid mid p d now k q0 = (q, r)"
  obtains (refused) e where "r = Inl e" "q = fst (expire now q0)"
      "rid \<in> set (dkeys (q_items q)) \<or> capacity q \<le> int (length (q_items q))"
  | (admitted) item q1 where "r = Inr item" "q1 = fst (expire now q0)"
      "rid \<notin> set (dkeys (q_items q1))" "int (length (q_items q1)) < capacity q1"
      "item = \<lparr>q_request_id = rid, q_model_id = mid, q_priority = p, q_enqueued_at = now,
               q_deadline = d, q_sequence = q_next q1 + 1, q_state = WAITING, q_kind = k\<rparr>"
      "q = q1\<lparr>q_next := q_next q1 + 1, q_items := dput rid item (q_items q1)\<rparr>"
  using assms by (auto simp: enqueue_def Let_def split: if_splits)

lemma queue_wf_enqueue:
  assumes "queue_wf q0" and "enqueue rid mid p d now k q0 = (q, r)"
  shows "queue_wf q"
proof -
  have wf: "queue_wf (fst (expire now q0))" using assms(1) by (rule queue_wf_expire)
  from assms(2) show ?thesis
  proof (cases rule: enqueue_cases)
    case refused
    with wf show ?thesis by simp
  next
    case (admitted item q1)
    have wf1: "queue_wf q1" using wf admitted(2) by simp
    have seqs: "x \<in> set (dvals (q_items q1)) \<Longrightarrow> q_sequence x \<le> q_next q1 \<and> 0 < q_sequence x" for x
      using queue_wfD(6) [OF wf1] by auto
    moreover have "0 \<le> q_next q1" using wf1 by (simp add: queue_wf_def)
    ultimately show ?thesis
      using queue_wf_admit [OF wf1, of item "q_next q1 + 1"] admitted by fastforce
  qed
qed

lemma queue_wf_remove: "queue_wf q \<Longrightarrow> queue_wf (fst (queue_remove rid st q))"
  using queue_wf_filter [of q "\<lambda>(k', _). rid \<noteq> k'"]
  by (auto simp: queue_remove_def AList.delete_eq split: option.splits)

lemma queue_wf_clear: "queue_wf q \<Longrightarrow> queue_wf (fst (queue_clear st q))"
  by (auto simp: queue_clear_def queue_wf_def)

lemma fst_queue_head [simp]: "fst (queue_head now el k q) = fst (expire now q)"
  by (simp add: queue_head_def Let_def)

lemma fst_is_head [simp]: "fst (is_head rid now el k q) = fst (expire now q)"
  by (simp add: is_head_def queue_head_def Let_def)

text \<open>A waiter that once left this queue keeps its sequence when it comes back.\<close>

lemma queue_wf_requeue:
  assumes wf: "queue_wf q" and seq: "0 < q_sequence item" "q_sequence item \<le> q_next q"
    and unused: "q_sequence item \<notin> q_sequence ` set (dvals (q_items q))"
    and r: "requeue item q = Inr (q', item')"
  shows "queue_wf q'"
proof -
  from r have new: "q_request_id item \<notin> set (dkeys (q_items q))"
    and room: "int (length (q_items q)) < capacity q"
    and q': "q' = q\<lparr>q_items := dput (q_request_id item) (item\<lparr>q_state := WAITING\<rparr>) (q_items q)\<rparr>"
    by (auto simp: requeue_def Let_def split: if_splits)
  have "queue_wf (q\<lparr>q_next := q_next q,
      q_items := dput (q_request_id (item\<lparr>q_state := WAITING\<rparr>)) (item\<lparr>q_state := WAITING\<rparr>) (q_items q)\<rparr>)"
    using new room seq unused by (intro queue_wf_admit [OF wf]) auto
  then show ?thesis by (simp add: q')
qed

text \<open>The queue as a machine: each rule is one call of its owner.\<close>

inductive queue_step :: "RequestQueue \<Rightarrow> RequestQueue \<Rightarrow> bool" where
  step_enqueue: "enqueue rid mid p d now k q = (q', r) \<Longrightarrow> queue_step q q'"
| step_remove: "queue_step q (fst (queue_remove rid st q))"
| step_expire: "queue_step q (fst (expire now q))"
| step_head: "queue_step q (fst (queue_head now el k q))"
| step_clear: "queue_step q (fst (queue_clear st q))"
| step_requeue: "requeue item q = Inr (q', item') \<Longrightarrow> 0 < q_sequence item \<Longrightarrow> q_sequence item \<le> q_next q
    \<Longrightarrow> q_sequence item \<notin> q_sequence ` set (dvals (q_items q)) \<Longrightarrow> queue_step q q'"

definition queue_start :: "RequestQueue \<Rightarrow> bool" where
  "queue_start q \<longleftrightarrow> (\<exists>cap aging. queue_init cap aging = Inr q)"

lemma queue_wf_step: "queue_step q q' \<Longrightarrow> queue_wf q \<Longrightarrow> queue_wf q'"
  by (induction rule: queue_step.induct)
    (auto intro: queue_wf_enqueue queue_wf_remove queue_wf_clear queue_wf_requeue)

interpretation qm: machine queue_start queue_step queue_wf
  by unfold_locales (auto simp: queue_start_def intro: queue_wf_init queue_wf_step)

section \<open>Order of service\<close>

lemma expire_vals:
  assumes "queue_wf q"
  shows "set (dvals (q_items (fst (expire now q)))) = {x \<in> set (dvals (q_items q)). now < q_deadline x}"
  by (auto simp: expire_items [OF assms])

lemma queue_head_SomeD:
  assumes "queue_wf q" and "queue_head now el k q = (q', Some item)"
  shows "item \<in> set (queue_candidates el k (fst (expire now q)))"
    and "x \<in> set (queue_candidates el k (fst (expire now q)))
      \<Longrightarrow> service_key q now item \<le> service_key q now x"
proof -
  let ?q = "fst (expire now q)"
  let ?xs = "queue_candidates el k ?q"
  from assms(2) have ne: "?xs \<noteq> []" and it: "item = arg_min_list (service_key ?q now) ?xs"
    by (auto simp: queue_head_def Let_def split: if_splits)
  have key: "service_key ?q now = service_key q now"
    by (auto simp: service_key_def queue_priority_def)
  show "item \<in> set ?xs" using ne it by (simp add: arg_min_list_in)
  have "service_key ?q now item = Min (service_key ?q now ` set ?xs)"
    using ne it by (simp add: f_arg_min_list_f)
  then show "x \<in> set ?xs \<Longrightarrow> service_key q now item \<le> service_key q now x"
    by (simp add: key)
qed

lemma service_key_less:
  assumes "queue_wf q" and "x \<in> set (dvals (q_items q))" and "y \<in> set (dvals (q_items q))" and "x \<noteq> y"
    and "service_key q now x \<le> service_key q now y"
  shows "queue_priority q y now < queue_priority q x now
    \<or> queue_priority q y now = queue_priority q x now \<and> q_sequence x < q_sequence y"
proof -
  have "q_sequence x \<noteq> q_sequence y"
    using queue_wfD(4) [OF assms(1)] assms(2-4) by (metis distinct_map inj_onD)
  with assms(5) show ?thesis by (auto simp: service_key_def)
qed

text \<open>
  A waiter that arrived first is served before a later one unless the later one has
  the higher base priority and arrived within one aging period per point of the
  difference.
\<close>

lemma aged_priority_dominates:
  assumes A: "0 < aging_seconds q" and le: "q_enqueued_at a \<le> q_enqueued_at b" "q_enqueued_at b \<le> now"
    and gap: "aging_seconds q * real_of_int (q_priority b - q_priority a) \<le> q_enqueued_at b - q_enqueued_at a"
  shows "queue_priority q b now \<le> queue_priority q a now"
proof -
  let ?A = "aging_seconds q"
  let ?d = "q_priority b - q_priority a"
  have "real_of_int ?d \<le> (q_enqueued_at b - q_enqueued_at a) / ?A"
    using gap A by (simp add: pos_le_divide_eq mult.commute)
  then have "(now - q_enqueued_at b) / ?A + real_of_int ?d \<le> (now - q_enqueued_at a) / ?A"
    by (simp add: diff_divide_distrib)
  then have "\<lfloor>(now - q_enqueued_at b) / ?A\<rfloor> + ?d \<le> \<lfloor>(now - q_enqueued_at a) / ?A\<rfloor>"
    by (metis floor_add_int floor_mono)
  with le show ?thesis by (simp add: queue_priority_def)
qed

section \<open>The interface the scheduler and the sessions use\<close>

text \<open>
  What a client of a waiter queue may rely on, with the queue seen as a partial map
  from request ids to waiters.
\<close>

locale waiter_queue =
  fixes wf :: "'q \<Rightarrow> bool"
    and look :: "'q \<Rightarrow> string \<Rightarrow> QueuedRequest option"
    and enq :: "string \<Rightarrow> string \<Rightarrow> int \<Rightarrow> time \<Rightarrow> time \<Rightarrow> WaitKind \<Rightarrow> 'q \<Rightarrow> 'q \<times> QueuedRequest result"
    and rem :: "string \<Rightarrow> WaitState \<Rightarrow> 'q \<Rightarrow> 'q \<times> QueuedRequest option"
    and drop_due :: "time \<Rightarrow> 'q \<Rightarrow> 'q"
  assumes wf_enq: "wf q \<Longrightarrow> wf (fst (enq rid mid p d now k q))"
    and wf_rem: "wf q \<Longrightarrow> wf (fst (rem rid st q))"
    and look_due: "wf q \<Longrightarrow> look (drop_due now q) rid
        = (case look q rid of None \<Rightarrow> None | Some it \<Rightarrow> if now < q_deadline it then Some it else None)"
    and enq_ok: "wf q \<Longrightarrow> enq rid mid p d now k q = (q', Inr it) \<Longrightarrow>
        look (drop_due now q) rid = None \<and> look q' = (look (drop_due now q))(rid \<mapsto> it)
        \<and> q_request_id it = rid \<and> q_model_id it = mid \<and> q_deadline it = d \<and> q_kind it = k"
    and enq_refused: "wf q \<Longrightarrow> enq rid mid p d now k q = (q', Inl e) \<Longrightarrow> q' = drop_due now q"
    and enq_dup: "wf q \<Longrightarrow> look (drop_due now q) rid \<noteq> None
        \<Longrightarrow> snd (enq rid mid p d now k q) = Inl (ValueError ''duplicate waiter'')"
    and look_rem: "wf q \<Longrightarrow> look (fst (rem rid st q)) = (look q)(rid := None)"
begin

text \<open>An admitted waiter is found under its id, and leaves no trace once removed.\<close>

lemma enq_rem_roundtrip:
  assumes "wf q" and "enq rid mid p d now k q = (q', Inr it)"
  shows "look q' rid = Some it" and "look (fst (rem rid st q')) = look (drop_due now q)"
proof -
  have "wf q'" using wf_enq [OF assms(1), of rid mid p d now k] assms(2) by simp
  with enq_ok [OF assms] show "look q' rid = Some it"
    and "look (fst (rem rid st q')) = look (drop_due now q)"
    by (auto simp: look_rem)
qed

text \<open>One id never waits twice.\<close>

lemma enq_twice:
  assumes "wf q" and "enq rid mid p d now k q = (q', Inr it)" and "now' < d"
  shows "snd (enq rid mid' p' d' now' k' q') = Inl (ValueError ''duplicate waiter'')"
proof -
  have wf': "wf q'" using wf_enq [OF assms(1), of rid mid p d now k] assms(2) by simp
  have "look (drop_due now' q') rid = Some it"
    using enq_ok [OF assms(1,2)] assms(3) by (simp add: look_due [OF wf'])
  then show ?thesis by (simp add: enq_dup [OF wf'])
qed

end

interpretation rq: waiter_queue queue_wf "\<lambda>q. dget (q_items q)" enqueue queue_remove "\<lambda>now q. fst (expire now q)"
proof
  show "queue_wf q \<Longrightarrow> queue_wf (fst (enqueue rid mid p d now k q))" for q rid mid p d now k
    by (metis prod.collapse queue_wf_enqueue)
  show "queue_wf q \<Longrightarrow> queue_wf (fst (queue_remove rid st q))" for q rid st
    by (rule queue_wf_remove)
  show "queue_wf q \<Longrightarrow> dget (q_items (fst (expire now q))) rid = (case dget (q_items q) rid of None \<Rightarrow> None
      | Some it \<Rightarrow> if now < q_deadline it then Some it else None)" for q now rid
    by (rule expire_look)
  show "dget (q_items (fst (expire now q))) rid = None
      \<and> dget (q_items q') = (dget (q_items (fst (expire now q))))(rid \<mapsto> it)
      \<and> q_request_id it = rid \<and> q_model_id it = mid \<and> q_deadline it = d \<and> q_kind it = k"
    if "enqueue rid mid p d now k q = (q', Inr it)" for rid mid p d now k q q' it
    using that by (cases rule: enqueue_cases) (auto simp: dget_None_iff update_conv')
  show "q' = fst (expire now q)" if "enqueue rid mid p d now k q = (q', Inl e)" for rid mid p d now k q q' e
    using that by (cases rule: enqueue_cases) auto
  show "snd (enqueue rid mid p d now k q) = Inl (ValueError ''duplicate waiter'')"
    if "dget (q_items (fst (expire now q))) rid \<noteq> None" for rid mid p d now k q
    using that by (simp add: enqueue_def Let_def dget_None_iff)
  show "dget (q_items (fst (queue_remove rid st q))) = (dget (q_items q))(rid := None)" for rid st q
    by (auto simp: queue_remove_def fun_eq_iff split: option.splits)
qed

section \<open>Properties\<close>

text \<open>
  In each state the queue can reach by its own operations, ids and arrival
  sequences are unique, all entries are still waiting, and the capacity holds.
\<close>

theorem queue_reachable_wf:
  assumes "reaches queue_start queue_step q"
  shows "queue_wf q"
  using assms by (rule qm.reaches_inv)

definition demo_waiter :: "string \<Rightarrow> int \<Rightarrow> time \<Rightarrow> int \<Rightarrow> QueuedRequest" where
  "demo_waiter rid p t n = \<lparr>q_request_id = rid, q_model_id = ''chat'', q_priority = p, q_enqueued_at = t,
     q_deadline = t + 100, q_sequence = n, q_state = WAITING, q_kind = INTERACTIVE\<rparr>"

definition demo_queue :: RequestQueue where
  "demo_queue = \<lparr>capacity = 4, aging_seconds = 30,
     q_items = [(''a'', demo_waiter ''a'' 0 0 1), (''b'', demo_waiter ''b'' 1 40 2)], q_next = 2\<rparr>"

lemmas demo_queue_defs = demo_queue_def demo_waiter_def

lemma demo_queue_reachable: "reaches queue_start queue_step demo_queue"
proof -
  let ?e = "\<lparr>capacity = 4, aging_seconds = 30, q_items = [], q_next = 0\<rparr> :: RequestQueue"
  let ?a = "?e\<lparr>q_items := [(''a'', demo_waiter ''a'' 0 0 1)], q_next := 1\<rparr>"
  have "queue_start ?e" unfolding queue_start_def
    by (rule exI [of _ 4], rule exI [of _ 30]) (simp add: queue_init_def)
  moreover have "queue_step ?e ?a"
    by (rule step_enqueue [of "''a''" "''chat''" 0 100 0 INTERACTIVE _ _ "Inr (demo_waiter ''a'' 0 0 1)"])
      (simp add: Let_def enqueue_def expire_def queue_due_def demo_waiter_def)
  moreover have "queue_step ?a demo_queue"
    by (rule step_enqueue [of "''b''" "''chat''" 1 140 40 INTERACTIVE _ _ "Inr (demo_waiter ''b'' 1 40 2)"])
      (simp add: Let_def enqueue_def expire_def queue_due_def demo_queue_defs)
  ultimately show ?thesis by (blast intro: reaches.intros)
qed

theorem queue_reachable_wf_witness:
  "reaches queue_start queue_step demo_queue \<and> queue_wf demo_queue \<and> queue_size demo_queue = 2"
  using queue_reachable_wf [OF demo_queue_reachable] demo_queue_reachable
  by (simp add: queue_size_def demo_queue_def)

text \<open>
  C36. The head of the queue is a waiter that is not due, has the asked kind and is
  eligible, and each other such waiter has a lower aged priority, or the same one
  and a later arrival.
\<close>

theorem queue_head_serves_best:
  assumes "queue_wf q" and "queue_head now eligible kind q = (q', Some item)"
  shows "item \<in> set (dvals (q_items q)) \<and> now < q_deadline item
    \<and> (\<forall>p. eligible = Some p \<longrightarrow> p item) \<and> (\<forall>k. kind = Some k \<longrightarrow> q_kind item = k)
    \<and> (\<forall>other \<in> set (dvals (q_items q)).
         now < q_deadline other \<and> other \<noteq> item \<and> (\<forall>p. eligible = Some p \<longrightarrow> p other)
         \<and> (\<forall>k. kind = Some k \<longrightarrow> q_kind other = k)
         \<longrightarrow> queue_priority q other now < queue_priority q item now
           \<or> queue_priority q other now = queue_priority q item now \<and> q_sequence item < q_sequence other)"
proof -
  have cand: "x \<in> set (queue_candidates eligible kind (fst (expire now q))) \<longleftrightarrow>
      x \<in> set (dvals (q_items q)) \<and> now < q_deadline x \<and> (\<forall>p. eligible = Some p \<longrightarrow> p x)
      \<and> (\<forall>k. kind = Some k \<longrightarrow> q_kind x = k)" for x
    using expire_vals [OF assms(1), of now]
    by (auto simp: queue_candidates_def split: option.splits simp del: list.set_map)
  show ?thesis
    using queue_head_SomeD [OF assms] service_key_less [OF assms(1)] unfolding cand by blast
qed

theorem queue_head_serves_best_witness:
  "queue_wf demo_queue \<and> queue_head 41 None None demo_queue = (demo_queue, Some (demo_waiter ''a'' 0 0 1))
   \<and> queue_priority demo_queue (demo_waiter ''b'' 1 40 2) 41
     = queue_priority demo_queue (demo_waiter ''a'' 0 0 1) 41"
proof -
  have h: "queue_head 41 None None demo_queue = (demo_queue, Some (demo_waiter ''a'' 0 0 1))"
    by (simp add: queue_head_def expire_def queue_due_def queue_candidates_def service_key_def
        queue_priority_def demo_queue_defs)
  have wf: "queue_wf demo_queue" by (simp add: queue_wf_def demo_queue_defs)
  show ?thesis
    using h wf queue_head_serves_best [OF wf h]
    by (simp add: queue_priority_def demo_queue_defs)
qed

text \<open>
  Bounded overtaking: while an earlier waiter is a candidate, a later waiter whose
  extra priority is covered by the arrival gap (one point per aging period) is never
  the head, whatever the time.
\<close>

theorem queue_bounded_overtaking:
  assumes "queue_wf q" and "queue_head now eligible kind q = (q', Some b)"
    and "a \<in> set (dvals (q_items q))" and "now < q_deadline a"
    and "\<And>p. eligible = Some p \<Longrightarrow> p a" and "\<And>k. kind = Some k \<Longrightarrow> q_kind a = k"
    and "q_sequence a < q_sequence b" and "q_enqueued_at a \<le> q_enqueued_at b" and "q_enqueued_at b \<le> now"
  shows "q_enqueued_at b - q_enqueued_at a < aging_seconds q * real_of_int (q_priority b - q_priority a)"
proof (rule ccontr)
  assume "\<not> ?thesis"
  then have gap: "aging_seconds q * real_of_int (q_priority b - q_priority a) \<le> q_enqueued_at b - q_enqueued_at a"
    by simp
  have "queue_priority q b now \<le> queue_priority q a now"
    using queue_wfD(2) [OF assms(1)] assms(8,9) gap by (rule aged_priority_dominates)
  moreover have "a \<in> set (queue_candidates eligible kind (fst (expire now q)))"
    using assms(3-6) expire_vals [OF assms(1), of now]
    by (auto simp: queue_candidates_def split: option.splits simp del: list.set_map)
  then have "service_key q now b \<le> service_key q now a"
    by (rule queue_head_SomeD(2) [OF assms(1,2)])
  ultimately show False using assms(7) by (auto simp: service_key_def)
qed

definition demo_vip_queue :: RequestQueue where
  "demo_vip_queue = \<lparr>capacity = 4, aging_seconds = 30,
     q_items = [(''a'', demo_waiter ''a'' 0 0 1), (''v'', demo_waiter ''v'' 5 40 2)], q_next = 2\<rparr>"

theorem queue_bounded_overtaking_witness:
  "queue_head 41 None None demo_vip_queue = (demo_vip_queue, Some (demo_waiter ''v'' 5 40 2))
   \<and> (40::real) - 0 < aging_seconds demo_vip_queue * real_of_int (5 - 0)"
proof -
  have h: "queue_head 41 None None demo_vip_queue = (demo_vip_queue, Some (demo_waiter ''v'' 5 40 2))"
    by (simp add: queue_head_def expire_def queue_due_def queue_candidates_def service_key_def
        queue_priority_def demo_vip_queue_def demo_waiter_def)
  have wf: "queue_wf demo_vip_queue" by (simp add: queue_wf_def demo_vip_queue_def demo_waiter_def)
  have "demo_waiter ''a'' 0 0 1 \<in> set (dvals (q_items demo_vip_queue))"
    by (simp add: demo_vip_queue_def)
  from queue_bounded_overtaking [OF wf h this] show ?thesis
    using h by (simp add: demo_waiter_def)
qed

text \<open>
  An admitted waiter is found under its id with the deadline and kind it was
  given, a second enqueue of the id is refused while it waits, and removing it
  restores the other waiters exactly (less the ones that were due).
\<close>

theorem enqueue_remove_roundtrip:
  assumes "queue_wf q" and "enqueue rid mid p d now k q = (q', Inr item)"
  shows "queue_get rid q' = Some item \<and> q_deadline item = d \<and> q_kind item = k \<and> q_enqueued_at item = now
    \<and> (now' < d \<longrightarrow> snd (enqueue rid mid' p' d' now' k' q') = Inl (ValueError ''duplicate waiter''))
    \<and> (\<forall>x. queue_get x (fst (queue_remove rid st q')) = queue_get x (fst (expire now q)))"
proof -
  have "q_enqueued_at item = now" using assms(2) by (cases rule: enqueue_cases) auto
  then show ?thesis
    using rq.enq_rem_roundtrip [OF assms] rq.enq_ok [OF assms] rq.enq_twice [OF assms]
    by (simp add: queue_get_def)
qed

theorem enqueue_remove_roundtrip_witness:
  "queue_get ''c'' (fst (enqueue ''c'' ''chat'' 0 150 50 SESSION demo_queue)) \<noteq> None
   \<and> snd (enqueue ''c'' ''chat'' 0 150 60 SESSION (fst (enqueue ''c'' ''chat'' 0 150 50 SESSION demo_queue)))
     = Inl (ValueError ''duplicate waiter'')"
proof -
  have wf: "queue_wf demo_queue" by (simp add: queue_wf_def demo_queue_defs)
  obtain q' item where e: "enqueue ''c'' ''chat'' 0 150 50 SESSION demo_queue = (q', Inr item)"
    by (simp add: Let_def enqueue_def expire_def queue_due_def demo_queue_defs)
  show ?thesis using enqueue_remove_roundtrip [OF wf e, of 60] e by simp
qed

end
