(* ===== verification/Session_Manager.thy ===== *)
theory Session_Manager
  imports Request_Queue
begin

text \<open>
  The exclusive sessions of \<^verbatim>\<open>model_scheduler/session_manager.py\<close>: a pure state machine that
  is given the clock reading of its caller.  Each method is one function; the raises of a method
  come before its first assignment, except that \<^verbatim>\<open>create\<close> may raise after the queue has
  dropped its due waiters.
\<close>

section \<open>Data\<close>

datatype Phase = PREPARING | ACTIVE | DRAINING | CLOSED | BLOCKED

definition holding_phases :: "Phase set" where
  "holding_phases = {ACTIVE, DRAINING, BLOCKED}"

record SessionRecord =
  s_session_id :: string
  s_model_id :: string
  s_client_id :: string
  s_priority :: int
  s_created_at :: time
  s_wait_deadline :: time
  s_prepare_deadline :: time
  s_hard_deadline :: time
  s_ttl_seconds :: time
  s_phase :: Phase
  s_heartbeat_at :: "time option"
  s_activated_at :: "time option"
  s_draining_at :: "time option"
  s_draining_reason :: "string option"
  s_closed_at :: "time option"
  s_blocked_at :: "time option"
  s_blocked_reason :: "string option"
  s_retry_at :: time
  s_sequence :: int

definition expires_at :: "SessionRecord \<Rightarrow> time" where
  "expires_at r =
     (let activity = (case s_heartbeat_at r of
                        Some t \<Rightarrow> t
                      | None \<Rightarrow> (case s_activated_at r of Some t \<Rightarrow> t | None \<Rightarrow> s_created_at r))
      in min (s_hard_deadline r) (activity + s_ttl_seconds r))"

definition preparation_expired_at :: "SessionRecord \<Rightarrow> time" where
  "preparation_expired_at r = min (s_wait_deadline r) (s_prepare_deadline r)"

record SessionManager =
  max_sessions :: int
  wait_seconds :: time
  hard_deadline_seconds :: time
  heartbeat_seconds :: time
  ttl_seconds :: time
  prepare_seconds :: time
  drain_seconds :: time
  retry_seconds :: time
  cleanup_seconds :: time
  cancel_seconds :: time
  stop_grace_seconds :: time
  reconcile_seconds :: time
  records :: "(string, SessionRecord) dict"
  active_id :: "string option"
  in_flight :: "(string, int) dict"

definition sessions_init ::
  "int \<Rightarrow> time \<Rightarrow> time \<Rightarrow> time \<Rightarrow> time \<Rightarrow> time \<Rightarrow> time \<Rightarrow> time \<Rightarrow> time \<Rightarrow> time \<Rightarrow> time \<Rightarrow> time \<Rightarrow> SessionManager result" where
  "sessions_init mx wait hard beat ttl prep drain retry cleanup cancel grace reconcile =
     rbind (raise_if (mx \<le> 0 \<or> (\<exists>v \<in> {wait, hard, beat, ttl, prep, drain, retry, cleanup, cancel, grace, reconcile}. v \<le> 0))
             (ValueError ''session policy values must be positive'')) (\<lambda>_.
     Inr \<lparr>max_sessions = mx, wait_seconds = wait, hard_deadline_seconds = hard, heartbeat_seconds = beat,
          ttl_seconds = ttl, prepare_seconds = prep, drain_seconds = drain, retry_seconds = retry,
          cleanup_seconds = cleanup, cancel_seconds = cancel, stop_grace_seconds = grace,
          reconcile_seconds = reconcile, records = [], active_id = None, in_flight = []\<rparr>)"

section \<open>Lifecycle\<close>

definition new_record ::
  "SessionManager \<Rightarrow> string \<Rightarrow> string \<Rightarrow> string \<Rightarrow> int \<Rightarrow> time \<Rightarrow> time \<Rightarrow> SessionRecord" where
  "new_record sm sid mid cid priority now hard =
     \<lparr>s_session_id = sid, s_model_id = mid, s_client_id = cid, s_priority = priority, s_created_at = now,
      s_wait_deadline = min (now + wait_seconds sm) (now + hard),
      s_prepare_deadline = min (now + prepare_seconds sm) (now + hard),
      s_hard_deadline = now + hard, s_ttl_seconds = ttl_seconds sm, s_phase = PREPARING,
      s_heartbeat_at = None, s_activated_at = None, s_draining_at = None, s_draining_reason = None,
      s_closed_at = None, s_blocked_at = None, s_blocked_reason = None, s_retry_at = 0, s_sequence = 0\<rparr>"

definition session_create ::
  "SessionManager \<Rightarrow> RequestQueue \<Rightarrow> string \<Rightarrow> string \<Rightarrow> string \<Rightarrow> time \<Rightarrow> int \<Rightarrow> time option
     \<Rightarrow> SessionManager \<times> RequestQueue \<times> SessionRecord result" where
  "session_create sm q sid mid cid now priority hard_opt =
     (if sid \<in> set (dkeys (records sm)) then (sm, q, Inl (SessionConflict ''duplicate_session''))
      else if int (length (records sm)) \<ge> max_sessions sm then (sm, q, Inl (SessionConflict ''session_capacity''))
      else
        let hard = (case hard_opt of None \<Rightarrow> hard_deadline_seconds sm | Some h \<Rightarrow> min h (hard_deadline_seconds sm))
        in if hard \<le> 0 then (sm, q, Inl (SessionConflict ''invalid_hard_deadline''))
           else
             let r = new_record sm sid mid cid priority now hard
             in case enqueue sid mid priority (s_wait_deadline r) now SESSION q of
                  (q', Inl e) \<Rightarrow> (sm, q', Inl e)
                | (q', Inr waiter) \<Rightarrow>
                    let r' = r\<lparr>s_sequence := q_sequence waiter\<rparr>
                    in (sm\<lparr>records := dput sid r' (records sm), in_flight := dput sid 0 (in_flight sm)\<rparr>, q', Inr r'))"

definition session_get :: "SessionManager \<Rightarrow> string \<Rightarrow> SessionRecord result" where
  "session_get sm sid =
     (case dget (records sm) sid of None \<Rightarrow> Inl (SessionNotFound sid) | Some r \<Rightarrow> Inr r)"

definition is_live :: "SessionManager \<Rightarrow> string \<Rightarrow> time \<Rightarrow> bool" where
  "is_live sm sid now =
     (case dget (records sm) sid of None \<Rightarrow> False | Some r \<Rightarrow> s_phase r = ACTIVE \<and> now < expires_at r)"

definition upd_session :: "string \<Rightarrow> (SessionRecord \<Rightarrow> SessionRecord) \<Rightarrow> SessionManager \<Rightarrow> SessionManager" where
  "upd_session sid f sm = sm\<lparr>records := dmodify sid f (records sm)\<rparr>"

definition drop_active :: "string \<Rightarrow> SessionManager \<Rightarrow> SessionManager" where
  "drop_active sid sm = (if active_id sm = Some sid then sm\<lparr>active_id := None\<rparr> else sm)"

definition heartbeat :: "SessionManager \<Rightarrow> string \<Rightarrow> time \<Rightarrow> SessionManager result" where
  "heartbeat sm sid now =
     rbind (session_get sm sid) (\<lambda>r.
     rbind (raise_if (s_phase r \<notin> {PREPARING, ACTIVE}) (SessionConflict ''session_not_open'')) (\<lambda>_.
     rbind (raise_if (s_phase r = ACTIVE \<and> now \<ge> expires_at r) (SessionConflict ''session_expired'')) (\<lambda>_.
     Inr (upd_session sid (\<lambda>r. r\<lparr>s_heartbeat_at := Some now\<rparr>) sm))))"

definition mark_active :: "SessionManager \<Rightarrow> string \<Rightarrow> time \<Rightarrow> SessionManager result" where
  "mark_active sm sid now =
     rbind (session_get sm sid) (\<lambda>r.
     rbind (raise_if (s_phase r = ACTIVE) (SessionConflict ''session_already_active'')) (\<lambda>_.
     rbind (raise_if (s_phase r \<noteq> PREPARING) (SessionConflict ''session_not_preparing'')) (\<lambda>_.
     rbind (raise_if (active_id sm \<noteq> None \<and> active_id sm \<noteq> Some sid) (SessionConflict ''session_already_active'')) (\<lambda>_.
     Inr ((upd_session sid (\<lambda>r. r\<lparr>s_phase := ACTIVE, s_activated_at := Some now, s_heartbeat_at := Some now,
                                  s_retry_at := 0\<rparr>) sm)\<lparr>active_id := Some sid\<rparr>)))))"

definition begin_drain :: "SessionManager \<Rightarrow> string \<Rightarrow> time \<Rightarrow> string \<Rightarrow> SessionManager result" where
  "begin_drain sm sid now reason =
     rbind (session_get sm sid) (\<lambda>r.
     if s_phase r = CLOSED then Inr sm
     else Inr (drop_active sid (upd_session sid (\<lambda>r. r\<lparr>s_phase := DRAINING, s_draining_at := Some now,
                 s_draining_reason := Some reason\<rparr>) sm)))"

definition mark_closed :: "SessionManager \<Rightarrow> string \<Rightarrow> time \<Rightarrow> SessionManager result" where
  "mark_closed sm sid now =
     rbind (session_get sm sid) (\<lambda>r.
     if s_phase r = CLOSED then Inr sm
     else Inr (let sm' = drop_active sid (upd_session sid (\<lambda>r. r\<lparr>s_phase := CLOSED, s_closed_at := Some now,
                          s_retry_at := 0\<rparr>) sm)
               in sm'\<lparr>in_flight := dput sid 0 (in_flight sm')\<rparr>))"

definition mark_blocked :: "SessionManager \<Rightarrow> string \<Rightarrow> time \<Rightarrow> string \<Rightarrow> SessionManager result" where
  "mark_blocked sm sid now reason =
     rbind (session_get sm sid) (\<lambda>r.
     rbind (raise_if (s_phase r = CLOSED) (SessionConflict ''session_closed'')) (\<lambda>_.
     Inr (drop_active sid (upd_session sid (\<lambda>r. r\<lparr>s_phase := BLOCKED, s_blocked_at := Some now,
            s_blocked_reason := Some reason, s_retry_at := now + reconcile_seconds sm\<rparr>) sm))))"

definition yield_prepare :: "SessionManager \<Rightarrow> string \<Rightarrow> time \<Rightarrow> SessionManager result" where
  "yield_prepare sm sid now =
     rbind (session_get sm sid) (\<lambda>r.
     rbind (raise_if (s_phase r \<noteq> PREPARING) (SessionConflict ''session_not_preparing'')) (\<lambda>_.
     Inr (upd_session sid (\<lambda>r. r\<lparr>s_retry_at := now + retry_seconds sm\<rparr>) sm)))"

section \<open>Decisions\<close>

fun first_holding :: "(string, SessionRecord) dict \<Rightarrow> string option" where
  "first_holding [] = None"
| "first_holding ((sid, r) # rest) = (if s_phase r \<in> holding_phases then Some sid else first_holding rest)"

definition holding_id :: "SessionManager \<Rightarrow> string option" where
  "holding_id sm = first_holding (records sm)"

definition session_candidate :: "SessionManager \<Rightarrow> string \<Rightarrow> time \<Rightarrow> SessionRecord option" where
  "session_candidate sm sid now =
     (case dget (records sm) sid of
        None \<Rightarrow> None
      | Some r \<Rightarrow>
          if s_phase r \<noteq> PREPARING then None
          else if now < s_retry_at r \<or> now \<ge> preparation_expired_at r \<or> now \<ge> s_hard_deadline r then None
          else if holding_id sm \<noteq> None then None
          else Some r)"

definition sessions_expired :: "SessionManager \<Rightarrow> time \<Rightarrow> SessionRecord list" where
  "sessions_expired sm now =
     filter (\<lambda>r. (s_phase r = PREPARING \<and> now \<ge> preparation_expired_at r)
               \<or> (s_phase r = ACTIVE \<and> now \<ge> expires_at r)) (dvals (records sm))"

definition blocked_due :: "SessionManager \<Rightarrow> time \<Rightarrow> SessionRecord list" where
  "blocked_due sm now = filter (\<lambda>r. s_phase r = BLOCKED \<and> now \<ge> s_retry_at r) (dvals (records sm))"

definition sessions_pending :: "SessionManager \<Rightarrow> bool" where
  "sessions_pending sm = (\<exists>r \<in> set (dvals (records sm)). s_phase r \<noteq> CLOSED)"

record SessionView =
  v_session_id :: string
  v_model_id :: string
  v_client_id :: string
  v_phase :: Phase
  v_priority :: int
  v_sequence :: int
  v_in_flight :: int
  v_wait_remaining_ms :: int
  v_hard_remaining_ms :: int
  v_expires_in_ms :: int
  v_draining_reason :: "string option"
  v_blocked_reason :: "string option"

text \<open>\<^verbatim>\<open>max(0, int(x * 1000))\<close>: \<^verbatim>\<open>int\<close> truncates towards zero, which below zero the maximum hides.\<close>

definition remaining_ms :: "time \<Rightarrow> int" where
  "remaining_ms x = max 0 \<lfloor>x * 1000\<rfloor>"

definition session_view :: "SessionManager \<Rightarrow> string \<Rightarrow> time \<Rightarrow> SessionView result" where
  "session_view sm sid now =
     rbind (session_get sm sid) (\<lambda>r.
     Inr \<lparr>v_session_id = s_session_id r, v_model_id = s_model_id r, v_client_id = s_client_id r,
          v_phase = s_phase r, v_priority = s_priority r, v_sequence = s_sequence r,
          v_in_flight = (case dget (in_flight sm) sid of None \<Rightarrow> 0 | Some n \<Rightarrow> n),
          v_wait_remaining_ms = remaining_ms (s_wait_deadline r - now),
          v_hard_remaining_ms = remaining_ms (s_hard_deadline r - now),
          v_expires_in_ms = remaining_ms (expires_at r - now),
          v_draining_reason = s_draining_reason r, v_blocked_reason = s_blocked_reason r\<rparr>)"

section \<open>The manager as a machine with a clock\<close>

text \<open>
  The scheduler also writes \<^verbatim>\<open>in_flight\<close> when a session gains or loses a lease.
\<close>

inductive session_step :: "SessionManager \<times> time \<Rightarrow> SessionManager \<times> time \<Rightarrow> bool" where
  ss_tick: "t \<le> t' \<Longrightarrow> session_step (sm, t) (sm, t')"
| ss_create: "session_create sm q sid mid cid t pr h = (sm', q', res) \<Longrightarrow> session_step (sm, t) (sm', t)"
| ss_heartbeat: "heartbeat sm sid t = Inr sm' \<Longrightarrow> session_step (sm, t) (sm', t)"
| ss_active: "mark_active sm sid t = Inr sm' \<Longrightarrow> session_step (sm, t) (sm', t)"
| ss_drain: "begin_drain sm sid t reason = Inr sm' \<Longrightarrow> session_step (sm, t) (sm', t)"
| ss_closed: "mark_closed sm sid t = Inr sm' \<Longrightarrow> session_step (sm, t) (sm', t)"
| ss_blocked: "mark_blocked sm sid t reason = Inr sm' \<Longrightarrow> session_step (sm, t) (sm', t)"
| ss_yield: "yield_prepare sm sid t = Inr sm' \<Longrightarrow> session_step (sm, t) (sm', t)"
| ss_in_flight: "session_step (sm, t) (sm\<lparr>in_flight := fl\<rparr>, t)"

definition session_start :: "SessionManager \<times> time \<Rightarrow> bool" where
  "session_start s \<longleftrightarrow> (\<exists>mx wait hard beat ttl prep drain retry cleanup cancel grace reconcile.
     sessions_init mx wait hard beat ttl prep drain retry cleanup cancel grace reconcile = Inr (fst s))"

definition sess_ok :: "string option \<Rightarrow> time \<Rightarrow> string \<Rightarrow> SessionRecord \<Rightarrow> bool" where
  "sess_ok act t sid r \<longleftrightarrow> s_session_id r = sid \<and> (s_phase r = ACTIVE \<longleftrightarrow> act = Some sid)
     \<and> s_wait_deadline r \<le> s_hard_deadline r \<and> s_prepare_deadline r \<le> s_hard_deadline r
     \<and> s_created_at r \<le> t"

definition sess_inv :: "SessionManager \<times> time \<Rightarrow> bool" where
  "sess_inv s \<longleftrightarrow> (case s of (sm, t) \<Rightarrow>
     distinct (dkeys (records sm)) \<and> int (length (records sm)) \<le> max_sessions sm
     \<and> (\<forall>sid r. dget (records sm) sid = Some r \<longrightarrow> sess_ok (active_id sm) t sid r)
     \<and> (\<forall>sid. active_id sm = Some sid \<longrightarrow> sid \<in> set (dkeys (records sm))))"

lemma session_get_Inr [simp]: "session_get sm sid = Inr r \<longleftrightarrow> dget (records sm) sid = Some r"
  by (simp add: session_get_def split: option.splits)

lemma upd_session_fields [simp]:
  "records (upd_session sid f sm) = dmodify sid f (records sm)" "active_id (upd_session sid f sm) = active_id sm"
  "max_sessions (upd_session sid f sm) = max_sessions sm" "in_flight (upd_session sid f sm) = in_flight sm"
  by (simp_all add: upd_session_def)

lemma drop_active_fields [simp]:
  "records (drop_active sid sm) = records sm" "max_sessions (drop_active sid sm) = max_sessions sm"
  "active_id (drop_active sid sm) = (if active_id sm = Some sid then None else active_id sm)"
  "in_flight (drop_active sid sm) = in_flight sm"
  by (simp_all add: drop_active_def)

lemma sess_invD: "sess_inv (sm, t) \<Longrightarrow> dget (records sm) sid = Some r \<Longrightarrow> sess_ok (active_id sm) t sid r"
  by (simp add: sess_inv_def)

lemma sess_inv_upd:
  assumes "sess_inv (sm, t)" and "\<And>r. sess_ok (active_id sm) t sid r \<Longrightarrow> sess_ok (active_id sm) t sid (f r)"
  shows "sess_inv (upd_session sid f sm, t)"
  using assms by (auto simp: sess_inv_def)

lemma sess_inv_leave:
  assumes "sess_inv (sm, t)" and "\<And>r. sess_ok (active_id sm) t sid r \<Longrightarrow> sess_ok None t sid (f r)"
  shows "sess_inv (drop_active sid (upd_session sid f sm), t)"
proof -
  have "sess_ok (if active_id sm = Some sid then None else active_id sm) t k r'"
    if r': "dget (dmodify sid f (records sm)) k = Some r'" for k r'
  proof -
    from r' obtain r where r: "dget (records sm) k = Some r" "r' = (if k = sid then f r else r)"
      by (auto split: if_splits)
    then have ok: "sess_ok (active_id sm) t k r" using assms(1) by (simp add: sess_inv_def)
    show ?thesis
    proof (cases "k = sid")
      case True
      with r(2) assms(2) ok show ?thesis by (auto simp: sess_ok_def)
    next
      case False
      with r(2) ok show ?thesis by (auto simp: sess_ok_def)
    qed
  qed
  with assms(1) show ?thesis by (auto simp: sess_inv_def)
qed

lemma sess_inv_in_flight [simp]: "sess_inv (sm\<lparr>in_flight := fl\<rparr>, t) = sess_inv (sm, t)"
  by (simp add: sess_inv_def)

lemma session_create_cases:
  assumes "session_create sm q sid mid cid now pr h = (sm', q', res)"
  obtains (refused) e where "res = Inl e" "sm' = sm"
  | (created) waiter hard where "sid \<notin> set (dkeys (records sm))" "int (length (records sm)) < max_sessions sm"
      "hard = (case h of None \<Rightarrow> hard_deadline_seconds sm | Some x \<Rightarrow> min x (hard_deadline_seconds sm))" "0 < hard"
      "enqueue sid mid pr (s_wait_deadline (new_record sm sid mid cid pr now hard)) now SESSION q = (q', Inr waiter)"
      "res = Inr ((new_record sm sid mid cid pr now hard)\<lparr>s_sequence := q_sequence waiter\<rparr>)"
      "sm' = sm\<lparr>records := dput sid ((new_record sm sid mid cid pr now hard)\<lparr>s_sequence := q_sequence waiter\<rparr>) (records sm),
         in_flight := dput sid 0 (in_flight sm)\<rparr>"
  using assms unfolding session_create_def Let_def
  by (auto split: if_splits prod.splits sum.splits)

lemma sess_inv_create:
  assumes "sess_inv (sm, t)" and "session_create sm q sid mid cid t pr h = (sm', q', res)"
  shows "sess_inv (sm', t)"
  using assms(2)
proof (cases rule: session_create_cases)
  case refused
  with assms(1) show ?thesis by simp
next
  case (created waiter hard)
  have "active_id sm \<noteq> Some sid" using assms(1) created(1) by (auto simp: sess_inv_def)
  then show ?thesis
    using assms(1) created(1,2,4,7)
    by (auto simp: sess_inv_def length_dput sess_ok_def new_record_def distinct_update split: if_splits)
qed

lemma sess_inv_active:
  assumes "sess_inv (sm, t)" and "mark_active sm sid t = Inr sm'"
  shows "sess_inv (sm', t)"
proof -
  from assms(2) obtain r where r: "dget (records sm) sid = Some r" "s_phase r = PREPARING"
    and act: "active_id sm = None \<or> active_id sm = Some sid"
    and sm': "sm' = (upd_session sid (\<lambda>r. r\<lparr>s_phase := ACTIVE, s_activated_at := Some t, s_heartbeat_at := Some t,
        s_retry_at := 0\<rparr>) sm)\<lparr>active_id := Some sid\<rparr>"
    by (auto simp: mark_active_def)
  from sess_invD [OF assms(1) r(1)] r(2) have "active_id sm \<noteq> Some sid" by (auto simp: sess_ok_def)
  with act have "active_id sm = None" by simp
  moreover have "sid \<in> fst ` set (records sm)" using dget_key [OF r(1)] by simp
  ultimately show ?thesis
    using assms(1) r unfolding sm' sess_inv_def sess_ok_def by (simp split: if_splits)
qed

interpretation ssm: machine session_start session_step sess_inv
proof
  show "sess_inv s" if "session_start s" for s
    using that by (cases s) (auto simp: session_start_def sessions_init_def sess_inv_def)
next
  fix s s'
  assume inv: "sess_inv s" and "session_step s s'"
  from this(2) show "sess_inv s'"
  proof (cases rule: session_step.cases)
    case (ss_tick t t' sm)
    with inv show ?thesis by (fastforce simp: sess_inv_def sess_ok_def)
  next
    case (ss_create sm q sid mid cid t pr h sm' q' res)
    with inv sess_inv_create show ?thesis by blast
  next
    case (ss_active sm sid t sm')
    with inv sess_inv_active show ?thesis by blast
  next
    case (ss_heartbeat sm sid t sm')
    with inv show ?thesis by (auto simp: heartbeat_def intro!: sess_inv_upd) (simp_all add: sess_ok_def)
  next
    case (ss_yield sm sid t sm')
    with inv show ?thesis by (auto simp: yield_prepare_def intro!: sess_inv_upd) (simp_all add: sess_ok_def)
  next
    case (ss_drain sm sid t reason sm')
    with inv show ?thesis
      by (auto simp: begin_drain_def intro!: sess_inv_leave split: if_splits) (simp_all add: sess_ok_def)
  next
    case (ss_closed sm sid t sm')
    with inv show ?thesis
      by (auto simp: mark_closed_def Let_def intro!: sess_inv_leave split: if_splits) (simp_all add: sess_ok_def)
  next
    case (ss_blocked sm sid t reason sm')
    with inv show ?thesis by (auto simp: mark_blocked_def intro!: sess_inv_leave) (simp_all add: sess_ok_def)
  qed (use inv in simp)
qed

section \<open>What a step does to one session\<close>

definition rec_evolves :: "time \<Rightarrow> SessionRecord \<Rightarrow> SessionRecord \<Rightarrow> bool" where
  "rec_evolves t r r' \<longleftrightarrow> (s_phase r = CLOSED \<longrightarrow> r' = r)
     \<and> (s_phase r \<noteq> PREPARING \<longrightarrow> s_phase r' \<noteq> PREPARING)
     \<and> (s_phase r \<noteq> PREPARING \<and> s_phase r' = ACTIVE \<longrightarrow> s_phase r = ACTIVE \<and> (expires_at r \<le> t \<longrightarrow> r' = r))
     \<and> s_hard_deadline r' = s_hard_deadline r"

lemma rec_evolves_refl [simp]: "rec_evolves t r r"
  by (simp add: rec_evolves_def)

lemma upd_evolves:
  "dget (records sm) sid = Some r \<Longrightarrow> (sid' = sid \<Longrightarrow> rec_evolves t r (f r)) \<Longrightarrow>
     \<exists>r'. dget (dmodify sid' f (records sm)) sid = Some r' \<and> rec_evolves t r r'"
  by auto

lemma session_step_evolves:
  assumes "session_step s s'" and "dget (records (fst s)) sid = Some r"
  shows "\<exists>r'. dget (records (fst s')) sid = Some r' \<and> rec_evolves (snd s) r r'"
  using assms(1)
proof (cases rule: session_step.cases)
  case (ss_create sm q sid' mid cid t pr h sm' q' res)
  from ss_create(3) show ?thesis
  proof (cases rule: session_create_cases)
    case (created waiter hard)
    have "sid \<noteq> sid'" using created(1) dget_key [OF assms(2)] ss_create(1) by auto
    with created(7) ss_create assms(2) show ?thesis by auto
  qed (use ss_create assms(2) in auto)
next
  case (ss_tick t t' sm)
  with assms(2) show ?thesis by simp
next
  case (ss_heartbeat sm sid' t sm')
  with assms(2) show ?thesis
    by (auto simp: heartbeat_def intro!: upd_evolves) (simp_all add: rec_evolves_def)
next
  case (ss_active sm sid' t sm')
  with assms(2) show ?thesis by (auto simp: mark_active_def intro!: upd_evolves) (simp_all add: rec_evolves_def)
next
  case (ss_drain sm sid' t reason sm')
  with assms(2) show ?thesis
    by (auto simp: begin_drain_def intro!: upd_evolves split: if_splits) (simp_all add: rec_evolves_def)
next
  case (ss_closed sm sid' t sm')
  with assms(2) show ?thesis
    by (auto simp: mark_closed_def Let_def intro!: upd_evolves split: if_splits) (simp_all add: rec_evolves_def)
next
  case (ss_blocked sm sid' t reason sm')
  with assms(2) show ?thesis by (auto simp: mark_blocked_def intro!: upd_evolves) (simp_all add: rec_evolves_def)
next
  case (ss_yield sm sid' t sm')
  with assms(2) show ?thesis by (auto simp: yield_prepare_def intro!: upd_evolves) (simp_all add: rec_evolves_def)
next
  case (ss_in_flight sm t fl)
  with assms(2) show ?thesis by simp
qed

lemma session_step_clock: "session_step s s' \<Longrightarrow> snd s \<le> snd s'"
  by (cases rule: session_step.cases) auto

text \<open>Predicates of one record that steps keep are kept along runs.\<close>

lemma session_record_stable:
  assumes "session_step\<^sup>*\<^sup>* s s'" and "sess_inv s" and "dget (records (fst s)) sid = Some r" and "Q (snd s) r"
    and "\<And>t t' r r'. Q t r \<Longrightarrow> rec_evolves t r r' \<Longrightarrow> t \<le> t' \<Longrightarrow> Q t' r'"
  shows "\<exists>r'. dget (records (fst s')) sid = Some r' \<and> Q (snd s') r'"
proof -
  let ?Q = "\<lambda>s. \<exists>r. dget (records (fst s)) sid = Some r \<and> Q (snd s) r"
  have step: "?Q u" if st: "session_step s u" and q: "?Q s" for s u
  proof -
    from q obtain r where r: "dget (records (fst s)) sid = Some r" "Q (snd s) r" by blast
    from session_step_evolves [OF st r(1)] obtain r' where r': "dget (records (fst u)) sid = Some r'"
      "rec_evolves (snd s) r r'" by blast
    from assms(5) [OF r(2) r'(2) session_step_clock [OF st]] r'(1) show ?thesis by blast
  qed
  have "?Q s" using assms(3,4) by blast
  with step show ?thesis by (intro ssm.steps_stable [where Q = ?Q, OF _ assms(1,2)])
qed

section \<open>Properties\<close>

definition demo_sessions :: SessionManager where
  "demo_sessions = \<lparr>max_sessions = 2, wait_seconds = 100, hard_deadline_seconds = 200, heartbeat_seconds = 10,
     ttl_seconds = 30, prepare_seconds = 90, drain_seconds = 30, retry_seconds = 30, cleanup_seconds = 60,
     cancel_seconds = 10, stop_grace_seconds = 30, reconcile_seconds = 5, records = [], active_id = None, in_flight = []\<rparr>"

lemma demo_sessions_start: "session_start (demo_sessions, 0)"
proof -
  have "sessions_init 2 100 200 10 30 90 30 30 60 10 30 5 = Inr demo_sessions"
    by (simp add: sessions_init_def demo_sessions_def)
  then show ?thesis unfolding session_start_def fst_conv by blast
qed

definition demo_session :: SessionRecord where
  "demo_session = (new_record demo_sessions ''s'' ''a'' ''c'' 0 0 200)\<lparr>s_sequence := 1\<rparr>"

definition demo_empty_queue :: RequestQueue where
  "demo_empty_queue = \<lparr>capacity = 4, aging_seconds = 30, q_items = [], q_next = 0\<rparr>"

definition demo_created :: SessionManager where
  "demo_created = demo_sessions\<lparr>records := [(''s'', demo_session)], in_flight := [(''s'', 0)]\<rparr>"

definition demo_active :: SessionManager where
  "demo_active = (upd_session ''s'' (\<lambda>r. r\<lparr>s_phase := ACTIVE, s_activated_at := Some 5, s_heartbeat_at := Some 5,
     s_retry_at := 0\<rparr>) demo_created)\<lparr>active_id := Some ''s''\<rparr>"

lemma demo_create:
  "fst (session_create demo_sessions demo_empty_queue ''s'' ''a'' ''c'' 0 0 None) = demo_created"
  by (simp add: session_create_def Let_def enqueue_def expire_def queue_due_def demo_empty_queue_def
      demo_sessions_def demo_created_def demo_session_def new_record_def)

lemma demo_mark_active: "mark_active demo_created ''s'' 5 = Inr demo_active"
  by (simp add: mark_active_def session_get_def demo_created_def demo_active_def demo_session_def new_record_def
      demo_sessions_def)

lemmas session_reach_step = reaches_step [of session_start session_step]
lemmas session_reach_start = reaches_start [of session_start _ session_step]

lemma demo_session_reach:
  "reaches session_start session_step (demo_created, 0)"
  "reaches session_start session_step (demo_active, 5)"
proof -
  obtain q' res where "session_create demo_sessions demo_empty_queue ''s'' ''a'' ''c'' 0 0 None = (demo_created, q', res)"
    using demo_create by (metis prod.collapse)
  from session_reach_step [OF session_reach_start [OF demo_sessions_start] ss_create [OF this]]
  show c: "reaches session_start session_step (demo_created, 0)" .
  have "session_step (demo_created, 0) (demo_created, 5)" by (rule ss_tick) simp
  from session_reach_step [OF session_reach_step [OF c this] ss_active [OF demo_mark_active]]
  show "reaches session_start session_step (demo_active, 5)" .
qed

text \<open>
  C28. In every reachable state at most one session is ACTIVE, it is the one \<^verbatim>\<open>active_id\<close> names,
  and the number of sessions is within the configured bound.
\<close>

theorem at_most_one_active_session:
  assumes "reaches session_start session_step s"
    and "dget (records (fst s)) sid = Some r" and "s_phase r = ACTIVE"
  shows "active_id (fst s) = Some sid \<and> int (length (records (fst s))) \<le> max_sessions (fst s)
    \<and> (\<forall>sid' r'. dget (records (fst s)) sid' = Some r' \<and> s_phase r' = ACTIVE \<longrightarrow> sid' = sid \<and> r' = r)"
proof -
  obtain sm t where s: "s = (sm, t)" by (cases s)
  have inv: "sess_inv (sm, t)" using ssm.reaches_inv [OF assms(1)] s by simp
  have act: "active_id sm = Some k" if "dget (records sm) k = Some x" "s_phase x = ACTIVE" for k x
    using sess_invD [OF inv that(1)] that(2) by (simp add: sess_ok_def)
  have one: "active_id sm = Some sid" using act assms(2,3) s by simp
  have "sid' = sid \<and> r' = r" if "dget (records sm) sid' = Some r'" "s_phase r' = ACTIVE" for sid' r'
  proof -
    have "sid' = sid" using act [OF that] one by simp
    with that(1) assms(2) s show ?thesis by simp
  qed
  moreover have "int (length (records sm)) \<le> max_sessions sm" using inv by (simp add: sess_inv_def)
  ultimately show ?thesis using one unfolding s fst_conv by blast
qed

theorem at_most_one_active_session_witness:
  "active_id demo_active = Some ''s''"
proof -
  have "dget (records demo_active) ''s'' = Some (demo_session\<lparr>s_phase := ACTIVE, s_activated_at := Some 5,
      s_heartbeat_at := Some 5, s_retry_at := 0\<rparr>)"
    by (simp add: demo_active_def demo_created_def)
  from at_most_one_active_session [OF demo_session_reach(2), of "''s''"] this show ?thesis by simp
qed

text \<open>
  CLOSED is final: no later operation of any session changes the record of a closed session.
\<close>

theorem closed_session_is_final:
  assumes "reaches session_start session_step s" and "dget (records (fst s)) sid = Some r" and "s_phase r = CLOSED"
    and "session_step\<^sup>*\<^sup>* s s'"
  shows "dget (records (fst s')) sid = Some r"
  using session_record_stable [where Q = "\<lambda>t x. x = r", OF assms(4) ssm.reaches_inv [OF assms(1)] assms(2)] assms(3)
  by (auto simp: rec_evolves_def)

definition demo_closed :: SessionManager where
  "demo_closed = (upd_session ''s'' (\<lambda>r. r\<lparr>s_phase := CLOSED, s_closed_at := Some 5, s_retry_at := 0\<rparr>)
     (demo_active\<lparr>active_id := None\<rparr>))\<lparr>in_flight := [(''s'', 0)]\<rparr>"

lemma demo_mark_closed: "mark_closed demo_active ''s'' 5 = Inr demo_closed"
  by (simp add: mark_closed_def session_get_def drop_active_def upd_session_def Let_def demo_closed_def demo_active_def
      demo_created_def demo_session_def new_record_def demo_sessions_def dmodify_def)

theorem closed_session_is_final_witness:
  "\<exists>r. dget (records demo_closed) ''s'' = Some r \<and> s_phase r = CLOSED \<and> begin_drain demo_closed ''s'' 9 ''late'' = Inr demo_closed"
proof -
  have reach: "reaches session_start session_step (demo_closed, 5)"
    by (rule session_reach_step [OF demo_session_reach(2) ss_closed [OF demo_mark_closed]])
  obtain r where r: "dget (records demo_closed) ''s'' = Some r" "s_phase r = CLOSED"
    by (simp add: demo_closed_def demo_active_def demo_created_def)
  then have d: "begin_drain demo_closed ''s'' 9 ''late'' = Inr demo_closed"
    by (simp add: begin_drain_def session_get_def)
  have "session_step\<^sup>*\<^sup>* (demo_closed, 5) (demo_closed, 9)" by (intro r_into_rtranclp ss_tick) simp
  from closed_session_is_final [OF reach _ r(2) this] r d show ?thesis by auto
qed

text \<open>
  An expired session is never live again: once an ACTIVE session has passed its soft
  TTL or hard deadline, at every later time it is not live and its heartbeat is refused.
\<close>

theorem expired_session_never_live:
  assumes "reaches session_start session_step s" and "dget (records (fst s)) sid = Some r" and "s_phase r = ACTIVE"
    and "expires_at r \<le> snd s" and "session_step\<^sup>*\<^sup>* s s'"
  shows "\<not> is_live (fst s') sid (snd s') \<and> (\<exists>e. heartbeat (fst s') sid (snd s') = Inl (SessionConflict e))"
proof -
  let ?Q = "\<lambda>t r. s_phase r \<noteq> PREPARING \<and> (s_phase r = ACTIVE \<longrightarrow> expires_at r \<le> t)"
  have "\<exists>r'. dget (records (fst s')) sid = Some r' \<and> ?Q (snd s') r'"
    by (rule session_record_stable [where Q = ?Q, OF assms(5) ssm.reaches_inv [OF assms(1)] assms(2)])
      (use assms(3,4) in \<open>auto simp: rec_evolves_def\<close>)
  then obtain r' where "dget (records (fst s')) sid = Some r'" "?Q (snd s') r'" by blast
  then show ?thesis
    by (cases "s_phase r' = ACTIVE") (simp_all add: is_live_def heartbeat_def session_get_def)
qed

definition demo_active_record :: SessionRecord where
  "demo_active_record = demo_session\<lparr>s_phase := ACTIVE, s_activated_at := Some 5, s_heartbeat_at := Some 5, s_retry_at := 0\<rparr>"

lemma demo_active_record:
  "dget (records demo_active) ''s'' = Some demo_active_record" "s_phase demo_active_record = ACTIVE"
  "expires_at demo_active_record = 35" "s_hard_deadline demo_active_record = 200"
  by (simp_all add: demo_active_def demo_created_def demo_active_record_def expires_at_def demo_session_def
      new_record_def demo_sessions_def)

lemma demo_active_later: "reaches session_start session_step (demo_active, 40)"
  using session_reach_step [OF demo_session_reach(2) ss_tick [of 5 40]] by simp

theorem expired_session_never_live_witness:
  "is_live demo_active ''s'' 34 \<and> \<not> is_live demo_active ''s'' 41
   \<and> (\<exists>e. heartbeat demo_active ''s'' 41 = Inl (SessionConflict e))"
proof -
  have "session_step\<^sup>*\<^sup>* (demo_active, 40) (demo_active, 41)" by (intro r_into_rtranclp ss_tick) simp
  from expired_session_never_live [OF demo_active_later _ demo_active_record(2) _ this] demo_active_record
  show ?thesis by (simp add: is_live_def)
qed

text \<open>
  No session outlives its hard deadline unnoticed: the soft expiry never exceeds it, and
  from that instant on every open session is reported by \<^verbatim>\<open>expired\<close>.
\<close>

theorem hard_deadline_reported:
  assumes "reaches session_start session_step s" and "dget (records (fst s)) sid = Some r"
    and "s_phase r \<in> {PREPARING, ACTIVE}" and "s_hard_deadline r \<le> now"
  shows "expires_at r \<le> s_hard_deadline r \<and> preparation_expired_at r \<le> s_hard_deadline r
    \<and> r \<in> set (sessions_expired (fst s) now)"
proof -
  obtain sm t where s: "s = (sm, t)" by (cases s)
  have "sess_ok (active_id sm) t sid r"
    using sess_invD ssm.reaches_inv [OF assms(1)] assms(2) s by fastforce
  then have d: "expires_at r \<le> s_hard_deadline r" "preparation_expired_at r \<le> s_hard_deadline r"
    by (auto simp: sess_ok_def expires_at_def preparation_expired_at_def Let_def)
  moreover have "r \<in> set (dvals (records sm))" using assms(2) s by (auto dest: dget_in_dvals)
  ultimately show ?thesis using assms(3,4) s by (auto simp: sessions_expired_def)
qed

theorem hard_deadline_reported_witness:
  "demo_active_record \<in> set (sessions_expired demo_active 200)"
  using hard_deadline_reported [OF demo_session_reach(2), of "''s''" demo_active_record 200] demo_active_record by simp

text \<open>
  A session and its waiter are created together: a successful \<^verbatim>\<open>create\<close> puts one PREPARING
  record and one SESSION waiter with the same sequence number and the record's wait deadline,
  which is never past the hard deadline; a refused one leaves the sessions unchanged.
\<close>

theorem session_create_with_waiter:
  assumes "queue_wf q" and "session_create sm q sid mid cid now pr h = (sm', q', res)"
  shows "case res of
      Inl e \<Rightarrow> sm' = sm
    | Inr r \<Rightarrow> dget (records sm') sid = Some r \<and> s_phase r = PREPARING \<and> s_wait_deadline r \<le> s_hard_deadline r
        \<and> s_hard_deadline r \<le> now + hard_deadline_seconds sm
        \<and> (\<exists>w. queue_get sid q' = Some w \<and> q_kind w = SESSION \<and> q_sequence w = s_sequence r \<and> q_model_id w = mid
             \<and> q_deadline w = s_wait_deadline r)
        \<and> (\<forall>sid'. sid' \<noteq> sid \<longrightarrow> dget (records sm') sid' = dget (records sm) sid')"
  using assms(2)
proof (cases rule: session_create_cases)
  case refused
  then show ?thesis by simp
next
  case (created waiter hard)
  from created(5) have "queue_get sid q' = Some waiter" "q_kind waiter = SESSION" "q_model_id waiter = mid"
    "q_deadline waiter = s_wait_deadline (new_record sm sid mid cid pr now hard)"
    by (auto simp: enqueue_def Let_def queue_get_def split: if_splits)
  then show ?thesis using created by (auto simp: new_record_def split: option.splits)
qed

theorem session_create_with_waiter_witness:
  "(case snd (snd (session_create demo_sessions demo_empty_queue ''s'' ''a'' ''c'' 0 0 None)) of
      Inl e \<Rightarrow> False | Inr r \<Rightarrow> s_phase r = PREPARING \<and> s_wait_deadline r \<le> s_hard_deadline r)"
proof -
  obtain q' r where c: "session_create demo_sessions demo_empty_queue ''s'' ''a'' ''c'' 0 0 None = (demo_created, q', Inr r)"
    by (simp add: session_create_def Let_def enqueue_def expire_def queue_due_def demo_empty_queue_def
      demo_sessions_def demo_created_def demo_session_def new_record_def)
  have "queue_wf demo_empty_queue" by (simp add: queue_wf_def demo_empty_queue_def)
  from session_create_with_waiter [OF this c] c show ?thesis by simp
qed

end
