(* ===== verification/Scheduler.thy ===== *)
theory Scheduler
  imports Eviction_Policy Session_Manager
begin

text \<open>
  The scheduler of \<^verbatim>\<open>model_scheduler/scheduler.py\<close>.  The code holds one condition and never
  awaits while it holds it, so each \<^verbatim>\<open>async with self._condition\<close> section is one function here;
  what happens between two sections is up to the other coroutines.  A section reads the clock
  once, as \<open>now\<close>; results of awaited calls (memory samples, observations, the storage guard, the
  recovery port) and identifiers drawn by \<^verbatim>\<open>uuid4\<close> are arguments.  The tasks that the scheduler
  holds appear in its state as what they still have to do.
\<close>

section \<open>State\<close>

record SwitchIntent =
  si_request_id :: string
  si_target_id :: string
  si_frozen_models :: "string list"
  si_expires_at :: time

text \<open>The payload of \<^verbatim>\<open>writeback_rejected\<close>; the other events carry no scheduling data.\<close>

datatype Event = WritebackRejected string Operation string

record Scheduler =
  book :: Book
  queue :: RequestQueue
  sessions :: SessionManager
  loads :: "(string, Operation) dict"
  load_retries :: "(string, int) dict"
  load_retry_limit :: int
  eviction :: "Operation list option"
  shutting_down :: bool
  storage_unavailable :: bool
  max_evictions :: int
  switch_drain_timeout_seconds :: time
  switch_retry_seconds :: time
  switch_intent :: "SwitchIntent option"
  next_switch_attempt :: "(string, time) dict"
  switch_window_seconds :: time
  max_switches_in_window :: int
  cooldown_seconds :: time
  switch_successes :: "time list"
  cold_load_not_before :: time
  has_recovery :: bool
  session_leases :: "(string, string list) dict"
  session_freeze :: "string option"
  events :: "Event list"

definition scheduler_init ::
  "Book \<Rightarrow> SessionManager \<Rightarrow> int \<Rightarrow> time \<Rightarrow> time \<Rightarrow> int \<Rightarrow> time \<Rightarrow> time \<Rightarrow> time \<Rightarrow> int \<Rightarrow> time \<Rightarrow> int \<Rightarrow> bool \<Rightarrow> Scheduler result" where
  "scheduler_init b sm queue_capacity aging poll max_ev drain retry window max_sw cooldown retry_limit has_rec =
     rbind (raise_if (poll \<le> 0 \<or> drain \<le> 0 \<or> retry \<le> 0 \<or> window \<le> 0 \<or> cooldown \<le> 0 \<or> max_sw < 1)
             (ValueError ''scheduler intervals must be positive'')) (\<lambda>_.
     rbind (raise_if (retry_limit < 0) (ValueError ''the load retry limit must not be negative'')) (\<lambda>_.
     rbind (policy_init max_ev) (\<lambda>mx.
     rbind (queue_init queue_capacity aging) (\<lambda>q.
     Inr \<lparr>book = b, queue = q, sessions = sm, loads = [], load_retries = [], load_retry_limit = retry_limit,
          eviction = None, shutting_down = False, storage_unavailable = False, max_evictions = mx,
          switch_drain_timeout_seconds = drain, switch_retry_seconds = retry, switch_intent = None,
          next_switch_attempt = [], switch_window_seconds = window, max_switches_in_window = max_sw,
          cooldown_seconds = cooldown, switch_successes = [], cold_load_not_before = 0, has_recovery = has_rec,
          session_leases = [], session_freeze = None, events = []\<rparr>))))"

text \<open>\<^verbatim>\<open>value or default\<close> on an optional string, and \<^verbatim>\<open>dict.get(key, default)\<close>.\<close>

definition or_default :: "string option \<Rightarrow> string \<Rightarrow> string" where
  "or_default v d = (if truthy v then the v else d)"

definition dget_or :: "('k, 'v) dict \<Rightarrow> 'k \<Rightarrow> 'v \<Rightarrow> 'v" where
  "dget_or d k v = (case dget d k of None \<Rightarrow> v | Some w \<Rightarrow> w)"

section \<open>Session leases\<close>

definition note_session_lease :: "string \<Rightarrow> Lease \<Rightarrow> Scheduler \<Rightarrow> Scheduler" where
  "note_session_lease sid lease sc =
     (let ls = List.insert (lease_id lease) (dget_or (session_leases sc) sid [])
      in sc\<lparr>session_leases := dput sid ls (session_leases sc),
            sessions := (sessions sc)\<lparr>in_flight := dput sid (int (length ls)) (in_flight (sessions sc))\<rparr>\<rparr>)"

fun find_lease_session :: "string \<Rightarrow> (string, string list) dict \<Rightarrow> string option" where
  "find_lease_session lid [] = None"
| "find_lease_session lid ((sid, ls) # rest) = (if lid \<in> set ls then Some sid else find_lease_session lid rest)"

definition forget_session_lease :: "string \<Rightarrow> Scheduler \<Rightarrow> Scheduler" where
  "forget_session_lease lid sc =
     (case find_lease_session lid (session_leases sc) of
        None \<Rightarrow> sc
      | Some sid \<Rightarrow>
          let ls = removeAll lid (dget_or (session_leases sc) sid [])
          in sc\<lparr>session_leases := dput sid ls (session_leases sc),
                sessions := (sessions sc)\<lparr>in_flight := dput sid (int (length ls)) (in_flight (sessions sc))\<rparr>\<rparr>)"

definition release_session_freeze :: "string \<Rightarrow> Scheduler \<Rightarrow> Scheduler" where
  "release_session_freeze sid sc = (if session_freeze sc = Some sid then sc\<lparr>session_freeze := None\<rparr> else sc)"

section \<open>Switches between models\<close>

definition load_deficit :: "Scheduler \<Rightarrow> string \<Rightarrow> MemorySample \<Rightarrow> int result" where
  "load_deficit sc mid s =
     rbind (required (book sc) mid) (\<lambda>req.
       Inr (max 0 (max (free_floor (book sc) + req - available_bytes s)
                       (committed (book sc) + req - model_budget (book sc)))))"

definition cancel_switch_intent :: "string \<Rightarrow> Scheduler \<Rightarrow> Scheduler result" where
  "cancel_switch_intent rid sc =
     (case switch_intent sc of
        None \<Rightarrow> Inr sc
      | Some intent \<Rightarrow>
          if si_request_id intent = rid
          then rbind (unfreeze_switch (si_frozen_models intent) (book sc)) (\<lambda>b.
                 Inr (sc\<lparr>book := b, switch_intent := None\<rparr>))
          else Inr sc)"

definition expire_switch_intent :: "time \<Rightarrow> Scheduler \<Rightarrow> Scheduler result" where
  "expire_switch_intent now sc =
     (case switch_intent sc of
        None \<Rightarrow> Inr sc
      | Some intent \<Rightarrow>
          if now \<ge> si_expires_at intent \<or> \<not> queue_contains (si_request_id intent) (queue sc)
          then rbind (unfreeze_switch (si_frozen_models intent) (book sc)) (\<lambda>b.
                 Inr (sc\<lparr>book := b, switch_intent := None,
                         next_switch_attempt := dput (si_target_id intent) (now + switch_retry_seconds sc)
                                                  (next_switch_attempt sc)\<rparr>))
          else Inr sc)"

text \<open>
  The two halves of \<^verbatim>\<open>_establish_or_advance_switch\<close>.  \<open>None\<close> of the first half is its
  \<^verbatim>\<open>return False\<close>.
\<close>

definition establish_switch ::
  "string \<Rightarrow> string \<Rightarrow> MemorySample \<Rightarrow> time \<Rightarrow> time \<Rightarrow> Scheduler \<Rightarrow> (Scheduler \<times> SwitchIntent) option result" where
  "establish_switch rid mid s deadline now sc =
     (case switch_intent sc of
        Some intent \<Rightarrow> Inr (Some (sc, intent))
      | None \<Rightarrow>
          rbind (load_deficit sc mid s) (\<lambda>deficit.
          rbind (policy_choose (book sc) (max_evictions sc) deficit now True) (\<lambda>cs.
          if cs = [] then Inr None
          else case freeze_for_switch (book sc) (map ec_model_id cs) of
                 Inl e \<Rightarrow> if is_Conflict e then Inr None else Inl e
               | Inr b \<Rightarrow>
                   let intent = \<lparr>si_request_id = rid, si_target_id = mid, si_frozen_models = map ec_model_id cs,
                                 si_expires_at = min deadline (now + switch_drain_timeout_seconds sc)\<rparr>
                   in Inr (Some (sc\<lparr>book := b, switch_intent := Some intent\<rparr>, intent)))))"

definition has_leases :: "Book \<Rightarrow> string \<Rightarrow> bool result" where
  "has_leases b mid = rbind (dlookup (runtime b) mid) (\<lambda>r. Inr (rt_leases r \<noteq> []))"

fun any_leases :: "Book \<Rightarrow> string list \<Rightarrow> bool result" where
  "any_leases b [] = Inr False"
| "any_leases b (mid # mids) = rbind (has_leases b mid) (\<lambda>l. if l then Inr True else any_leases b mids)"

definition advance_switch ::
  "string \<Rightarrow> SwitchIntent \<Rightarrow> (nat \<Rightarrow> string) \<Rightarrow> Scheduler \<Rightarrow> (Scheduler \<times> bool) result" where
  "advance_switch rid intent fresh sc =
     (if si_request_id intent \<noteq> rid then Inr (sc, False)
      else rbind (any_leases (book sc) (si_frozen_models intent)) (\<lambda>busy.
        if busy then Inr (sc, False)
        else case begin_eviction (book sc) fresh (si_frozen_models intent) True of
               Inl e \<Rightarrow> if is_Conflict e then rbind (cancel_switch_intent (si_request_id intent) sc) (\<lambda>sc'. Inr (sc', False)) else Inl e
             | Inr (b, ops) \<Rightarrow> Inr (sc\<lparr>book := b, switch_intent := None, eviction := Some ops\<rparr>, True)))"

definition establish_or_advance_switch ::
  "string \<Rightarrow> string \<Rightarrow> MemorySample \<Rightarrow> time \<Rightarrow> time \<Rightarrow> (nat \<Rightarrow> string) \<Rightarrow> Scheduler \<Rightarrow> (Scheduler \<times> bool) result" where
  "establish_or_advance_switch rid mid s deadline now fresh sc =
     rbind (establish_switch rid mid s deadline now sc) (\<lambda>r.
       case r of None \<Rightarrow> Inr (sc, False)
       | Some (sc', intent) \<Rightarrow> advance_switch rid intent fresh sc')"

section \<open>Requests\<close>

text \<open>
  Entering the queue: the checks before the condition and the first section of
  \<^verbatim>\<open>acquire\<close>.  The queue may have dropped due waiters when the request is refused.
\<close>

definition session_entry_check :: "Scheduler \<Rightarrow> string \<Rightarrow> string \<Rightarrow> time \<Rightarrow> unit result" where
  "session_entry_check sc sid mid now =
     rbind (session_get (sessions sc) sid) (\<lambda>r.
     rbind (raise_if (s_model_id r \<noteq> mid \<or> s_phase r \<noteq> ACTIVE) (SessionConflict ''session_not_active'')) (\<lambda>_.
     rbind (raise_if (\<not> is_live (sessions sc) sid now) (SessionConflict ''session_expired'')) (\<lambda>_.
     rbind (dlookup (runtime (book sc)) mid) (\<lambda>rt.
     rbind (dlookup (ledger (book sc)) mid) (\<lambda>l.
       raise_if (rt_state rt = READY \<and> int (length (rt_leases rt)) \<ge> ls_max_concurrency l)
         (Conflict ''session_slots_exhausted''))))))"

definition acquire_check :: "Scheduler \<Rightarrow> string \<Rightarrow> time \<Rightarrow> string option \<Rightarrow> time \<Rightarrow> unit result" where
  "acquire_check sc mid deadline sid now =
     rbind (raise_if (mid \<notin> set (dkeys (specs (book sc)))) (KeyError mid)) (\<lambda>_.
     rbind (raise_if (deadline \<le> now) (TimeoutError ''queue deadline elapsed'')) (\<lambda>_.
     rbind (raise_if (shutting_down sc) (ModelUnavailable ''service_shutting_down'')) (\<lambda>_.
     rbind (raise_if (storage_unavailable sc) (ModelUnavailable ''storage_unavailable'')) (\<lambda>_.
     case sid of
       Some i \<Rightarrow> session_entry_check sc i mid now
     | None \<Rightarrow> raise_if (session_freeze sc \<noteq> None) (Conflict ''session_exclusive'')))))"

definition ledger_priority :: "Book \<Rightarrow> string \<Rightarrow> int result" where
  "ledger_priority b mid = rbind (dlookup (ledger b) mid) (\<lambda>l. Inr (ls_priority l))"

definition acquire_enter ::
  "string \<Rightarrow> string \<Rightarrow> time \<Rightarrow> string option \<Rightarrow> time \<Rightarrow> Scheduler \<Rightarrow> Scheduler \<times> unit result" where
  "acquire_enter mid rid deadline sid now sc =
     (case rbind (acquire_check sc mid deadline sid now) (\<lambda>_. ledger_priority (book sc) mid) of
        Inl e \<Rightarrow> (sc, Inl e)
      | Inr priority \<Rightarrow>
          case enqueue rid mid priority deadline now (if sid \<noteq> None then SESSION else INTERACTIVE) (queue sc) of
            (q, Inr item) \<Rightarrow> (sc\<lparr>queue := q\<rparr>, Inr ())
          | (q, Inl e) \<Rightarrow> (sc\<lparr>queue := q\<rparr>,
              Inl (if is_ValueError e then Conflict ''duplicate waiter''
                   else if is_OverflowError e then QueueFull ''queue_full'' else e)))"

text \<open>A waiter of a model that is not in the book does not exist: \<^verbatim>\<open>acquire\<close> refuses it at entry.\<close>

definition cold_request_eligible :: "Scheduler \<Rightarrow> time \<Rightarrow> QueuedRequest \<Rightarrow> bool" where
  "cold_request_eligible sc now item =
     (if q_kind item = INTERACTIVE \<and> session_freeze sc \<noteq> None then False
      else case dget (runtime (book sc)) (q_model_id item) of
             None \<Rightarrow> False
           | Some r \<Rightarrow>
               if rt_state r = LOADING \<or> rt_state r = EVICTING then False
               else if rt_state r = UNLOADED
               then now \<ge> cold_load_not_before sc \<and> now \<ge> dget_or (next_switch_attempt sc) (q_model_id item) 0
               else True)"

datatype AcquireOutcome = Granted Lease | Wait bool

text \<open>The \<^verbatim>\<open>try\<close> block of the head of the queue: admission, then the lease.\<close>

definition grant_ready ::
  "Scheduler \<Rightarrow> string \<Rightarrow> string \<Rightarrow> MemorySample \<Rightarrow> bool \<Rightarrow> string \<Rightarrow> time \<Rightarrow> (Book \<times> Lease) result" where
  "grant_ready sc mid rid s admitted uuid now =
     rbind (if admitted then can_admit_ready (book sc) mid s now else Inr False) (\<lambda>ok.
     rbind (raise_if (\<not> ok) (Conflict ''ready admission blocked'')) (\<lambda>_.
     acquire_ready (book sc) uuid mid rid now))"

definition needs_sample :: "Scheduler \<Rightarrow> string \<Rightarrow> string \<Rightarrow> Runtime \<Rightarrow> time \<Rightarrow> bool" where
  "needs_sample sc mid rid r now \<longleftrightarrow>
     rt_state r = UNLOADED \<and> mid \<notin> set (dkeys (loads sc)) \<and> eviction sc = None
     \<and> (switch_intent sc = None \<or> si_request_id (the (switch_intent sc)) = rid)
     \<and> now \<ge> dget_or (next_switch_attempt sc) mid 0"

definition acquire_head ::
  "string \<Rightarrow> string \<Rightarrow> string option \<Rightarrow> MemorySample \<Rightarrow> bool \<Rightarrow> string \<Rightarrow> time \<Rightarrow> Scheduler
     \<Rightarrow> Scheduler \<times> AcquireOutcome result" where
  "acquire_head mid rid sid s admitted uuid now sc =
     (case grant_ready sc mid rid s admitted uuid now of
        Inr (b, lease) \<Rightarrow>
          let sc1 = sc\<lparr>book := b, queue := fst (queue_remove rid CLAIMED (queue sc))\<rparr>
          in (case sid of None \<Rightarrow> sc1 | Some i \<Rightarrow> note_session_lease i lease sc1, Inr (Granted lease))
      | Inl e \<Rightarrow>
          (sc, if is_Conflict e
               then rbind (dlookup (runtime (book sc)) mid) (\<lambda>r.
                      if rt_state r = ERROR then Inl (ModelUnavailable (or_default (rt_last_error r) ''model_error''))
                      else Inr (Wait (needs_sample sc mid rid r now)))
               else Inl e))"

definition acquire_try ::
  "string \<Rightarrow> string \<Rightarrow> time \<Rightarrow> string option \<Rightarrow> MemorySample \<Rightarrow> bool \<Rightarrow> string \<Rightarrow> time \<Rightarrow> Scheduler
     \<Rightarrow> Scheduler \<times> AcquireOutcome result" where
  "acquire_try mid rid deadline sid s admitted uuid now sc0 =
     (case expire_switch_intent now sc0 of
        Inl e \<Rightarrow> (sc0, Inl e)
      | Inr sc \<Rightarrow>
          if shutting_down sc then (sc, Inl (ModelUnavailable ''service_shutting_down''))
          else if storage_unavailable sc then (sc, Inl (ModelUnavailable ''storage_unavailable''))
          else if now \<ge> deadline \<or> \<not> queue_contains rid (queue sc)
          then (sc\<lparr>queue := fst (queue_remove rid EXPIRED (queue sc))\<rparr>, Inl (TimeoutError ''queue deadline elapsed''))
          else case is_head rid now (Some (cold_request_eligible sc now)) None (queue sc) of
                 (q, False) \<Rightarrow> (sc\<lparr>queue := q\<rparr>, Inr (Wait False))
               | (q, True) \<Rightarrow> acquire_head mid rid sid s admitted uuid now (sc\<lparr>queue := q\<rparr>))"

text \<open>The section that starts a load or a switch for a cold model.\<close>

definition start_load ::
  "string \<Rightarrow> MemorySample \<Rightarrow> string \<Rightarrow> time \<Rightarrow> Scheduler \<Rightarrow> Scheduler result" where
  "start_load mid s uuid now sc =
     rbind (begin_load (book sc) uuid mid s now) (\<lambda>(b, oper).
       Inr (sc\<lparr>book := b, loads := dput mid oper (loads sc)\<rparr>))"

definition acquire_start ::
  "string \<Rightarrow> string \<Rightarrow> time \<Rightarrow> MemorySample \<Rightarrow> bool \<Rightarrow> (nat \<Rightarrow> string) \<Rightarrow> time \<Rightarrow> Scheduler \<Rightarrow> (Scheduler \<times> bool) result" where
  "acquire_start mid rid deadline s admitted fresh now sc =
     rbind (dlookup (runtime (book sc)) mid) (\<lambda>r.
     if admitted \<and> rt_state r = UNLOADED \<and> mid \<notin> set (dkeys (loads sc))
     then rbind (can_load (book sc) mid s now) (\<lambda>ok.
            if ok then rbind (start_load mid s (fresh 0) now sc) (\<lambda>sc'. Inr (sc', True))
            else if eviction sc = None then establish_or_advance_switch rid mid s deadline now fresh sc
            else Inr (sc, False))
     else Inr (sc, False))"

definition acquire_poll :: "time \<Rightarrow> time \<Rightarrow> unit result" where
  "acquire_poll deadline now = raise_if (deadline - now \<le> 0) (TimeoutError ''queue deadline elapsed'')"

definition acquire_exit :: "string \<Rightarrow> Scheduler \<Rightarrow> Scheduler result" where
  "acquire_exit rid sc = cancel_switch_intent rid (sc\<lparr>queue := fst (queue_remove rid CANCELLED (queue sc))\<rparr>)"

definition sched_release :: "Lease \<Rightarrow> Outcome \<Rightarrow> int option \<Rightarrow> time \<Rightarrow> Scheduler \<Rightarrow> Scheduler result" where
  "sched_release lease outcome tokens now sc =
     rbind (release (book sc) lease outcome now tokens) (\<lambda>(b, _).
       Inr (forget_session_lease (lease_id lease) (sc\<lparr>book := b\<rparr>)))"

definition sched_cancel :: "Lease \<Rightarrow> Scheduler \<Rightarrow> (Scheduler \<times> bool) result" where
  "sched_cancel lease sc = rbind (begin_cancel (book sc) lease) (\<lambda>(b, accepted). Inr (sc\<lparr>book := b\<rparr>, accepted))"

section \<open>Loads\<close>

definition record_cold_load :: "time \<Rightarrow> Scheduler \<Rightarrow> Scheduler" where
  "record_cold_load now sc =
     (let succ = dropWhile (\<lambda>t. now - t > switch_window_seconds sc) (switch_successes sc @ [now]);
          sc1 = sc\<lparr>switch_successes := succ\<rparr>
      in if int (length succ) \<ge> max_switches_in_window sc
         then sc1\<lparr>cold_load_not_before := max (cold_load_not_before sc)
                     (max (now + cooldown_seconds sc) (hd succ + switch_window_seconds sc))\<rparr>
         else sc1)"

definition emit :: "Event \<Rightarrow> Scheduler \<Rightarrow> Scheduler" where
  "emit e sc = sc\<lparr>events := events sc @ [e]\<rparr>"

text \<open>
  The first section of \<^verbatim>\<open>_finish_load\<close>; the flag asks for a recovery.  Its raises are caught by
  the second section.
\<close>

definition load_observed :: "Operation \<Rightarrow> Observation \<Rightarrow> time \<Rightarrow> Scheduler \<Rightarrow> (Scheduler \<times> bool) result" where
  "load_observed oper obs now sc =
     (if obs_presence obs = P_RUNNING \<and> obs_healthy obs
      then case loaded (book sc) oper now of
             Inr b \<Rightarrow> Inr (record_cold_load now (sc\<lparr>book := b\<rparr>), False)
           | Inl e \<Rightarrow> if is_StaleOperation e then Inr (emit (WritebackRejected ''load'' oper ''stale_operation'') sc, False) else Inl e
      else rbind (failed (book sc) oper (Some (or_default (obs_detail_code obs) ''load_unverified''))) (\<lambda>b.
             Inr (sc\<lparr>book := b\<rparr>, has_recovery sc \<and> \<not> recovering b)))"

definition load_exception :: "Operation \<Rightarrow> Scheduler \<Rightarrow> (Scheduler \<times> bool) result" where
  "load_exception oper sc =
     (case failed (book sc) oper (Some ''load_failed'') of
        Inr b \<Rightarrow> Inr (sc\<lparr>book := b\<rparr>, has_recovery sc \<and> \<not> recovering b)
      | Inl e \<Rightarrow> if is_StaleOperation e then Inr (sc, False) else Inl e)"

definition load_done :: "Operation \<Rightarrow> Scheduler \<Rightarrow> Scheduler" where
  "load_done oper sc = sc\<lparr>loads := ddel (op_model_id oper) (loads sc)\<rparr>"

text \<open>The three sections in sequence; \<open>None\<close> is a backend call that raised.\<close>

definition finish_load :: "Operation \<Rightarrow> Observation option \<Rightarrow> time \<Rightarrow> Scheduler \<Rightarrow> (Scheduler \<times> bool) result" where
  "finish_load oper obs now sc =
     rbind (case obs of
              None \<Rightarrow> load_exception oper sc
            | Some x \<Rightarrow> (case load_observed oper x now sc of
                          Inl e \<Rightarrow> load_exception oper sc
                        | Inr r \<Rightarrow> Inr r)) (\<lambda>(sc', recover).
     Inr (load_done oper sc', recover))"

section \<open>Stops\<close>

text \<open>\<^verbatim>\<open>_rollback_pending\<close>: a stale token is skipped.\<close>

fun rollback_pending :: "Operation list \<Rightarrow> Book \<Rightarrow> Book result" where
  "rollback_pending [] b = Inr b"
| "rollback_pending (oper # ops) b =
     (case rollback_unsent b oper of
        Inr b' \<Rightarrow> rollback_pending ops b'
      | Inl e \<Rightarrow> if is_StaleOperation e then rollback_pending ops b else Inl e)"

datatype StopOutcome = StopConfirmed | StopRejected | StopFailed

text \<open>
  The section of \<^verbatim>\<open>_finish_eviction\<close> after one stop call; \<open>None\<close> is a call that raised.  A
  failed stop gives up on the rest of the batch.
\<close>

definition stop_observed ::
  "Operation \<Rightarrow> Operation list \<Rightarrow> Observation option \<Rightarrow> time \<Rightarrow> Scheduler \<Rightarrow> (Scheduler \<times> StopOutcome) result" where
  "stop_observed oper rest obs now sc =
     (if \<exists>x. obs = Some x \<and> obs_presence x = P_STOPPED
      then case stopped (book sc) oper (Some now) of
             Inr b \<Rightarrow> Inr (sc\<lparr>book := b\<rparr>, StopConfirmed)
           | Inl e \<Rightarrow> if is_StaleOperation e then Inr (emit (WritebackRejected ''stop'' oper ''stale_operation'') sc, StopRejected) else Inl e
      else rbind (failed (book sc) oper (case obs of Some x \<Rightarrow> obs_detail_code x | None \<Rightarrow> Some ''stop_unverified'')) (\<lambda>b.
           rbind (rollback_pending rest b) (\<lambda>b'.
             Inr (sc\<lparr>book := b'\<rparr>, StopFailed))))"

text \<open>The section for a cancelled task.\<close>

definition stop_cancelled :: "Operation \<Rightarrow> Operation list \<Rightarrow> Scheduler \<Rightarrow> Scheduler result" where
  "stop_cancelled oper rest sc =
     rbind (failed (book sc) oper (Some ''stop_unverified'')) (\<lambda>b.
     rbind (rollback_pending rest b) (\<lambda>b'. Inr (sc\<lparr>book := b'\<rparr>)))"

definition eviction_done :: "Scheduler \<Rightarrow> Scheduler" where
  "eviction_done sc = sc\<lparr>eviction := None\<rparr>"

text \<open>
  A whole batch: \<open>obs i\<close> is what the backend answers to the \<open>i\<close>-th stop, \<open>now i\<close> the time at
  which it answers.  The result lists the models proven stopped.
\<close>

fun finish_eviction ::
  "(nat \<Rightarrow> Observation option) \<Rightarrow> (nat \<Rightarrow> time) \<Rightarrow> nat \<Rightarrow> Operation list \<Rightarrow> Scheduler \<Rightarrow> (Scheduler \<times> string list) result" where
  "finish_eviction obs now i [] sc = Inr (sc, [])"
| "finish_eviction obs now i (oper # ops) sc =
     rbind (stop_observed oper ops (obs i) (now i) sc) (\<lambda>(sc', out).
     case out of
       StopFailed \<Rightarrow> Inr (sc', [])
     | StopRejected \<Rightarrow> finish_eviction obs now (Suc i) ops sc'
     | StopConfirmed \<Rightarrow> rbind (finish_eviction obs now (Suc i) ops sc') (\<lambda>(sc'', ms).
                         Inr (sc'', op_model_id oper # ms)))"

definition run_eviction ::
  "(nat \<Rightarrow> Observation option) \<Rightarrow> (nat \<Rightarrow> time) \<Rightarrow> Operation list \<Rightarrow> Scheduler \<Rightarrow> (Scheduler \<times> string list) result" where
  "run_eviction obs now ops sc =
     rbind (finish_eviction obs now 0 ops sc) (\<lambda>(sc', ms). Inr (eviction_done sc', ms))"

section \<open>Recovery\<close>

definition abort_lease :: "time \<Rightarrow> Lease \<Rightarrow> Book \<Rightarrow> Book result" where
  "abort_lease now lease b = rbind (release b lease ABORTED now None) (\<lambda>(b', _). Inr b')"

definition abort_all_leases :: "time \<Rightarrow> Book \<Rightarrow> Book result" where
  "abort_all_leases now b = each (abort_lease now) (all_leases b) b"

definition recovery_abort_leases :: "time \<Rightarrow> time \<Rightarrow> Scheduler \<Rightarrow> Scheduler result" where
  "recovery_abort_leases deadline now sc =
     (if all_leases (book sc) \<noteq> [] \<and> deadline - now \<le> 0
      then rbind (abort_all_leases now (book sc)) (\<lambda>b. Inr (sc\<lparr>book := b\<rparr>))
      else Inr sc)"

definition recover_begin :: "Scheduler \<Rightarrow> (Scheduler \<times> int) result" where
  "recover_begin sc =
     rbind (raise_if (\<not> has_recovery sc) (ModelUnavailable ''control_recovery_unavailable'')) (\<lambda>_.
     rbind (raise_if (recovering (book sc)) (Conflict ''recovery_in_progress'')) (\<lambda>_.
     rbind (raise_if (\<exists>r \<in> set (dvals (runtime (book sc))). rt_leases r \<noteq> []) (Conflict ''recovery_has_leases'')) (\<lambda>_.
     let (b, ep) = begin_recovery (book sc) in Inr (sc\<lparr>book := b\<rparr>, ep))))"

definition recover_end :: "int \<Rightarrow> RecoveryResult \<Rightarrow> Scheduler \<Rightarrow> Scheduler result" where
  "recover_end ep result sc =
     rbind (raise_if (\<not> rec_ok result)
             (ModelUnavailable (or_default (rec_error_code result) ''control_recovery_failed''))) (\<lambda>_.
     case finish_recovery (book sc) ep (rec_stopped_models result) of
       Inr b \<Rightarrow> Inr (sc\<lparr>book := b\<rparr>)
     | Inl e \<Rightarrow> if is_Conflict e then Inl (ModelUnavailable ''control_recovery_incomplete'') else Inl e)"

section \<open>Preloading\<close>

datatype PreloadAction = PreloadReturn | PreloadVerify | PreloadRetry | PreloadSample bool

definition preload_check :: "string \<Rightarrow> bool \<Rightarrow> Scheduler \<Rightarrow> (Scheduler \<times> PreloadAction) result" where
  "preload_check mid loaded_here sc =
     rbind (raise_if (storage_unavailable sc) (ModelUnavailable ''storage_unavailable'')) (\<lambda>_.
     rbind (dlookup (runtime (book sc)) mid) (\<lambda>r.
     if rt_state r = READY
     then Inr (sc\<lparr>load_retries := ddel mid (load_retries sc)\<rparr>, if loaded_here then PreloadReturn else PreloadVerify)
     else if rt_state r = ERROR
     then rbind (raise_if (dget_or (load_retries sc) mid 0 \<ge> load_retry_limit sc)
                  (ModelUnavailable (or_default (rt_last_error r) ''preload_failed''))) (\<lambda>_.
            Inr (sc, PreloadRetry))
     else Inr (sc, PreloadSample (rt_state r = UNLOADED \<and> loads sc = [] \<and> eviction sc = None))))"

definition preload_idle :: "Runtime \<Rightarrow> Scheduler \<Rightarrow> bool" where
  "preload_idle r sc \<longleftrightarrow> rt_state r = UNLOADED \<and> loads sc = [] \<and> eviction sc = None"

text \<open>The result is \<^verbatim>\<open>(started_operation, eviction_blocked)\<close>.\<close>

definition preload_start ::
  "string \<Rightarrow> MemorySample \<Rightarrow> bool \<Rightarrow> string \<Rightarrow> time \<Rightarrow> Scheduler \<Rightarrow> (Scheduler \<times> bool \<times> bool) result" where
  "preload_start mid s admitted uuid now sc =
     rbind (dlookup (runtime (book sc)) mid) (\<lambda>r.
     if admitted \<and> preload_idle r sc
     then rbind (can_load (book sc) mid s now) (\<lambda>ok.
            if ok then rbind (start_load mid s uuid now sc) (\<lambda>sc'. Inr (sc', True, False))
            else Inr (sc, False, True))
     else Inr (sc, False, False))"

definition preload_evict ::
  "string \<Rightarrow> MemorySample \<Rightarrow> (nat \<Rightarrow> string) \<Rightarrow> time \<Rightarrow> Scheduler \<Rightarrow> (Scheduler \<times> bool) result" where
  "preload_evict mid s fresh now sc =
     rbind (dlookup (runtime (book sc)) mid) (\<lambda>r.
     if preload_idle r sc
     then rbind (load_deficit sc mid s) (\<lambda>deficit.
          rbind (policy_choose (book sc) (max_evictions sc) deficit now False) (\<lambda>cs.
          if cs = [] then Inr (sc, False)
          else rbind (begin_eviction (book sc) fresh (map ec_model_id cs) True) (\<lambda>(b, ops).
                 Inr (sc\<lparr>book := b, eviction := Some ops\<rparr>, True))))
     else Inr (sc, False))"

text \<open>
  An idle ERROR model is handed to the book's cleanup and the attempt is counted; \<open>None\<close> is the
  early return.
\<close>

definition reclaim_failed :: "string \<Rightarrow> (nat \<Rightarrow> string) \<Rightarrow> Scheduler \<Rightarrow> (Scheduler \<times> Operation list option) result" where
  "reclaim_failed mid fresh sc =
     rbind (dlookup (runtime (book sc)) mid) (\<lambda>r.
     if rt_state r \<noteq> ERROR \<or> rt_leases r \<noteq> [] \<or> truthy (rt_operation_id r) then Inr (sc, None)
     else case begin_cleanup (book sc) fresh [mid] of
            Inr (b, ops) \<Rightarrow> Inr (sc\<lparr>book := b, load_retries := dput mid (dget_or (load_retries sc) mid 0 + 1)
                                    (load_retries sc)\<rparr>, Some ops)
          | Inl e \<Rightarrow> if is_Conflict e then Inl (ModelUnavailable ''retry_reclaim_refused'') else Inl e)"

datatype Verdict = Unwitnessed | Alive | Gone | UnknownPresence

text \<open>
  The normalisation of \<^verbatim>\<open>_observe_runtime\<close>: \<^verbatim>\<open>presence\<close> first, then \<^verbatim>\<open>state\<close>; a missing
  \<^verbatim>\<open>healthy\<close> counts as true.  No \<^verbatim>\<open>observe\<close> method at all is \<open>Unwitnessed\<close>.
\<close>

definition presence_verdict :: "string option \<Rightarrow> string option \<Rightarrow> bool option \<Rightarrow> Verdict" where
  "presence_verdict presence state healthy =
     (let raw = (case presence of None \<Rightarrow> state | Some p \<Rightarrow> Some p)
      in if raw = Some ''running'' then (if healthy \<noteq> Some False then Alive else UnknownPresence)
         else if raw = Some ''stopped'' then Gone else UnknownPresence)"

text \<open>
  The section shared by \<^verbatim>\<open>_reclaim_phantom_residents\<close> and \<^verbatim>\<open>_reclaim_lost_runtime\<close> after a
  model was seen to be gone: the book's own stop transition.  The flag tells whether the
  reservation was released; \<open>refused\<close> is what the caller makes of a refused eviction.
\<close>

definition reclaim_gone ::
  "string \<Rightarrow> (Scheduler \<times> bool) result \<Rightarrow> (nat \<Rightarrow> string) \<Rightarrow> time \<Rightarrow> Scheduler \<Rightarrow> (Scheduler \<times> bool) result" where
  "reclaim_gone mid refused fresh now sc =
     rbind (dlookup (runtime (book sc)) mid) (\<lambda>r.
     if rt_state r \<noteq> READY \<or> rt_leases r \<noteq> [] \<or> truthy (rt_operation_id r) then Inr (sc, False)
     else case begin_eviction (book sc) fresh [mid] False of
            Inl e \<Rightarrow> if is_Conflict e then refused else Inl e
          | Inr (b, ops) \<Rightarrow> rbind (stopped b (hd ops) (Some now)) (\<lambda>b'. Inr (sc\<lparr>book := b'\<rparr>, True)))"

definition reclaim_phantom :: "string \<Rightarrow> (nat \<Rightarrow> string) \<Rightarrow> time \<Rightarrow> Scheduler \<Rightarrow> (Scheduler \<times> bool) result" where
  "reclaim_phantom mid fresh now sc = reclaim_gone mid (Inr (sc, False)) fresh now sc"

definition reclaim_lost_runtime ::
  "string \<Rightarrow> Verdict \<Rightarrow> (nat \<Rightarrow> string) \<Rightarrow> time \<Rightarrow> Scheduler \<Rightarrow> (Scheduler \<times> bool) result" where
  "reclaim_lost_runtime mid verdict fresh now sc =
     (case verdict of
        Unwitnessed \<Rightarrow> Inr (sc, False)
      | Alive \<Rightarrow> Inr (sc, False)
      | UnknownPresence \<Rightarrow> Inl (ModelUnavailable ''runtime_unverified'')
      | Gone \<Rightarrow> reclaim_gone mid (Inl (ModelUnavailable ''runtime_reclaim_refused'')) fresh now sc)"

text \<open>The models that \<^verbatim>\<open>_reclaim_phantom_residents\<close> asks the backend about.\<close>

definition phantom_suspects :: "string \<Rightarrow> Scheduler \<Rightarrow> string list" where
  "phantom_suspects keep sc =
     map fst (filter (\<lambda>(mid, r). \<not> (mid = keep \<or> rt_reservation r \<le> 0 \<or> rt_leases r \<noteq> [] \<or> truthy (rt_operation_id r))
                                \<and> rt_state r = READY) (runtime (book sc)))"

section \<open>Shutdown, storage, unload, TTL\<close>

definition open_sessions :: "SessionManager \<Rightarrow> string list" where
  "open_sessions sm = map fst (filter (\<lambda>(sid, r). s_phase r \<noteq> CLOSED) (records sm))"

definition drain_one :: "time \<Rightarrow> string \<Rightarrow> Scheduler \<Rightarrow> Scheduler result" where
  "drain_one now sid sc =
     rbind (begin_drain (sessions sc) sid now ''service_shutdown'') (\<lambda>sm.
       Inr (release_session_freeze sid (sc\<lparr>sessions := sm\<rparr>)))"

definition shutdown_begin :: "time \<Rightarrow> Scheduler \<Rightarrow> Scheduler result" where
  "shutdown_begin now sc =
     each (drain_one now) (open_sessions (sessions sc))
       (sc\<lparr>shutting_down := True, queue := fst (queue_clear CANCELLED (queue sc))\<rparr>)"

definition cleanup_targets :: "Book \<Rightarrow> string list" where
  "cleanup_targets b = map fst (filter (\<lambda>(mid, r). rt_state r \<in> {READY, ERROR} \<and> rt_leases r = []) (runtime b))"

text \<open>
  The shared tail of \<^verbatim>\<open>shutdown\<close> and \<^verbatim>\<open>storage_lost\<close>: every lease is aborted, and unless a batch
  is already running all idle models are handed to one cleanup batch.  The section of the code
  assigns before it may raise, so the state is returned with the raise.
\<close>

definition stop_everything :: "(nat \<Rightarrow> string) \<Rightarrow> time \<Rightarrow> Scheduler \<Rightarrow> Scheduler \<times> unit result" where
  "stop_everything fresh now sc =
     (case abort_all_leases now (book sc) of
        Inl e \<Rightarrow> (sc, Inl e)
      | Inr b \<Rightarrow>
          let sc1 = sc\<lparr>book := b\<rparr>
          in if eviction sc \<noteq> None \<or> cleanup_targets b = [] then (sc1, Inr ())
             else case begin_cleanup b fresh (cleanup_targets b) of
                    Inl e \<Rightarrow> (sc1, Inl e)
                  | Inr (b', ops) \<Rightarrow> (sc1\<lparr>book := b', eviction := Some ops\<rparr>, Inr ()))"

definition storage_lost :: "(nat \<Rightarrow> string) \<Rightarrow> time \<Rightarrow> Scheduler \<Rightarrow> Scheduler \<times> unit result" where
  "storage_lost fresh now sc =
     (if storage_unavailable sc then (sc, Inr ())
      else stop_everything fresh now (sc\<lparr>storage_unavailable := True, queue := fst (queue_clear CANCELLED (queue sc))\<rparr>))"

definition storage_reopen :: "Scheduler \<Rightarrow> Scheduler" where
  "storage_reopen sc = sc\<lparr>storage_unavailable := False\<rparr>"

text \<open>\<open>None\<close> is the early return for a model that is already unloaded.\<close>

definition unload_begin :: "string \<Rightarrow> (nat \<Rightarrow> string) \<Rightarrow> Scheduler \<Rightarrow> (Scheduler \<times> Operation option) result" where
  "unload_begin mid fresh sc =
     rbind (raise_if (mid \<notin> set (dkeys (specs (book sc)))) (KeyError mid)) (\<lambda>_.
     rbind (dlookup (runtime (book sc)) mid) (\<lambda>r.
     rbind (dlookup (ledger (book sc)) mid) (\<lambda>l.
     rbind (raise_if (ls_pinned l) (Conflict ''model_pinned'')) (\<lambda>_.
     if rt_state r = UNLOADED then Inr (sc, None)
     else rbind (raise_if (eviction sc \<noteq> None \<or> rt_leases r \<noteq> [] \<or> truthy (rt_operation_id r) \<or> rt_state r \<noteq> READY)
                  (Conflict ''model_busy'')) (\<lambda>_.
          rbind (begin_eviction (book sc) fresh [mid] False) (\<lambda>(b, ops).
            Inr (sc\<lparr>book := b, eviction := Some [hd ops]\<rparr>, Some (hd ops))))))))"

definition unload_end :: "string \<Rightarrow> string list \<Rightarrow> unit result" where
  "unload_end mid stopped_models = raise_if (mid \<notin> set stopped_models) (ModelUnavailable ''stop_unverified'')"

definition ttl_targets :: "time \<Rightarrow> Scheduler \<Rightarrow> string list" where
  "ttl_targets now sc =
     filter (\<lambda>mid. mid \<notin> waiting_models (queue sc) \<and> ttl_due (book sc) mid now = Inr True) (dkeys (specs (book sc)))"

definition sweep_ttl :: "(nat \<Rightarrow> string) \<Rightarrow> time \<Rightarrow> Scheduler \<Rightarrow> Scheduler result" where
  "sweep_ttl fresh now sc =
     (if eviction sc \<noteq> None \<or> ttl_targets now sc = [] then Inr sc
      else rbind (begin_eviction (book sc) fresh (ttl_targets now sc) True) (\<lambda>(b, ops).
             Inr (sc\<lparr>book := b, eviction := Some ops\<rparr>)))"

section \<open>Exclusive sessions\<close>

definition exclusive_conflict :: "Scheduler \<Rightarrow> string option" where
  "exclusive_conflict sc =
     (if \<exists>l \<in> set (dvals (ledger (book sc))). ls_pinned l \<or> ls_preload l then Some ''pinned_or_preload_conflict'' else None)"

definition register_check :: "Scheduler \<Rightarrow> string \<Rightarrow> unit result" where
  "register_check sc mid =
     rbind (raise_if (mid \<notin> set (dkeys (specs (book sc)))) (KeyError mid)) (\<lambda>_.
     rbind (raise_if (shutting_down sc) (ModelUnavailable ''service_shutting_down'')) (\<lambda>_.
     rbind (raise_if (storage_unavailable sc) (ModelUnavailable ''storage_unavailable'')) (\<lambda>_.
     case exclusive_conflict sc of None \<Rightarrow> Inr () | Some c \<Rightarrow> Inl (SessionConflict c))))"

definition register_session ::
  "string \<Rightarrow> string \<Rightarrow> string \<Rightarrow> int \<Rightarrow> time option \<Rightarrow> time \<Rightarrow> Scheduler \<Rightarrow> Scheduler \<times> SessionView result" where
  "register_session mid cid sid priority hard now sc =
     (case register_check sc mid of
        Inl e \<Rightarrow> (sc, Inl e)
      | Inr _ \<Rightarrow>
          case session_create (sessions sc) (queue sc) sid mid cid now priority hard of
            (sm, q, Inl e) \<Rightarrow> (sc\<lparr>sessions := sm, queue := q\<rparr>, Inl e)
          | (sm, q, Inr r) \<Rightarrow> (sc\<lparr>sessions := sm, queue := q\<rparr>, session_view sm sid now))"

text \<open>One round of the wait of \<^verbatim>\<open>open_session\<close>: \<open>None\<close> goes on waiting.\<close>

definition open_session_poll :: "string \<Rightarrow> time \<Rightarrow> time \<Rightarrow> Scheduler \<Rightarrow> SessionView option result" where
  "open_session_poll sid wait_until now sc =
     rbind (session_get (sessions sc) sid) (\<lambda>r.
     if s_phase r = ACTIVE then rbind (session_view (sessions sc) sid now) (\<lambda>v. Inr (Some v))
     else if s_phase r = CLOSED then Inl (SessionConflict ''session_closed'')
     else if s_phase r = BLOCKED then Inl (ModelUnavailable ''session_blocked'')
     else rbind (raise_if (min wait_until (preparation_expired_at r) - now \<le> 0) (TimeoutError ''session_wait_deadline'')) (\<lambda>_.
            Inr None))"

definition heartbeat_session :: "string \<Rightarrow> time \<Rightarrow> Scheduler \<Rightarrow> (Scheduler \<times> SessionView) result" where
  "heartbeat_session sid now sc =
     rbind (heartbeat (sessions sc) sid now) (\<lambda>sm.
     rbind (session_view sm sid now) (\<lambda>v. Inr (sc\<lparr>sessions := sm\<rparr>, v)))"

definition close_session_begin :: "string \<Rightarrow> string \<Rightarrow> time \<Rightarrow> Scheduler \<Rightarrow> Scheduler result" where
  "close_session_begin sid reason now sc =
     rbind (session_get (sessions sc) sid) (\<lambda>r.
     if s_phase r = CLOSED then Inr sc
     else rbind (begin_drain (sessions sc) sid now reason) (\<lambda>sm.
            Inr (sc\<lparr>sessions := sm, queue := fst (queue_remove sid CANCELLED (queue sc))\<rparr>)))"

definition close_session_poll :: "string \<Rightarrow> time option \<Rightarrow> time \<Rightarrow> Scheduler \<Rightarrow> SessionView option result" where
  "close_session_poll sid deadline now sc =
     rbind (session_get (sessions sc) sid) (\<lambda>r.
     if s_phase r \<in> {CLOSED, BLOCKED} \<or> (\<exists>d. deadline = Some d \<and> now \<ge> d)
     then rbind (session_view (sessions sc) sid now) (\<lambda>v. Inr (Some v)) else Inr None)"

datatype SessionPlan = PlanExpire string | PlanReconcile string | PlanPrepare string | PlanClose string

definition next_session_plan :: "time \<Rightarrow> Scheduler \<Rightarrow> Scheduler \<times> SessionPlan option" where
  "next_session_plan now sc =
     (case sessions_expired (sessions sc) now of
        r # _ \<Rightarrow> (if s_phase r = PREPARING
                   then sc\<lparr>queue := fst (queue_remove (s_session_id r) EXPIRED (queue sc))\<rparr> else sc,
                  Some (PlanExpire (s_session_id r)))
      | [] \<Rightarrow>
          case blocked_due (sessions sc) now of
            r # _ \<Rightarrow> (sc, Some (PlanReconcile (s_session_id r)))
          | [] \<Rightarrow>
              case queue_head now (Some (\<lambda>item. session_candidate (sessions sc) (q_request_id item) now \<noteq> None))
                     (Some SESSION) (queue sc) of
                (q, Some item) \<Rightarrow> (sc\<lparr>queue := q\<rparr>, Some (PlanPrepare (q_request_id item)))
              | (q, None) \<Rightarrow>
                  (sc\<lparr>queue := q\<rparr>,
                   case filter (\<lambda>r. s_phase r = DRAINING) (dvals (records (sessions sc))) of
                     r # _ \<Rightarrow> Some (PlanClose (s_session_id r))
                   | [] \<Rightarrow> None))"

definition expire_session :: "string \<Rightarrow> time \<Rightarrow> Scheduler \<Rightarrow> Scheduler result" where
  "expire_session sid now sc =
     rbind (session_get (sessions sc) sid) (\<lambda>r.
     if s_phase r = PREPARING
     then rbind (mark_closed (sessions sc) sid now) (\<lambda>sm.
            Inr (release_session_freeze sid
                   (sc\<lparr>sessions := sm, queue := fst (queue_remove sid EXPIRED (queue sc))\<rparr>)))
     else rbind (begin_drain (sessions sc) sid now ''expired'') (\<lambda>sm. Inr (sc\<lparr>sessions := sm\<rparr>)))"

text \<open>\<open>False\<close> is the early return of a session that is no longer preparing.\<close>

definition prepare_begin :: "string \<Rightarrow> Scheduler \<Rightarrow> (Scheduler \<times> bool) result" where
  "prepare_begin sid sc =
     rbind (session_get (sessions sc) sid) (\<lambda>r.
     if s_phase r \<noteq> PREPARING then Inr (sc, False) else Inr (sc\<lparr>session_freeze := Some sid\<rparr>, True))"

definition leases_drained :: "Scheduler \<Rightarrow> bool" where
  "leases_drained sc \<longleftrightarrow> (\<forall>r \<in> set (dvals (runtime (book sc))). rt_leases r = [])"

definition prepare_yield :: "string \<Rightarrow> time \<Rightarrow> Scheduler \<Rightarrow> Scheduler result" where
  "prepare_yield sid now sc =
     rbind (yield_prepare (sessions sc) sid now) (\<lambda>sm. Inr (release_session_freeze sid (sc\<lparr>sessions := sm\<rparr>)))"

definition prepare_blocked :: "string \<Rightarrow> time \<Rightarrow> Scheduler \<Rightarrow> Scheduler result" where
  "prepare_blocked sid now sc =
     rbind (mark_blocked (sessions sc) sid now ''prepare_unconfirmed'') (\<lambda>sm. Inr (sc\<lparr>sessions := sm\<rparr>))"

definition prepare_finish :: "string \<Rightarrow> time \<Rightarrow> Scheduler \<Rightarrow> (Scheduler \<times> bool) result" where
  "prepare_finish sid now sc =
     rbind (session_get (sessions sc) sid) (\<lambda>r.
     if s_phase r = PREPARING
     then rbind (mark_active (sessions sc) sid now) (\<lambda>sm.
            Inr (sc\<lparr>sessions := sm, queue := fst (queue_remove sid GRANTED (queue sc))\<rparr>, True))
     else Inr (sc, False))"

definition session_closed :: "string \<Rightarrow> time \<Rightarrow> Scheduler \<Rightarrow> Scheduler result" where
  "session_closed sid now sc =
     rbind (mark_closed (sessions sc) sid now) (\<lambda>sm. Inr (release_session_freeze sid (sc\<lparr>sessions := sm\<rparr>)))"

definition session_leases_drained :: "string \<Rightarrow> Scheduler \<Rightarrow> bool result" where
  "session_leases_drained sid sc =
     rbind (session_get (sessions sc) sid) (\<lambda>r.
     if dget_or (session_leases sc) sid [] \<noteq> [] then Inr False
     else rbind (has_leases (book sc) (s_model_id r)) (\<lambda>l. Inr (\<not> l)))"

definition drain_finish :: "string \<Rightarrow> bool \<Rightarrow> time \<Rightarrow> Scheduler \<Rightarrow> Scheduler result" where
  "drain_finish sid confirmed now sc =
     (if confirmed then session_closed sid now sc
      else rbind (mark_blocked (sessions sc) sid now ''stop_unconfirmed'') (\<lambda>sm. Inr (sc\<lparr>sessions := sm\<rparr>)))"

definition stop_other_targets :: "string \<Rightarrow> Scheduler \<Rightarrow> string list" where
  "stop_other_targets keep sc =
     map fst (filter (\<lambda>(mid, r). mid \<noteq> keep \<and> rt_state r \<in> {READY, ERROR} \<and> rt_leases r = []) (runtime (book sc)))"

fun stop_targets :: "Book \<Rightarrow> string list \<Rightarrow> string list result" where
  "stop_targets b [] = Inr []"
| "stop_targets b (mid # mids) =
     rbind (dlookup (runtime b) mid) (\<lambda>r. rbind (stop_targets b mids) (\<lambda>ts.
       Inr (if rt_state r \<in> {READY, ERROR} \<and> rt_leases r = [] then mid # ts else ts)))"

text \<open>
  \<^verbatim>\<open>_stop_models\<close>: it joins a running batch, has nothing to do, or starts a batch of its own.
\<close>

datatype StopPlan = StopBorrowed | StopNothing | StopBatch "Operation list"

definition stop_models_begin :: "string list \<Rightarrow> (nat \<Rightarrow> string) \<Rightarrow> Scheduler \<Rightarrow> (Scheduler \<times> StopPlan) result" where
  "stop_models_begin mids fresh sc =
     (if eviction sc \<noteq> None then Inr (sc, StopBorrowed)
      else rbind (stop_targets (book sc) mids) (\<lambda>ts.
        if ts = [] then Inr (sc, StopNothing)
        else rbind (begin_cleanup (book sc) fresh ts) (\<lambda>(b, ops).
               Inr (sc\<lparr>book := b, eviction := Some ops\<rparr>, StopBatch ops))))"

fun all_unloaded :: "Book \<Rightarrow> string list \<Rightarrow> bool result" where
  "all_unloaded b [] = Inr True"
| "all_unloaded b (mid # mids) =
     rbind (dlookup (runtime b) mid) (\<lambda>r. if rt_state r = UNLOADED then all_unloaded b mids else Inr False)"

text \<open>The value that \<^verbatim>\<open>_stop_models\<close> returns once the batch it waited for is over.\<close>

definition stop_models_confirmed :: "string list \<Rightarrow> StopPlan \<Rightarrow> Scheduler \<Rightarrow> bool result" where
  "stop_models_confirmed mids plan sc =
     (case plan of StopBorrowed \<Rightarrow> Inr True | StopNothing \<Rightarrow> Inr True | StopBatch _ \<Rightarrow> all_unloaded (book sc) mids)"

end
