(* ===== verification/Scheduler_Machine.thy ===== *)
theory Scheduler_Machine
  imports Scheduler
begin

text \<open>
  The scheduler as a machine whose steps are its critical sections, in any interleaving, and its
  refinement of the machines of its three components: each section is a run of book operations,
  of queue operations and of session operations.
\<close>

section \<open>Sections as runs of the components\<close>

text \<open>A book operation that leaves no lease that was not there; \<open>g\<close> lifts the restriction.\<close>

definition quiet_step :: "bool \<Rightarrow> book_run \<Rightarrow> book_run \<Rightarrow> bool" where
  "quiet_step g s s' \<longleftrightarrow> book_step s s' \<and> (g \<or> set (all_leases (fst s')) \<subseteq> set (all_leases (fst s)))"

text \<open>
  \<open>book_sim g new b b'\<close>: a run of the book leads from \<open>b\<close> to \<open>b'\<close>, whatever identifiers were
  drawn before, drawing only identifiers of \<open>new\<close> and granting no lease unless \<open>g\<close>.
\<close>

definition book_sim :: "bool \<Rightarrow> string set \<Rightarrow> Book \<Rightarrow> Book \<Rightarrow> bool" where
  "book_sim g new b b' \<longleftrightarrow>
     (\<forall>u. new \<inter> u = {} \<and> [] \<notin> new \<longrightarrow> (\<exists>u'. u' \<subseteq> new \<union> u \<and> (quiet_step g)\<^sup>*\<^sup>* (b, u) (b', u')))"

lemma book_sim_refl [simp, intro]: "book_sim g new b b"
  unfolding book_sim_def by (intro allI impI, rule_tac x = u in exI) simp

lemma book_sim_step:
  assumes "\<And>u. new \<inter> u = {} \<Longrightarrow> [] \<notin> new \<Longrightarrow> \<exists>u'. u' \<subseteq> new \<union> u \<and> book_step (b, u) (b', u')"
    and "g \<or> set (all_leases b') \<subseteq> set (all_leases b)"
  shows "book_sim g new b b'"
  unfolding book_sim_def
proof (intro allI impI, elim conjE)
  fix u assume "new \<inter> u = {}" "[] \<notin> new"
  from assms(1) [OF this] obtain u' where "u' \<subseteq> new \<union> u" "book_step (b, u) (b', u')" by blast
  with assms(2) show "\<exists>u'. u' \<subseteq> new \<union> u \<and> (quiet_step g)\<^sup>*\<^sup>* (b, u) (b', u')"
    by (intro exI [of _ u'] conjI r_into_rtranclp) (simp_all add: quiet_step_def)
qed

lemma quiet_run: "(quiet_step g)\<^sup>*\<^sup>* s s' \<Longrightarrow> book_step\<^sup>*\<^sup>* s s'"
  by (erule rtranclp_mono [THEN predicate2D, rotated]) (auto simp: quiet_step_def)

lemma quiet_leases: "(quiet_step False)\<^sup>*\<^sup>* s s' \<Longrightarrow> set (all_leases (fst s')) \<subseteq> set (all_leases (fst s))"
  by (induction rule: rtranclp_induct) (auto simp: quiet_step_def)

lemma book_simE:
  assumes "book_sim g new b b'" and "new \<inter> u = {}" and "[] \<notin> new"
  obtains u' where "u' \<subseteq> new \<union> u" "(quiet_step g)\<^sup>*\<^sup>* (b, u) (b', u')"
proof -
  have "\<exists>u'. u' \<subseteq> new \<union> u \<and> (quiet_step g)\<^sup>*\<^sup>* (b, u) (b', u')"
    using assms(1) [unfolded book_sim_def, rule_format, of u] assms(2,3) by simp
  then show thesis by (elim exE conjE) (rule that)
qed

lemma book_simI:
  assumes "\<And>u. new \<inter> u = {} \<Longrightarrow> [] \<notin> new \<Longrightarrow> \<exists>u'. u' \<subseteq> new \<union> u \<and> (quiet_step g)\<^sup>*\<^sup>* (b, u) (b', u')"
  shows "book_sim g new b b'"
  unfolding book_sim_def by (intro allI impI, elim conjE) (rule assms)

lemma book_sim_trans:
  assumes "book_sim g new a b" and "book_sim g {} b c"
  shows "book_sim g new a c"
proof (rule book_simI)
  fix u assume "new \<inter> u = {}" "[] \<notin> new"
  with assms(1) obtain u' where u': "u' \<subseteq> new \<union> u" "(quiet_step g)\<^sup>*\<^sup>* (a, u) (b, u')" by (rule book_simE)
  from assms(2) obtain u'' where u'': "u'' \<subseteq> {} \<union> u'" "(quiet_step g)\<^sup>*\<^sup>* (b, u') (c, u'')" by (rule book_simE) simp_all
  from u'(1) u''(1) have "u'' \<subseteq> new \<union> u" by blast
  with rtranclp_trans [OF u'(2) u''(2)] show "\<exists>u'. u' \<subseteq> new \<union> u \<and> (quiet_step g)\<^sup>*\<^sup>* (a, u) (c, u')" by (intro exI conjI)
qed

lemma book_sim_trans':
  assumes "book_sim g {} a b" and "book_sim g new b c"
  shows "book_sim g new a c"
proof (rule book_simI)
  fix u assume new: "new \<inter> u = {}" "[] \<notin> new"
  from assms(1) obtain u' where u': "u' \<subseteq> {} \<union> u" "(quiet_step g)\<^sup>*\<^sup>* (a, u) (b, u')" by (rule book_simE) simp_all
  with new(1) have "new \<inter> u' = {}" by blast
  with assms(2) obtain u'' where u'': "u'' \<subseteq> new \<union> u'" "(quiet_step g)\<^sup>*\<^sup>* (b, u') (c, u'')" using new(2) by (rule book_simE)
  from u'(1) u''(1) have "u'' \<subseteq> new \<union> u" by blast
  with rtranclp_trans [OF u'(2) u''(2)] show "\<exists>u'. u' \<subseteq> new \<union> u \<and> (quiet_step g)\<^sup>*\<^sup>* (a, u) (c, u')" by (intro exI conjI)
qed

lemma book_sim_mono:
  assumes "book_sim g new b b'" and "new \<subseteq> new'"
  shows "book_sim g new' b b'"
proof (rule book_simI)
  fix u assume "new' \<inter> u = {}" "[] \<notin> new'"
  with assms(2) have "new \<inter> u = {}" "[] \<notin> new" by blast+
  with assms(1) obtain u' where u': "u' \<subseteq> new \<union> u" "(quiet_step g)\<^sup>*\<^sup>* (b, u) (b', u')" by (rule book_simE)
  from u'(1) assms(2) have "u' \<subseteq> new' \<union> u" by blast
  with u'(2) show "\<exists>u'. u' \<subseteq> new' \<union> u \<and> (quiet_step g)\<^sup>*\<^sup>* (b, u) (b', u')" by (intro exI conjI)
qed

subsection \<open>Leases under the operations of the book\<close>

lemma all_leases_iff: "x \<in> set (all_leases b) \<longleftrightarrow> (\<exists>mid r. (mid, r) \<in> set (runtime b) \<and> x \<in> set (dvals (rt_leases r)))"
  by (force simp: all_leases_def)

lemma all_leases_upd:
  assumes "\<And>r. set (dvals (rt_leases (f r))) \<subseteq> set (dvals (rt_leases r))"
  shows "set (all_leases (upd_rt mid f b)) \<subseteq> set (all_leases b)"
proof
  fix x assume "x \<in> set (all_leases (upd_rt mid f b))"
  then obtain m r where m: "(m, r) \<in> set (runtime (upd_rt mid f b))" "x \<in> set (dvals (rt_leases r))"
    unfolding all_leases_iff by blast
  from m(1) obtain r0 where r0: "(m, r0) \<in> set (runtime b)" "r = r0 \<or> r = f r0"
    by (auto simp: upd_rt_def dmodify_def)
  with m(2) assms [of r0] have "x \<in> set (dvals (rt_leases r0))" by blast
  with r0(1) show "x \<in> set (all_leases b)" unfolding all_leases_iff by blast
qed

lemma all_leases_same:
  assumes "\<And>r. rt_leases (f r) = rt_leases r"
  shows "all_leases (upd_rt mid f b) = all_leases b"
proof -
  have "concat (map (\<lambda>(m, r). dvals (rt_leases r)) (dmodify mid f d)) = concat (map (\<lambda>(m, r). dvals (rt_leases r)) d)" for d
    by (induction d) (auto simp: dmodify_def assms)
  then show ?thesis by (simp add: all_leases_def upd_rt_def)
qed

lemma all_leases_release:
  assumes "release b lease out now tok = Inr (b', ok)"
  shows "set (all_leases b') \<subseteq> set (all_leases b)"
proof -
  have "b' = b \<or> b' = upd_rt (lease_model_id lease) (release_rt b lease out now tok) b"
    using assms by (auto simp: release_def split: if_splits)
  moreover have "set (dvals (rt_leases (release_rt b lease out now tok r))) \<subseteq> set (dvals (rt_leases r))" for r
    using release_rt_leases by (auto simp: set_ddel)
  note all_leases_upd [of "release_rt b lease out now tok" "lease_model_id lease" b, OF this]
  ultimately show ?thesis by auto
qed

lemma all_leases_stops: "begin_stops fresh i mids b = Inr (b', ops) \<Longrightarrow> set (all_leases b') \<subseteq> set (all_leases b)"
proof (induction mids arbitrary: b i b' ops)
  case (Cons mid mids)
  let ?f = "\<lambda>r. r\<lparr>rt_state := EVICTING, rt_admission_blocked := True, rt_operation_id := Some (fresh i)\<rparr>"
  from Cons.prems obtain ops' where "begin_stops fresh (Suc i) mids (upd_rt mid ?f b) = Inr (b', ops')" by auto
  from Cons.IH [OF this] all_leases_upd [of ?f mid b] show ?case by auto
qed simp

lemma all_leases_unfreeze: "unfreeze_switch mids b = Inr b' \<Longrightarrow> set (all_leases b') \<subseteq> set (all_leases b)"
proof (induction mids arbitrary: b)
  case (Cons mid mids)
  let ?f = "\<lambda>r. r\<lparr>rt_admission_blocked := False\<rparr>"
  from Cons.prems obtain c where "unfreeze_switch mids c = Inr b'" "c = b \<or> c = upd_rt mid ?f b"
    by (auto split: if_splits)
  with Cons.IH [of c] all_leases_upd [of ?f mid b] show ?case by auto
qed simp

lemma all_leases_freeze: "set (all_leases (fold (\<lambda>mid. upd_rt mid (\<lambda>r. r\<lparr>rt_admission_blocked := True\<rparr>)) mids b)) \<subseteq> set (all_leases b)"
proof (induction mids arbitrary: b)
  case (Cons mid mids)
  let ?f = "\<lambda>r. r\<lparr>rt_admission_blocked := True\<rparr>"
  from Cons.IH [of "upd_rt mid ?f b"] all_leases_upd [of ?f mid b] show ?case by auto
qed simp

lemma all_leases_map:
  assumes "\<And>r. rt_leases (f r) = rt_leases r" and "runtime b' = map (\<lambda>(mid, r). (mid, f r)) (runtime b)"
  shows "all_leases b' = all_leases b"
proof -
  have "concat (map (\<lambda>(m, r). dvals (rt_leases r)) (map (\<lambda>(mid, r). (mid, f r)) d))
      = concat (map (\<lambda>(m, r). dvals (rt_leases r)) d)" for d
    by (induction d) (auto simp: assms(1))
  then show ?thesis by (simp add: all_leases_def assms(2) del: map_map)
qed

lemma all_leases_ops:
  "bootstrap_stopped b mid = Inr b' \<Longrightarrow> set (all_leases b') \<subseteq> set (all_leases b)"
  "loaded b oper now = Inr b' \<Longrightarrow> set (all_leases b') \<subseteq> set (all_leases b)"
  "failed b oper code = Inr b' \<Longrightarrow> set (all_leases b') \<subseteq> set (all_leases b)"
  "begin_cancel b lease = Inr (b', ok) \<Longrightarrow> set (all_leases b') \<subseteq> set (all_leases b)"
  "freeze_for_switch b mids = Inr b' \<Longrightarrow> set (all_leases b') \<subseteq> set (all_leases b)"
  "rollback_unsent b oper = Inr b' \<Longrightarrow> set (all_leases b') \<subseteq> set (all_leases b)"
  "stopped b oper tm = Inr b' \<Longrightarrow> set (all_leases b') \<subseteq> set (all_leases b)"
  "begin_recovery b = (b', ep) \<Longrightarrow> set (all_leases b') \<subseteq> set (all_leases b)"
  "finish_recovery b ep ids = Inr b' \<Longrightarrow> set (all_leases b') \<subseteq> set (all_leases b)"
  "begin_load b uuid mid s now = Inr (b', oper') \<Longrightarrow> set (all_leases b') \<subseteq> set (all_leases b)"
proof -
  show "bootstrap_stopped b mid = Inr b' \<Longrightarrow> set (all_leases b') \<subseteq> set (all_leases b)"
    by (auto simp: bootstrap_stopped_def all_leases_same)
  show "loaded b oper now = Inr b' \<Longrightarrow> set (all_leases b') \<subseteq> set (all_leases b)"
    by (auto simp: loaded_def all_leases_same)
  show "failed b oper code = Inr b' \<Longrightarrow> set (all_leases b') \<subseteq> set (all_leases b)"
    by (auto simp: failed_def all_leases_same)
  show "begin_cancel b lease = Inr (b', ok) \<Longrightarrow> set (all_leases b') \<subseteq> set (all_leases b)"
    by (auto simp: begin_cancel_def all_leases_same split: if_splits)
  show "freeze_for_switch b mids = Inr b' \<Longrightarrow> set (all_leases b') \<subseteq> set (all_leases b)"
    using all_leases_freeze by (auto simp: freeze_for_switch_def)
  show "rollback_unsent b oper = Inr b' \<Longrightarrow> set (all_leases b') \<subseteq> set (all_leases b)"
    by (auto simp: rollback_unsent_def all_leases_same)
  show "stopped b oper tm = Inr b' \<Longrightarrow> set (all_leases b') \<subseteq> set (all_leases b)"
    by (auto simp: stopped_def all_leases_same)
  show "begin_recovery b = (b', ep) \<Longrightarrow> set (all_leases b') \<subseteq> set (all_leases b)"
    using all_leases_map [of fence_rt b' b] by (auto simp: begin_recovery_eq fence_rt_def Let_def split: if_splits)
  show "finish_recovery b ep ids = Inr b' \<Longrightarrow> set (all_leases b') \<subseteq> set (all_leases b)"
    using all_leases_map [of clear_rt b' b] by (auto dest!: finish_recoveryD(5) simp: clear_rt_def)
  show "begin_load b uuid mid s now = Inr (b', oper') \<Longrightarrow> set (all_leases b') \<subseteq> set (all_leases b)"
    by (auto simp: begin_load_def all_leases_same)
qed

lemma book_sim_ops:
  "bootstrap_stopped b mid = Inr b' \<Longrightarrow> book_sim g new b b'"
  "loaded b oper now = Inr b' \<Longrightarrow> book_sim g new b b'"
  "failed b oper code = Inr b' \<Longrightarrow> book_sim g new b b'"
  "release b lease out now tok = Inr (b', ok) \<Longrightarrow> book_sim g new b b'"
  "begin_cancel b lease = Inr (b', ok) \<Longrightarrow> book_sim g new b b'"
  "freeze_for_switch b mids = Inr b' \<Longrightarrow> book_sim g new b b'"
  "unfreeze_switch mids b = Inr b' \<Longrightarrow> book_sim g new b b'"
  "rollback_unsent b oper = Inr b' \<Longrightarrow> book_sim g new b b'"
  "stopped b oper t = Inr b' \<Longrightarrow> book_sim g new b b'"
  "begin_recovery b = (b', ep) \<Longrightarrow> book_sim g new b b'"
  "finish_recovery b ep ids = Inr b' \<Longrightarrow> book_sim g new b b'"
  by (rule book_sim_step, blast intro: book_step.intros,
      rule disjI2, (erule all_leases_ops | erule all_leases_release | erule all_leases_unfreeze))+

lemmas book_sim_dests = book_sim_ops [where new = "{}"]

lemma book_sim_load: "begin_load b uuid mid s now = Inr (b', oper) \<Longrightarrow> uuid \<in> new \<Longrightarrow> book_sim g new b b'"
  by (rule book_sim_step, intro exI conjI, erule_tac [2] bs_load [rotated])
    (auto simp: fresh_id_def dest: all_leases_ops(10))

lemma book_sim_acquire: "acquire_ready b uuid mid rid now = Inr (b', lease) \<Longrightarrow> uuid \<in> new \<Longrightarrow> book_sim True new b b'"
  by (rule book_sim_step, intro exI conjI, erule_tac [2] bs_acquire [rotated]) (auto simp: fresh_id_def)

lemma fresh_range:
  assumes "range fresh \<subseteq> new" and "new \<inter> u = {}" and "[] \<notin> new"
  shows "\<forall>i. fresh_id u (fresh i)"
proof
  fix i
  have "fresh i \<in> new" using assms(1) by blast
  with assms(2,3) show "fresh_id u (fresh i)" by (auto simp: fresh_id_def)
qed

lemma book_sim_evict:
  "begin_eviction b fresh mids auto = Inr (b', ops) \<Longrightarrow> range fresh \<subseteq> new \<Longrightarrow> book_sim g new b b'"
  by (rule book_sim_step, intro exI conjI, erule_tac [2] bs_evict [rotated])
    (auto dest: fresh_range intro: all_leases_stops [THEN subsetD] simp: begin_eviction_def)

lemma book_sim_cleanup:
  "begin_cleanup b fresh mids = Inr (b', ops) \<Longrightarrow> range fresh \<subseteq> new \<Longrightarrow> book_sim g new b b'"
  by (rule book_sim_step, intro exI conjI, erule_tac [2] bs_cleanup [rotated])
    (auto dest: fresh_range intro: all_leases_stops [THEN subsetD] simp: begin_cleanup_def)

text \<open>The three components at once.\<close>

definition sched_sim :: "bool \<Rightarrow> string set \<Rightarrow> time \<Rightarrow> Scheduler \<Rightarrow> Scheduler \<Rightarrow> bool" where
  "sched_sim g new t sc sc' \<longleftrightarrow> book_sim g new (book sc) (book sc') \<and> queue_step\<^sup>*\<^sup>* (queue sc) (queue sc')
     \<and> session_step\<^sup>*\<^sup>* (sessions sc, t) (sessions sc', t) \<and> (shutting_down sc \<longrightarrow> shutting_down sc')"

lemma sched_sim_refl [simp, intro]: "sched_sim g new t sc sc"
  by (simp add: sched_sim_def)

lemma sched_sim_trans: "sched_sim g new t a b \<Longrightarrow> sched_sim g {} t b c \<Longrightarrow> sched_sim g new t a c"
  unfolding sched_sim_def by (meson book_sim_trans rtranclp_trans)

lemma sched_sim_trans': "sched_sim g {} t a b \<Longrightarrow> sched_sim g new t b c \<Longrightarrow> sched_sim g new t a c"
  unfolding sched_sim_def by (meson book_sim_trans' rtranclp_trans)

lemma sched_simI:
  "book_sim g new (book sc) (book sc') \<Longrightarrow> queue sc' = queue sc \<Longrightarrow> sessions sc' = sessions sc
     \<Longrightarrow> shutting_down sc' = shutting_down sc \<Longrightarrow> sched_sim g new t sc sc'"
  by (simp add: sched_sim_def)

lemma sched_sim_book: "book_sim g new (book sc) b \<Longrightarrow> sched_sim g new t sc (sc\<lparr>book := b\<rparr>)"
  by (simp add: sched_sim_def)

lemma sched_sim_queue: "queue_step (queue sc) q \<Longrightarrow> sched_sim g new t sc (sc\<lparr>queue := q\<rparr>)"
  by (simp add: sched_sim_def)

lemma sched_sim_sessions: "session_step (sessions sc, t) (sm, t) \<Longrightarrow> sched_sim g new t sc (sc\<lparr>sessions := sm\<rparr>)"
  by (simp add: sched_sim_def)

section \<open>Each section\<close>

lemma sim_release_freeze [simp]: "sched_sim g new t sc (release_session_freeze sid sc') = sched_sim g new t sc sc'"
  by (simp add: sched_sim_def release_session_freeze_def)

lemma sim_note: "sched_sim g new t sc (note_session_lease sid lease sc)"
  by (auto simp: sched_sim_def note_session_lease_def Let_def intro: ss_in_flight)

lemma sim_forget: "sched_sim g new t sc (forget_session_lease lid sc)"
  by (auto simp: sched_sim_def forget_session_lease_def Let_def intro: ss_in_flight split: option.splits)

lemma sim_cancel_intent: "cancel_switch_intent rid sc = Inr sc' \<Longrightarrow> sched_sim g new t sc sc'"
  by (auto simp: cancel_switch_intent_def split: option.splits if_splits intro!: sched_simI intro: book_sim_ops)

lemma sim_expire_intent: "expire_switch_intent now sc = Inr sc' \<Longrightarrow> sched_sim g new t sc sc'"
  by (auto simp: expire_switch_intent_def split: option.splits if_splits intro!: sched_simI intro: book_sim_ops)

lemma sim_establish:
  assumes "establish_switch rid mid s dl now sc = Inr (Some (sc', intent))"
  shows "sched_sim g {} t sc sc'"
  using assms unfolding establish_switch_def
  by (auto simp: Let_def split: option.splits if_splits sum.splits intro!: sched_simI)
    (erule book_sim_ops)

lemma sim_advance:
  assumes "advance_switch rid intent fresh sc = Inr (sc', ok)" and "range fresh \<subseteq> new"
  shows "sched_sim g new t sc sc'"
  using assms unfolding advance_switch_def
  by (auto split: if_splits sum.splits)
    (erule sim_cancel_intent, rule sched_simI, auto elim: book_sim_evict)

lemma sim_switch:
  assumes "establish_or_advance_switch rid mid s dl now fresh sc = Inr (sc', ok)" and "range fresh \<subseteq> new"
  shows "sched_sim g new t sc sc'"
proof -
  from assms(1) obtain r where r: "establish_switch rid mid s dl now sc = Inr r"
    and rest: "(case r of None \<Rightarrow> Inr (sc, False) | Some (sc1, intent) \<Rightarrow> advance_switch rid intent fresh sc1) = Inr (sc', ok)"
    by (auto simp: establish_or_advance_switch_def)
  show ?thesis
  proof (cases r)
    case None
    with rest show ?thesis by simp
  next
    case (Some p)
    obtain sc1 intent where p: "p = (sc1, intent)" by (cases p)
    with r Some have "sched_sim g {} t sc sc1" by (simp add: sim_establish)
    moreover from rest Some p have "sched_sim g new t sc1 sc'" using assms(2) by (simp add: sim_advance)
    ultimately show ?thesis by (rule sched_sim_trans')
  qed
qed

lemma sim_enter: "acquire_enter mid rid dl sid now sc = (sc', res) \<Longrightarrow> sched_sim g new t sc sc'"
proof -
  assume a: "acquire_enter mid rid dl sid now sc = (sc', res)"
  have "\<exists>q. queue_step\<^sup>*\<^sup>* (queue sc) q \<and> sc' = sc\<lparr>queue := q\<rparr>"
    using a unfolding acquire_enter_def
    by (auto split: sum.splits prod.splits intro: step_enqueue)
  then show ?thesis by (auto simp: sched_sim_def)
qed

lemma grant_readyD:
  assumes "grant_ready sc mid rid s admitted uuid now = Inr (b, lease)"
  shows "admitted" "can_admit_ready (book sc) mid s now = Inr True" "acquire_ready (book sc) uuid mid rid now = Inr (b, lease)"
  using assms by (auto simp: grant_ready_def split: if_splits)

lemma sim_head:
  assumes "acquire_head mid rid sid s admitted uuid now sc = (sc', res)"
  shows "sched_sim True {uuid} t sc sc'"
proof (cases "grant_ready sc mid rid s admitted uuid now")
  case (Inl e)
  with assms show ?thesis by (auto simp: acquire_head_def split:)
next
  case (Inr p)
  obtain b lease where p: "p = (b, lease)" by (cases p)
  let ?sc1 = "sc\<lparr>book := b, queue := fst (queue_remove rid CLAIMED (queue sc))\<rparr>"
  have "book_sim True {uuid} (book sc) b"
    using grant_readyD(3) Inr p book_sim_acquire by blast
  then have "sched_sim True {uuid} t sc ?sc1" by (auto simp: sched_sim_def intro: step_remove)
  moreover have "sched_sim True {} t ?sc1 sc'"
    using assms Inr p sim_note [of True "{}" t ?sc1] by (auto simp: acquire_head_def Let_def split: option.splits)
  ultimately show ?thesis by (rule sched_sim_trans)
qed

lemma acquire_try_cases:
  assumes "acquire_try mid rid dl sid s admitted uuid now sc0 = (sc', res)"
  obtains (raised) e where "sc' = sc0" "res = Inl e"
  | (unavailable) sc e where "expire_switch_intent now sc0 = Inr sc" "sc' = sc" "res = Inl e"
  | (due) sc e where "expire_switch_intent now sc0 = Inr sc" "res = Inl e"
      "sc' = sc\<lparr>queue := fst (queue_remove rid EXPIRED (queue sc))\<rparr>"
  | (behind) sc q where "expire_switch_intent now sc0 = Inr sc"
      "is_head rid now (Some (cold_request_eligible sc now)) None (queue sc) = (q, False)"
      "sc' = sc\<lparr>queue := q\<rparr>" "res = Inr (Wait False)"
  | (head) sc q where "expire_switch_intent now sc0 = Inr sc" "\<not> shutting_down sc" "\<not> storage_unavailable sc"
      "now < dl" "queue_contains rid (queue sc)"
      "is_head rid now (Some (cold_request_eligible sc now)) None (queue sc) = (q, True)"
      "acquire_head mid rid sid s admitted uuid now (sc\<lparr>queue := q\<rparr>) = (sc', res)"
  using assms unfolding acquire_try_def
  by (auto split: sum.splits if_splits prod.splits bool.splits simp: not_le)

lemma is_head_queue: "is_head rid now el k q0 = (q, h) \<Longrightarrow> q = fst (expire now q0)"
  by (metis fst_conv fst_is_head)

text \<open>Only an open scheduler grants leases.\<close>

definition admits :: "Scheduler \<Rightarrow> bool" where
  "admits sc \<longleftrightarrow> \<not> shutting_down sc \<and> \<not> storage_unavailable sc"

lemma expire_intent_admits: "expire_switch_intent now sc = Inr sc' \<Longrightarrow> admits sc' = admits sc"
  by (auto simp: expire_switch_intent_def admits_def split: option.splits if_splits)

lemma sim_try:
  assumes "acquire_try mid rid dl sid s admitted uuid now sc0 = (sc', res)"
  shows "sched_sim (admits sc0) {uuid} t sc0 sc'"
  using assms
proof (cases rule: acquire_try_cases)
  case (head sc q)
  then have "admits sc0" using expire_intent_admits [OF head(1)] by (simp add: admits_def)
  have "sched_sim True {} t sc (sc\<lparr>queue := q\<rparr>)"
    by (simp add: is_head_queue [OF head(6)] sched_sim_queue step_expire)
  then have "sched_sim True {} t sc0 (sc\<lparr>queue := q\<rparr>)"
    using sim_expire_intent [OF head(1)] sched_sim_trans by blast
  then have "sched_sim True {uuid} t sc0 sc'" using sim_head [OF head(7)] by (rule sched_sim_trans')
  with \<open>admits sc0\<close> show ?thesis by simp
next
  case (behind sc q)
  have "sched_sim (admits sc0) {} t sc sc'"
    by (simp add: behind(3) is_head_queue [OF behind(2)] sched_sim_queue step_expire)
  then show ?thesis using sim_expire_intent [OF behind(1)] sched_sim_trans by blast
next
  case (due sc e)
  have "sched_sim (admits sc0) {} t sc sc'" by (simp add: due(3) sched_sim_queue step_remove)
  then show ?thesis using sim_expire_intent [OF due(1)] sched_sim_trans by blast
qed (auto intro: sim_expire_intent)

lemma sim_start_load: "start_load mid s uuid now sc = Inr sc' \<Longrightarrow> uuid \<in> new \<Longrightarrow> sched_sim g new t sc sc'"
  by (auto simp: start_load_def intro!: sched_simI elim: book_sim_load)

lemma sim_start:
  assumes "acquire_start mid rid dl s admitted fresh now sc = Inr (sc', ok)"
  shows "sched_sim g (range fresh) t sc sc'"
  using assms unfolding acquire_start_def
  by (auto split: if_splits) (erule sim_start_load sim_switch, simp)+

lemma sim_exit:
  assumes "acquire_exit rid sc = Inr sc'"
  shows "sched_sim g {} t sc sc'"
  using sched_sim_trans [OF sched_sim_queue [OF step_remove]] sim_cancel_intent assms
  unfolding acquire_exit_def by blast

lemma sim_release:
  assumes "sched_release lease out tok now sc = Inr sc'"
  shows "sched_sim g {} t sc sc'"
proof -
  from assms obtain b ok where b: "release (book sc) lease out now tok = Inr (b, ok)"
    and sc': "sc' = forget_session_lease (lease_id lease) (sc\<lparr>book := b\<rparr>)" by (auto simp: sched_release_def)
  have "sched_sim g {} t sc (sc\<lparr>book := b\<rparr>)" using b by (intro sched_sim_book) (rule book_sim_ops)
  then show ?thesis unfolding sc' using sim_forget by (rule sched_sim_trans)
qed

lemma sim_cancel: "sched_cancel lease sc = Inr (sc', ok) \<Longrightarrow> sched_sim g {} t sc sc'"
  by (auto simp: sched_cancel_def intro!: sched_sim_book dest: book_sim_dests)

lemma sched_sim_cold_load [simp]: "sched_sim g new t sc (record_cold_load now sc') = sched_sim g new t sc sc'"
  by (simp add: sched_sim_def record_cold_load_def Let_def)

lemma sched_sim_emit [simp]: "sched_sim g new t sc (emit e sc') = sched_sim g new t sc sc'"
  by (simp add: sched_sim_def emit_def)

lemma sim_load_observed: "load_observed oper obs now sc = Inr (sc', r) \<Longrightarrow> sched_sim g {} t sc sc'"
  by (auto simp: load_observed_def split: if_splits sum.splits intro!: sched_sim_book dest: book_sim_dests)

lemma sim_load_exception: "load_exception oper sc = Inr (sc', r) \<Longrightarrow> sched_sim g {} t sc sc'"
  by (auto simp: load_exception_def split: sum.splits if_splits intro!: sched_sim_book dest: book_sim_dests)

lemma sim_load_done: "sched_sim g {} t sc (load_done oper sc)"
  by (simp add: sched_sim_def load_done_def)

lemma rollback_sim: "rollback_pending ops b = Inr b' \<Longrightarrow> book_sim g {} b b'"
proof (induction ops arbitrary: b)
  case (Cons oper ops)
  then show ?case
    by (auto split: sum.splits if_splits intro: book_sim_trans dest: book_sim_dests)
qed simp

lemma sim_stop_observed:
  assumes "stop_observed oper rest obs now sc = Inr (sc', out)"
  shows "sched_sim g {} t sc sc'"
proof (cases "\<exists>x. obs = Some x \<and> obs_presence x = P_STOPPED")
  case True
  with assms show ?thesis
    unfolding stop_observed_def by (auto split: sum.splits if_splits intro!: sched_sim_book dest: book_sim_dests)
next
  case False
  with assms obtain b b' code where "failed (book sc) oper code = Inr b" "rollback_pending rest b = Inr b'" "sc' = sc\<lparr>book := b'\<rparr>"
    unfolding stop_observed_def by auto
  then show ?thesis by (auto intro!: sched_sim_book intro: book_sim_trans book_sim_ops rollback_sim)
qed

lemma sim_stop_cancelled: "stop_cancelled oper rest sc = Inr sc' \<Longrightarrow> sched_sim g {} t sc sc'"
  by (auto simp: stop_cancelled_def intro!: sched_sim_book intro: book_sim_trans book_sim_ops rollback_sim)

lemma sim_eviction_done: "sched_sim g {} t sc (eviction_done sc)"
  by (simp add: sched_sim_def eviction_done_def)

lemma abort_sim: "abort_all_leases now b = Inr b' \<Longrightarrow> book_sim g {} b b'"
  unfolding abort_all_leases_def
proof (erule each_inv)
  fix lease c c'
  assume c: "book_sim g {} b c" "abort_lease now lease c = Inr c'"
  then obtain ok where "release c lease ABORTED now None = Inr (c', ok)" by (auto simp: abort_lease_def)
  then have "book_sim g {} c c'" by (rule book_sim_dests)
  with c(1) show "book_sim g {} b c'" by (rule book_sim_trans)
qed simp

lemma sim_recovery_abort: "recovery_abort_leases dl now sc = Inr sc' \<Longrightarrow> sched_sim g {} t sc sc'"
  by (auto simp: recovery_abort_leases_def split: if_splits intro!: sched_sim_book dest: abort_sim)

lemma sim_recover_begin: "recover_begin sc = Inr (sc', ep) \<Longrightarrow> sched_sim g {} t sc sc'"
  by (auto simp: recover_begin_def Let_def case_prod_beta intro!: sched_sim_book) (rule book_sim_ops, rule prod.collapse [symmetric])

lemma sim_recover_end: "recover_end ep res sc = Inr sc' \<Longrightarrow> sched_sim g {} t sc sc'"
  by (auto simp: recover_end_def split: sum.splits if_splits intro!: sched_sim_book dest: book_sim_dests)

lemma sim_preload_check: "preload_check mid here sc = Inr (sc', act) \<Longrightarrow> sched_sim g {} t sc sc'"
  by (auto simp: preload_check_def sched_sim_def split: if_splits)

lemma sim_preload_start:
  "preload_start mid s admitted uuid now sc = Inr (sc', r) \<Longrightarrow> uuid \<in> new \<Longrightarrow> sched_sim g new t sc sc'"
  by (auto simp: preload_start_def split: if_splits) (erule sim_start_load, assumption)

lemma sim_preload_evict:
  "preload_evict mid s fresh now sc = Inr (sc', r) \<Longrightarrow> range fresh \<subseteq> new \<Longrightarrow> sched_sim g new t sc sc'"
  by (auto simp: preload_evict_def split: if_splits) (rule sched_simI, auto elim: book_sim_evict)

lemma sim_reclaim_failed:
  "reclaim_failed mid fresh sc = Inr (sc', r) \<Longrightarrow> range fresh \<subseteq> new \<Longrightarrow> sched_sim g new t sc sc'"
  by (auto simp: reclaim_failed_def split: if_splits sum.splits) (rule sched_simI, auto elim: book_sim_cleanup)

lemma sim_reclaim_gone:
  assumes "reclaim_gone mid refused fresh now sc = Inr (sc', r)" and "range fresh \<subseteq> new"
    and "refused = Inr (sc', r) \<Longrightarrow> sched_sim g new t sc sc'"
  shows "sched_sim g new t sc sc'"
proof -
  have "sched_sim g new t sc (sc\<lparr>book := b'\<rparr>)"
    if "begin_eviction (book sc) fresh [mid] False = Inr (b, ops)" "stopped b oper tm = Inr b'" for b ops oper tm b'
    using book_sim_trans [OF book_sim_evict [OF that(1) assms(2)] book_sim_dests(9) [OF that(2)]] by (rule sched_sim_book)
  with assms(1,3) show ?thesis by (auto simp: reclaim_gone_def split: if_splits sum.splits)
qed

lemma sim_reclaim_phantom:
  "reclaim_phantom mid fresh now sc = Inr (sc', r) \<Longrightarrow> range fresh \<subseteq> new \<Longrightarrow> sched_sim g new t sc sc'"
  unfolding reclaim_phantom_def by (erule sim_reclaim_gone) auto

lemma sim_reclaim_lost:
  "reclaim_lost_runtime mid v fresh now sc = Inr (sc', r) \<Longrightarrow> range fresh \<subseteq> new \<Longrightarrow> sched_sim g new t sc sc'"
  unfolding reclaim_lost_runtime_def by (cases v) (auto elim: sim_reclaim_gone)

lemma sim_drain_one: "drain_one t sid sc = Inr sc' \<Longrightarrow> sched_sim g {} t sc sc'"
  by (auto simp: drain_one_def intro!: sched_sim_sessions ss_drain)

lemma sim_shutdown_begin:
  assumes "shutdown_begin t sc = Inr sc'"
  shows "sched_sim g {} t sc sc'"
  using assms unfolding shutdown_begin_def
proof (rule each_inv)
  show "sched_sim g {} t sc (sc\<lparr>shutting_down := True, queue := fst (queue_clear CANCELLED (queue sc))\<rparr>)"
    by (auto simp: sched_sim_def intro: step_clear)
  show "sched_sim g {} t sc c'" if "sched_sim g {} t sc c" "drain_one t sid c = Inr c'" for sid c c'
    using that sim_drain_one sched_sim_trans by blast
qed

lemma sim_stop_everything:
  assumes "stop_everything fresh now sc = (sc', r)" and "range fresh \<subseteq> new"
  shows "sched_sim g new t sc sc'"
proof (cases "abort_all_leases now (book sc)")
  case (Inl e)
  with assms(1) show ?thesis by (simp add: stop_everything_def)
next
  case (Inr b)
  have b: "book_sim g {} (book sc) b" by (rule abort_sim [OF Inr])
  have cleanup: "book_sim g new (book sc) b'" if "begin_cleanup b fresh (cleanup_targets b) = Inr (b', ops)" for b' ops
    using b book_sim_cleanup [OF that assms(2)] by (rule book_sim_trans')
  from assms(1) Inr show ?thesis
    by (auto simp: stop_everything_def Let_def split: if_splits sum.splits intro!: sched_simI
        intro: book_sim_mono [OF b] dest: cleanup)
qed

lemma sim_storage_lost:
  assumes "storage_lost fresh now sc = (sc', r)" and "range fresh \<subseteq> new"
  shows "sched_sim g new t sc sc'"
proof (cases "storage_unavailable sc")
  case True
  with assms(1) show ?thesis by (simp add: storage_lost_def)
next
  case False
  let ?sc = "sc\<lparr>storage_unavailable := True, queue := fst (queue_clear CANCELLED (queue sc))\<rparr>"
  have "sched_sim g {} t sc ?sc" by (auto simp: sched_sim_def intro: step_clear)
  moreover have "sched_sim g new t ?sc sc'"
    using assms False by (intro sim_stop_everything) (auto simp: storage_lost_def)
  ultimately show ?thesis by (rule sched_sim_trans')
qed

lemma sim_storage_reopen: "sched_sim g {} t sc (storage_reopen sc)"
  by (simp add: sched_sim_def storage_reopen_def)

lemma sim_unload:
  "unload_begin mid fresh sc = Inr (sc', r) \<Longrightarrow> range fresh \<subseteq> new \<Longrightarrow> sched_sim g new t sc sc'"
  by (auto simp: unload_begin_def split: if_splits) (rule sched_simI, auto elim: book_sim_evict)

lemma sim_sweep: "sweep_ttl fresh now sc = Inr sc' \<Longrightarrow> range fresh \<subseteq> new \<Longrightarrow> sched_sim g new t sc sc'"
  by (auto simp: sweep_ttl_def split: if_splits) (rule sched_simI, auto elim: book_sim_evict)

lemma sim_stop_models:
  "stop_models_begin mids fresh sc = Inr (sc', r) \<Longrightarrow> range fresh \<subseteq> new \<Longrightarrow> sched_sim g new t sc sc'"
  by (auto simp: stop_models_begin_def split: if_splits) (rule sched_simI, auto elim: book_sim_cleanup)

lemma remove_run [simp]: "queue_step\<^sup>*\<^sup>* q (fst (queue_remove rid st q))"
  by (intro r_into_rtranclp step_remove)

lemma sched_sim_both:
  "queue_step\<^sup>*\<^sup>* (queue sc) q \<Longrightarrow> session_step (sessions sc, t) (sm, t) \<Longrightarrow> sched_sim g new t sc (sc\<lparr>sessions := sm, queue := q\<rparr>)"
  by (simp add: sched_sim_def)

lemma create_queue:
  "session_create sm q sid mid cid now pr h = (sm', q', res) \<Longrightarrow> queue_step\<^sup>*\<^sup>* q q'"
  by (auto simp: session_create_def Let_def split: if_splits sum.splits prod.splits option.splits intro: step_enqueue)

lemma sim_register:
  assumes "register_session mid cid sid priority hard t sc = (sc', res)"
  shows "sched_sim g {} t sc sc'"
proof (cases "register_check sc mid")
  case (Inl e)
  with assms show ?thesis by (simp add: register_session_def)
next
  case (Inr u)
  obtain sm q r where c: "session_create (sessions sc) (queue sc) sid mid cid t priority hard = (sm, q, r)"
    by (metis prod_cases3)
  with assms Inr have "sc' = sc\<lparr>sessions := sm, queue := q\<rparr>" by (auto simp: register_session_def split: sum.splits)
  with create_queue [OF c] ss_create [OF c] show ?thesis by (simp add: sched_sim_both)
qed

lemma sim_heartbeat: "heartbeat_session sid t sc = Inr (sc', v) \<Longrightarrow> sched_sim g {} t sc sc'"
  by (auto simp: heartbeat_session_def intro!: sched_sim_sessions ss_heartbeat)

lemma sim_close_begin: "close_session_begin sid reason t sc = Inr sc' \<Longrightarrow> sched_sim g {} t sc sc'"
  by (auto simp: close_session_begin_def split: if_splits intro!: sched_sim_both ss_drain remove_run)

lemma sim_plan:
  assumes "next_session_plan now sc = (sc', plan)"
  shows "sched_sim g {} t sc sc'"
proof -
  have "queue_step (queue sc) q" if "queue_head now el k (queue sc) = (q, item)" for el k q item
    using step_head [of "queue sc" now el k] that by simp
  with assms show ?thesis
    by (auto simp: next_session_plan_def split: list.splits prod.splits option.splits
        intro!: sched_sim_queue intro: step_remove)
qed

lemma sim_expire_session: "expire_session sid t sc = Inr sc' \<Longrightarrow> sched_sim g {} t sc sc'"
  by (auto simp: expire_session_def split: if_splits
      intro!: sched_sim_both sched_sim_sessions remove_run)
    (erule ss_closed, erule ss_drain)

lemma sim_prepare_begin: "prepare_begin sid sc = Inr (sc', ok) \<Longrightarrow> sched_sim g {} t sc sc'"
  by (auto simp: prepare_begin_def sched_sim_def split: if_splits)

lemma sim_prepare_yield: "prepare_yield sid t sc = Inr sc' \<Longrightarrow> sched_sim g {} t sc sc'"
  by (auto simp: prepare_yield_def intro!: sched_sim_sessions ss_yield)

lemma sim_prepare_blocked: "prepare_blocked sid t sc = Inr sc' \<Longrightarrow> sched_sim g {} t sc sc'"
  by (auto simp: prepare_blocked_def intro!: sched_sim_sessions ss_blocked)

lemma sim_prepare_finish: "prepare_finish sid t sc = Inr (sc', ok) \<Longrightarrow> sched_sim g {} t sc sc'"
  by (auto simp: prepare_finish_def split: if_splits intro!: sched_sim_both ss_active remove_run)

lemma sim_drain_finish: "drain_finish sid confirmed t sc = Inr sc' \<Longrightarrow> sched_sim g {} t sc sc'"
  by (auto simp: drain_finish_def session_closed_def split: if_splits
      intro!: sched_sim_sessions)
    (erule ss_closed, erule ss_blocked)

section \<open>The scheduler as a machine\<close>

text \<open>
  A state is the scheduler, the identifiers drawn so far and the clock.  Each rule is one
  critical section, run at the clock's reading with any arguments, so that the requests, the
  tasks, the observations and the order in which the coroutines take the condition are arbitrary.
\<close>

type_synonym sched_state = "Scheduler \<times> string set \<times> time"

definition new_ids :: "string set \<Rightarrow> string set \<Rightarrow> bool" where
  "new_ids new used \<longleftrightarrow> new \<inter> used = {} \<and> [] \<notin> new"

inductive sched_step :: "sched_state \<Rightarrow> sched_state \<Rightarrow> bool" where
  sc_tick: "t \<le> t' \<Longrightarrow> sched_step (sc, u, t) (sc, u, t')"
| sc_bootstrap: "bootstrap_stopped (book sc) mid = Inr b \<Longrightarrow> sched_step (sc, u, t) (sc\<lparr>book := b\<rparr>, u, t)"
| sc_enter: "acquire_enter mid rid dl sid t sc = (sc', res) \<Longrightarrow> sched_step (sc, u, t) (sc', u, t)"
| sc_try: "acquire_try mid rid dl sid s ok uuid t sc = (sc', out) \<Longrightarrow> new_ids {uuid} u
    \<Longrightarrow> sched_step (sc, u, t) (sc', {uuid} \<union> u, t)"
| sc_start: "acquire_start mid rid dl s ok fresh t sc = Inr (sc', started) \<Longrightarrow> new_ids (range fresh) u
    \<Longrightarrow> sched_step (sc, u, t) (sc', range fresh \<union> u, t)"
| sc_exit: "acquire_exit rid sc = Inr sc' \<Longrightarrow> sched_step (sc, u, t) (sc', u, t)"
| sc_release: "sched_release lease oc tok t sc = Inr sc' \<Longrightarrow> sched_step (sc, u, t) (sc', u, t)"
| sc_cancel: "sched_cancel lease sc = Inr (sc', found) \<Longrightarrow> sched_step (sc, u, t) (sc', u, t)"
| sc_load_observed: "load_observed oper obs t sc = Inr (sc', ret) \<Longrightarrow> sched_step (sc, u, t) (sc', u, t)"
| sc_load_exception: "load_exception oper sc = Inr (sc', ret) \<Longrightarrow> sched_step (sc, u, t) (sc', u, t)"
| sc_load_done: "sched_step (sc, u, t) (load_done oper sc, u, t)"
| sc_stop_observed: "stop_observed oper rest stop t sc = Inr (sc', go) \<Longrightarrow> sched_step (sc, u, t) (sc', u, t)"
| sc_stop_cancelled: "stop_cancelled oper rest sc = Inr sc' \<Longrightarrow> sched_step (sc, u, t) (sc', u, t)"
| sc_eviction_done: "sched_step (sc, u, t) (eviction_done sc, u, t)"
| sc_recovery_abort: "recovery_abort_leases dl t sc = Inr sc' \<Longrightarrow> sched_step (sc, u, t) (sc', u, t)"
| sc_recover_begin: "recover_begin sc = Inr (sc', ep) \<Longrightarrow> sched_step (sc, u, t) (sc', u, t)"
| sc_recover_end: "recover_end ep rec sc = Inr sc' \<Longrightarrow> sched_step (sc, u, t) (sc', u, t)"
| sc_preload_check: "preload_check mid here sc = Inr (sc', act) \<Longrightarrow> sched_step (sc, u, t) (sc', u, t)"
| sc_preload_start: "preload_start mid s ok uuid t sc = Inr (sc', started) \<Longrightarrow> new_ids {uuid} u
    \<Longrightarrow> sched_step (sc, u, t) (sc', {uuid} \<union> u, t)"
| sc_preload_evict: "preload_evict mid s fresh t sc = Inr (sc', batch) \<Longrightarrow> new_ids (range fresh) u
    \<Longrightarrow> sched_step (sc, u, t) (sc', range fresh \<union> u, t)"
| sc_reclaim_failed: "reclaim_failed mid fresh sc = Inr (sc', batch) \<Longrightarrow> new_ids (range fresh) u
    \<Longrightarrow> sched_step (sc, u, t) (sc', range fresh \<union> u, t)"
| sc_reclaim_phantom: "reclaim_phantom mid fresh t sc = Inr (sc', gone) \<Longrightarrow> new_ids (range fresh) u
    \<Longrightarrow> sched_step (sc, u, t) (sc', range fresh \<union> u, t)"
| sc_reclaim_lost: "reclaim_lost_runtime mid verdict fresh t sc = Inr (sc', gone) \<Longrightarrow> new_ids (range fresh) u
    \<Longrightarrow> sched_step (sc, u, t) (sc', range fresh \<union> u, t)"
| sc_shutdown: "shutdown_begin t sc = Inr sc' \<Longrightarrow> sched_step (sc, u, t) (sc', u, t)"
| sc_stop_everything: "stop_everything fresh t sc = (sc', res) \<Longrightarrow> new_ids (range fresh) u
    \<Longrightarrow> sched_step (sc, u, t) (sc', range fresh \<union> u, t)"
| sc_storage_lost: "storage_lost fresh t sc = (sc', res) \<Longrightarrow> new_ids (range fresh) u
    \<Longrightarrow> sched_step (sc, u, t) (sc', range fresh \<union> u, t)"
| sc_storage_reopen: "sched_step (sc, u, t) (storage_reopen sc, u, t)"
| sc_unload: "unload_begin mid fresh sc = Inr (sc', op) \<Longrightarrow> new_ids (range fresh) u
    \<Longrightarrow> sched_step (sc, u, t) (sc', range fresh \<union> u, t)"
| sc_sweep: "sweep_ttl fresh t sc = Inr sc' \<Longrightarrow> new_ids (range fresh) u
    \<Longrightarrow> sched_step (sc, u, t) (sc', range fresh \<union> u, t)"
| sc_register: "register_session mid cid sid pr hard t sc = (sc', view) \<Longrightarrow> sched_step (sc, u, t) (sc', u, t)"
| sc_heartbeat: "heartbeat_session sid t sc = Inr (sc', v) \<Longrightarrow> sched_step (sc, u, t) (sc', u, t)"
| sc_close: "close_session_begin sid reason t sc = Inr sc' \<Longrightarrow> sched_step (sc, u, t) (sc', u, t)"
| sc_plan: "next_session_plan t sc = (sc', plan) \<Longrightarrow> sched_step (sc, u, t) (sc', u, t)"
| sc_expire: "expire_session sid t sc = Inr sc' \<Longrightarrow> sched_step (sc, u, t) (sc', u, t)"
| sc_prepare_begin: "prepare_begin sid sc = Inr (sc', going) \<Longrightarrow> sched_step (sc, u, t) (sc', u, t)"
| sc_prepare_yield: "prepare_yield sid t sc = Inr sc' \<Longrightarrow> sched_step (sc, u, t) (sc', u, t)"
| sc_prepare_blocked: "prepare_blocked sid t sc = Inr sc' \<Longrightarrow> sched_step (sc, u, t) (sc', u, t)"
| sc_prepare_finish: "prepare_finish sid t sc = Inr (sc', active) \<Longrightarrow> sched_step (sc, u, t) (sc', u, t)"
| sc_drain_finish: "drain_finish sid confirmed t sc = Inr sc' \<Longrightarrow> sched_step (sc, u, t) (sc', u, t)"
| sc_stop_models: "stop_models_begin mids fresh sc = Inr (sc', splan) \<Longrightarrow> new_ids (range fresh) u
    \<Longrightarrow> sched_step (sc, u, t) (sc', range fresh \<union> u, t)"

lemmas sims =
  sim_enter [where new = "{}"] sim_try sim_start sim_exit sim_release sim_cancel sim_load_observed
  sim_load_exception sim_load_done sim_stop_observed sim_stop_cancelled sim_eviction_done
  sim_recovery_abort sim_recover_begin sim_recover_end sim_preload_check sim_shutdown_begin
  sim_storage_reopen sim_register sim_heartbeat sim_close_begin sim_plan sim_expire_session
  sim_prepare_begin sim_prepare_yield sim_prepare_blocked sim_prepare_finish sim_drain_finish

lemmas sims_fresh =
  sim_preload_evict sim_reclaim_failed sim_reclaim_phantom sim_reclaim_lost sim_stop_everything
  sim_storage_lost sim_unload sim_sweep sim_stop_models

text \<open>Each step is a run of the three components and draws new identifiers, or advances the clock.\<close>

definition sect :: "sched_state \<Rightarrow> sched_state \<Rightarrow> bool" where
  "sect s s' \<longleftrightarrow> (\<exists>sc u t sc' new. s = (sc, u, t) \<and> s' = (sc', new \<union> u, t) \<and> new_ids new u
     \<and> sched_sim (admits sc) new t sc sc')"

lemma sect_new: "new_ids new u \<Longrightarrow> sched_sim (admits sc) new t sc sc' \<Longrightarrow> sect (sc, u, t) (sc', new \<union> u, t)"
  unfolding sect_def by blast

lemma sect_none: "sched_sim (admits sc) {} t sc sc' \<Longrightarrow> sect (sc, u, t) (sc', u, t)"
  using sect_new [of "{}" u sc t sc'] by (simp add: new_ids_def)

lemma sched_step_sect:
  "sched_step s s' \<Longrightarrow> (\<exists>sc u t t'. s = (sc, u, t) \<and> s' = (sc, u, t') \<and> t \<le> t') \<or> sect s s'"
proof (induction rule: sched_step.induct)
  case (sc_tick t t' sc u)
  then show ?case by blast
next
  case (sc_bootstrap sc mid b u t)
  then show ?case by (intro disjI2 sect_none sched_sim_book book_sim_ops)
next
  case (sc_preload_start mid s ok uuid t sc sc' started u)
  then show ?case by (intro disjI2 sect_new) (auto intro: sim_preload_start)
qed (rule disjI2, rule sect_none, (erule sims | rule sims) |
     rule disjI2, rule sect_new, assumption, (erule sims | erule sims_fresh, rule subset_refl))+

section \<open>Refinement of the components\<close>

definition book_rel :: "sched_state \<Rightarrow> book_run \<Rightarrow> bool" where
  "book_rel s a \<longleftrightarrow> fst a = book (fst s) \<and> snd a \<subseteq> fst (snd s)"

definition queue_rel :: "sched_state \<Rightarrow> RequestQueue \<Rightarrow> bool" where
  "queue_rel s q \<longleftrightarrow> q = queue (fst s)"

definition sess_rel :: "sched_state \<Rightarrow> SessionManager \<times> time \<Rightarrow> bool" where
  "sess_rel s a \<longleftrightarrow> a = (sessions (fst s), snd (snd s))"

interpretation book_ref: step_refinement sched_step book_step book_rel
proof
  fix s a s'
  assume rel: "book_rel s a" and "sched_step s s'"
  then consider (tick) "fst s' = fst s" "fst (snd s') = fst (snd s)" | (sect) "sect s s'"
    using sched_step_sect by fastforce
  then show "\<exists>a'. book_step\<^sup>*\<^sup>* a a' \<and> book_rel s' a'"
  proof cases
    case tick
    with rel have "book_rel s' a" by (simp add: book_rel_def)
    then show ?thesis by blast
  next
    case sect
    then obtain sc u t sc' new where s: "s = (sc, u, t)" "s' = (sc', new \<union> u, t)" and new: "new_ids new u"
      and sim: "sched_sim (admits sc) new t sc sc'" by (auto simp: sect_def)
    obtain ua where a: "a = (book sc, ua)" "ua \<subseteq> u" using rel s by (cases a) (auto simp: book_rel_def)
    from sim have "book_sim (admits sc) new (book sc) (book sc')" by (simp add: sched_sim_def)
    moreover have "new \<inter> ua = {}" "[] \<notin> new" using new a(2) by (auto simp: new_ids_def)
    ultimately obtain u' where "u' \<subseteq> new \<union> ua" "(quiet_step (admits sc))\<^sup>*\<^sup>* (book sc, ua) (book sc', u')"
      by (rule book_simE)
    with a s quiet_run show ?thesis by (intro exI [of _ "(book sc', u')"]) (auto simp: book_rel_def)
  qed
qed

interpretation queue_ref: step_refinement sched_step queue_step queue_rel
proof
  fix s a s'
  assume "queue_rel s a" and "sched_step s s'"
  then have "queue_step\<^sup>*\<^sup>* a (queue (fst s'))"
    using sched_step_sect [of s s'] by (auto simp: queue_rel_def sect_def sched_sim_def)
  then show "\<exists>a'. queue_step\<^sup>*\<^sup>* a a' \<and> queue_rel s' a'" by (simp add: queue_rel_def)
qed

interpretation sess_ref: step_refinement sched_step session_step sess_rel
proof
  fix s a s'
  assume "sess_rel s a" and "sched_step s s'"
  then have "session_step\<^sup>*\<^sup>* a (sessions (fst s'), snd (snd s'))"
    using sched_step_sect [of s s'] by (auto simp: sess_rel_def sect_def sched_sim_def) (intro r_into_rtranclp ss_tick)
  then show "\<exists>a'. session_step\<^sup>*\<^sup>* a a' \<and> sess_rel s' a'" by (simp add: sess_rel_def)
qed

text \<open>A scheduler over a fresh book and a fresh session manager, with its own fresh queue.\<close>

definition sched_start :: "sched_state \<Rightarrow> bool" where
  "sched_start s \<longleftrightarrow> (\<exists>b sm cap aging poll mx drain retry window mxs cool limit rec.
     book_start (b, fst (snd s)) \<and> session_start (sm, snd (snd s))
     \<and> scheduler_init b sm cap aging poll mx drain retry window mxs cool limit rec = Inr (fst s))"

text \<open>The components of a scheduler in a reachable state are in reachable states of their own.\<close>

definition composed :: "sched_state \<Rightarrow> bool" where
  "composed s \<longleftrightarrow> (\<exists>a. book_rel s a \<and> reaches book_start book_step a)
     \<and> reaches queue_start queue_step (queue (fst s))
     \<and> reaches session_start session_step (sessions (fst s), snd (snd s))"

lemma scheduler_init_parts:
  assumes "scheduler_init b sm cap aging poll mx drain retry window mxs cool limit rec = Inr sc"
  shows "book sc = b" "sessions sc = sm" "queue_init cap aging = Inr (queue sc)"
  using assms by (auto simp: scheduler_init_def)

lemma composed_start:
  assumes "sched_start s"
  shows "composed s"
proof -
  from assms obtain b sm cap aging poll mx drain retry window mxs cool limit rec
    where st: "book_start (b, fst (snd s))" "session_start (sm, snd (snd s))"
      and init: "scheduler_init b sm cap aging poll mx drain retry window mxs cool limit rec = Inr (fst s)"
    unfolding sched_start_def by blast
  from scheduler_init_parts [OF init]
  have "book_rel s (b, fst (snd s))" "queue_start (queue (fst s))" "sessions (fst s) = sm"
    by (auto simp: book_rel_def queue_start_def)
  with st show ?thesis unfolding composed_def by (metis reaches_start)
qed

lemma composed_step:
  assumes "composed s" and "sched_step s s'"
  shows "composed s'"
proof -
  from assms(1) obtain a where a: "book_rel s a" "reaches book_start book_step a"
    and q: "reaches queue_start queue_step (queue (fst s))"
    and m: "reaches session_start session_step (sessions (fst s), snd (snd s))" by (auto simp: composed_def)
  from book_ref.sim [OF a(1) assms(2)] obtain a' where a': "book_step\<^sup>*\<^sup>* a a'" "book_rel s' a'" by blast
  have "queue_step\<^sup>*\<^sup>* (queue (fst s)) (queue (fst s'))"
    using queue_ref.sim [of s "queue (fst s)" s'] assms(2) by (auto simp: queue_rel_def)
  moreover have "session_step\<^sup>*\<^sup>* (sessions (fst s), snd (snd s)) (sessions (fst s'), snd (snd s'))"
    using sess_ref.sim [of s "(sessions (fst s), snd (snd s))" s'] assms(2) by (auto simp: sess_rel_def)
  ultimately show ?thesis
    unfolding composed_def
    using bm.reaches_steps [OF a'(1) a(2)] a'(2) qm.reaches_steps [OF _ q] ssm.reaches_steps [OF _ m] by blast
qed

interpretation scm: machine sched_start sched_step composed
  by unfold_locales (fact composed_start, fact composed_step)

text \<open>A scheduler that is shutting down, or without storage, ends a step with no lease it did not have.\<close>

lemma closed_step_leases:
  assumes "sched_step s s'" and "\<not> admits (fst s)"
  shows "set (all_leases (book (fst s'))) \<subseteq> set (all_leases (book (fst s)))"
  using sched_step_sect [OF assms(1)]
proof
  assume "sect s s'"
  then obtain sc u t sc' new where s: "s = (sc, u, t)" "s' = (sc', new \<union> u, t)" and new: "new_ids new u"
    and "sched_sim (admits sc) new t sc sc'" by (auto simp: sect_def)
  with assms(2) have "book_sim False new (book sc) (book sc')" by (simp add: sched_sim_def)
  moreover have "new \<inter> u = {}" "[] \<notin> new" using new by (simp_all add: new_ids_def)
  ultimately obtain u' where "(quiet_step False)\<^sup>*\<^sup>* (book sc, u) (book sc', u')" by (rule book_simE)
  from quiet_leases [OF this] s show ?thesis by simp
qed auto

lemma shutdown_step:
  assumes "sched_step s s'" and "shutting_down (fst s)"
  shows "shutting_down (fst s')"
  using sched_step_sect [OF assms(1)] assms(2) by (auto simp: sect_def sched_sim_def)

end
