(* ===== verification/Scheduler_Properties.thy ===== *)
theory Scheduler_Properties
  imports Scheduler_Machine
begin

text \<open>
  The properties of the scheduler: what its components keep under every interleaving of its
  sections, when a lease is granted, what shutdown and a storage fault do, and how stop batches
  and sessions end.
\<close>

section \<open>A run of a small scheduler\<close>

definition demo_sched :: Scheduler where
  "demo_sched = \<lparr>book = demo_book, queue = demo_empty_queue, sessions = demo_sessions, loads = [], load_retries = [],
     load_retry_limit = 1, eviction = None, shutting_down = False, storage_unavailable = False, max_evictions = 2,
     switch_drain_timeout_seconds = 10, switch_retry_seconds = 5, switch_intent = None, next_switch_attempt = [],
     switch_window_seconds = 60, max_switches_in_window = 3, cooldown_seconds = 20, switch_successes = [],
     cold_load_not_before = 0, has_recovery = True, session_leases = [], session_freeze = None, events = []\<rparr>"

lemma demo_sched_init:
  "scheduler_init demo_book demo_sessions 4 30 1 2 10 5 60 3 20 1 True = Inr demo_sched"
  by (simp add: scheduler_init_def policy_init_def queue_init_def demo_sched_def demo_empty_queue_def)

lemma demo_sched_start: "sched_start (demo_sched, {}, 0)"
  unfolding sched_start_def fst_conv snd_conv using demo_sched_init demo_start demo_sessions_start by blast

lemmas sched_reach_start = reaches_start [of sched_start _ sched_step]
lemmas sched_reach_step = reaches_step [of sched_start sched_step]

text \<open>
  Both models are found stopped, \<open>a\<close> is preloaded and reported healthy, request \<open>r1\<close> enters the
  queue and is granted a lease.
\<close>

definition demo_sched_off :: Scheduler where
  "demo_sched_off = demo_sched\<lparr>book := demo_off\<rparr>"

definition demo_sched_loading :: Scheduler where
  "demo_sched_loading = demo_sched\<lparr>book := demo_loading, loads := [(''a'', demo_op)]\<rparr>"

definition demo_sched_ready :: Scheduler where
  "demo_sched_ready = demo_sched\<lparr>book := demo_ready, loads := [(''a'', demo_op)], switch_successes := [2]\<rparr>"

definition demo_waiting :: QueuedRequest where
  "demo_waiting = \<lparr>q_request_id = ''r1'', q_model_id = ''a'', q_priority = 0, q_enqueued_at = 3, q_deadline = 100,
     q_sequence = 1, q_state = WAITING, q_kind = INTERACTIVE\<rparr>"

definition demo_sched_waiting :: Scheduler where
  "demo_sched_waiting = demo_sched_ready\<lparr>queue := demo_empty_queue\<lparr>q_items := [(''r1'', demo_waiting)], q_next := 1\<rparr>\<rparr>"

definition demo_sched_leased :: Scheduler where
  "demo_sched_leased = demo_sched_ready\<lparr>book := demo_leased, queue := demo_empty_queue\<lparr>q_next := 1\<rparr>\<rparr>"

definition demo_running :: Observation where
  "demo_running = \<lparr>obs_presence = P_RUNNING, obs_instance_id = Some ''i1'', obs_healthy = True, obs_observed_at = 2, obs_detail_code = None\<rparr>"

lemma demo_preload: "preload_start ''a'' demo_sample True ''op1'' 1 demo_sched_off = Inr (demo_sched_loading, True, False)"
proof -
  have "can_load demo_off ''a'' demo_sample 1 = Inr True"
    using demo_steps(3) by (auto simp: begin_load_def)
  moreover obtain r where "dget (runtime demo_off) ''a'' = Some r" "rt_state r = UNLOADED"
    by (simp add: demo_book_defs)
  ultimately show ?thesis
    by (simp add: preload_start_def preload_idle_def start_load_def demo_sched_off_def demo_sched_loading_def
        demo_sched_def demo_steps(3) dlookup_Some)
qed

lemma demo_load_observed: "load_observed demo_op demo_running 2 demo_sched_loading = Inr (demo_sched_ready, False)"
  by (simp add: load_observed_def demo_running_def demo_sched_loading_def demo_steps(4) record_cold_load_def Let_def
      demo_sched_ready_def demo_sched_def)

lemma demo_enter: "acquire_enter ''a'' ''r1'' 100 None 3 demo_sched_ready = (demo_sched_waiting, Inr ())"
proof -
  have "acquire_check demo_sched_ready ''a'' 100 None 3 = Inr ()"
    by (simp add: acquire_check_def demo_sched_ready_def demo_sched_def demo_book_defs)
  moreover have "ledger_priority (book demo_sched_ready) ''a'' = Inr 0"
    by (simp add: ledger_priority_def demo_sched_ready_def demo_ready_a dlookup_Some demo_ledger_def)
  ultimately show ?thesis
    by (simp add: acquire_enter_def enqueue_def expire_def queue_due_def Let_def demo_sched_waiting_def demo_sched_ready_def
        demo_sched_def demo_empty_queue_def demo_waiting_def)
qed

definition demo_sample3 :: MemorySample where
  "demo_sample3 = \<lparr>total_bytes = 1000, available_bytes = 500, sampled_at = 3\<rparr>"

lemma demo_admit: "can_admit_ready demo_ready ''a'' demo_sample3 3 = Inr True"
  by (simp add: can_admit_ready_def dlookup_Some demo_ready_a new_runtime_def demo_ledger_def sample_valid_def
      demo_sample3_def) (simp add: demo_book_defs)

lemma demo_head:
  "is_head ''r1'' 3 (Some (cold_request_eligible demo_sched_waiting 3)) None (queue demo_sched_waiting)
     = (queue demo_sched_waiting, True)"
proof -
  have "cold_request_eligible demo_sched_waiting 3 demo_waiting"
    by (simp add: cold_request_eligible_def demo_waiting_def demo_sched_waiting_def demo_sched_ready_def demo_sched_def
        demo_ready_a new_runtime_def)
  then show ?thesis
    by (simp add: is_head_def queue_head_def expire_def queue_due_def queue_candidates_def Let_def demo_sched_waiting_def
        demo_empty_queue_def service_key_def) (simp add: demo_waiting_def)
qed

lemma demo_grant: "acquire_try ''a'' ''r1'' 100 None demo_sample3 True ''L1'' 3 demo_sched_waiting
    = (demo_sched_leased, Inr (Granted demo_lease))"
proof -
  have flags: "\<not> shutting_down demo_sched_waiting" "\<not> storage_unavailable demo_sched_waiting"
    "expire_switch_intent 3 demo_sched_waiting = Inr demo_sched_waiting"
    "queue_contains ''r1'' (queue demo_sched_waiting)" "book demo_sched_waiting = demo_ready"
    by (simp_all add: demo_sched_waiting_def demo_sched_ready_def demo_sched_def expire_switch_intent_def
        queue_contains_def demo_waiting_def)
  have "grant_ready demo_sched_waiting ''a'' ''r1'' demo_sample3 True ''L1'' 3 = Inr (demo_leased, demo_lease)"
    by (simp add: grant_ready_def flags demo_admit demo_acquire)
  then have "acquire_head ''a'' ''r1'' None demo_sample3 True ''L1'' 3 demo_sched_waiting
      = (demo_sched_leased, Inr (Granted demo_lease))"
    by (simp add: acquire_head_def Let_def demo_sched_leased_def demo_sched_waiting_def queue_remove_def
        demo_empty_queue_def)
  with flags show ?thesis by (simp add: acquire_try_def demo_head)
qed

lemma demo_sched_reach:
  "reaches sched_start sched_step (demo_sched_off, {}, 1)"
  "reaches sched_start sched_step (demo_sched_loading, {''op1''}, 2)"
  "reaches sched_start sched_step (demo_sched_waiting, {''op1''}, 3)"
  "reaches sched_start sched_step (demo_sched_leased, {''L1'', ''op1''}, 3)"
proof -
  let ?R = "reaches sched_start sched_step"
  have "?R (demo_sched\<lparr>book := upd_rt ''a'' (\<lambda>r. r\<lparr>rt_state := UNLOADED, rt_reservation := 0\<rparr>) demo_book\<rparr>, {}, 0)"
    by (rule sched_reach_step [OF sched_reach_start [OF demo_sched_start] sc_bootstrap [where mid = "''a''"]])
      (simp add: demo_sched_def demo_steps(2))
  then have "?R (demo_sched_off, {}, 0)"
    using sc_bootstrap [of "demo_sched\<lparr>book := upd_rt ''a'' (\<lambda>r. r\<lparr>rt_state := UNLOADED, rt_reservation := 0\<rparr>) demo_book\<rparr>" "''b''" demo_off "{}" 0]
    by (auto simp: demo_steps(1) demo_sched_off_def intro: sched_reach_step)
  from sched_reach_step [OF this sc_tick [of 0 1]] show off: "?R (demo_sched_off, {}, 1)" by simp
  from sched_reach_step [OF off sc_preload_start [OF demo_preload]]
  have "?R (demo_sched_loading, {''op1''}, 1)" by (simp add: new_ids_def)
  from sched_reach_step [OF this sc_tick [of 1 2]] show ld: "?R (demo_sched_loading, {''op1''}, 2)" by simp
  from sched_reach_step [OF sched_reach_step [OF ld sc_load_observed [OF demo_load_observed]] sc_tick [of 2 3]]
  have "?R (demo_sched_ready, {''op1''}, 3)" by simp
  from sched_reach_step [OF this sc_enter [OF demo_enter]]
  show w: "?R (demo_sched_waiting, {''op1''}, 3)" .
  from sched_reach_step [OF w sc_try [OF demo_grant]]
  show "?R (demo_sched_leased, {''L1'', ''op1''}, 3)" by (simp add: new_ids_def insert_commute)
qed

section \<open>Composition\<close>

text \<open>
  C2. The scheduler refines its components.  In every state it reaches, under every
  interleaving of its critical sections, its book, its queue and its session manager are in
  states that these components reach on their own, by their own operations and with
  identifiers that the scheduler has drawn.
\<close>

theorem scheduler_refines_components:
  assumes "reaches sched_start sched_step (sc, used, t)"
  shows "(\<exists>used' \<subseteq> used. reaches book_start book_step (book sc, used'))
    \<and> reaches queue_start queue_step (queue sc)
    \<and> reaches session_start session_step (sessions sc, t)"
proof -
  have "composed (sc, used, t)" by (rule scm.reaches_inv [OF assms])
  then obtain a where a: "book_rel (sc, used, t) a" "reaches book_start book_step a"
    and rest: "reaches queue_start queue_step (queue sc)" "reaches session_start session_step (sessions sc, t)"
    by (auto simp: composed_def)
  from a(1) have "a = (book sc, snd a)" "snd a \<subseteq> used" by (simp_all add: book_rel_def prod_eq_iff)
  with a(2) rest show ?thesis by metis
qed

theorem scheduler_refines_components_witness:
  "(\<exists>used' \<subseteq> {''L1'', ''op1''}. reaches book_start book_step (demo_leased, used'))
   \<and> reaches queue_start queue_step (queue demo_sched_leased)"
  using scheduler_refines_components [OF demo_sched_reach(4)] by (simp add: demo_sched_leased_def)

lemma sched_run_book_inv:
  assumes "reaches sched_start sched_step s"
  shows "book_inv (book (fst s))"
proof -
  have "composed s" by (rule scm.reaches_inv [OF assms])
  then obtain a where a: "book_rel s a" "reaches book_start book_step a" by (auto simp: composed_def)
  from bm.reaches_inv [OF a(2)] a(1) show ?thesis by (simp add: run_inv_def book_rel_def)
qed

text \<open>
  C3. Once both ledgers of the book are within the model budget, no interleaving of the
  scheduler's sections takes either of them above it.
\<close>

theorem scheduler_keeps_budget:
  assumes "reaches sched_start sched_step s" and "within_budget (book (fst s))" and "sched_step\<^sup>*\<^sup>* s s'"
  shows "committed (book (fst s')) \<le> model_budget (book (fst s'))
    \<and> physical_committed (book (fst s')) \<le> model_budget (book (fst s'))"
proof -
  have "composed s" by (rule scm.reaches_inv [OF assms(1)])
  then obtain a where a: "book_rel s a" "reaches book_start book_step a" by (auto simp: composed_def)
  from book_ref.runs [OF assms(3) a(1)] obtain a' where a': "book_step\<^sup>*\<^sup>* a a'" "book_rel s' a'" by blast
  have "within_budget (fst a)" using a(1) assms(2) by (simp add: book_rel_def)
  with a'(1) bm.reaches_inv [OF a(2)] have "within_budget (fst a')"
    by (rule bm.steps_stable [where Q = "\<lambda>s. within_budget (fst s)", rotated]) (rule book_step_budget)
  with a'(2) show ?thesis by (simp add: book_rel_def within_budget_def)
qed

theorem scheduler_keeps_budget_witness:
  "committed (book demo_sched_loading) = 100
   \<and> committed (book demo_sched_loading) \<le> model_budget (book demo_sched_loading)"
proof -
  have "sched_step\<^sup>*\<^sup>* (demo_sched_off, {}, 1) (demo_sched_loading, {''op1''}, 1)"
    using sc_preload_start [OF demo_preload, of "{}"] by (simp add: new_ids_def r_into_rtranclp)
  moreover have "within_budget (book demo_sched_off)"
    by (simp add: within_budget_def committed_def physical_committed_def demo_sched_off_def demo_book_defs)
  ultimately have "committed (book demo_sched_loading) \<le> model_budget (book demo_sched_loading)"
    using scheduler_keeps_budget [OF demo_sched_reach(1), of "(demo_sched_loading, {''op1''}, 1)"] by simp
  then show ?thesis by (simp add: demo_sched_loading_def committed_def demo_book_defs)
qed

section \<open>Leases\<close>

lemma acquire_readyD':
  assumes "acquire_ready b uuid mid rid now = Inr (b', lease)"
  obtains r l where "dget (runtime b) mid = Some r" "dget (ledger b) mid = Some l" "\<not> recovering b" "rt_state r = READY"
    "\<not> rt_admission_blocked r" "int (length (rt_leases r)) < ls_max_concurrency l"
    "lease = \<lparr>lease_id = uuid, lease_request_id = rid, lease_model_id = mid, lease_generation = rt_generation r\<rparr>"
    "\<exists>r'. dget (runtime b') mid = Some r' \<and> dget (rt_leases r') uuid = Some lease"
  using assms by (auto simp: acquire_ready_def Let_def not_le)

lemma acquire_try_granted:
  assumes "acquire_try mid rid deadline sid s admitted uuid now sc = (sc', Inr (Granted lease))"
  obtains sc1 q b where "expire_switch_intent now sc = Inr sc1" "\<not> shutting_down sc1" "\<not> storage_unavailable sc1"
    "now < deadline" "is_head rid now (Some (cold_request_eligible sc1 now)) None (queue sc1) = (q, True)"
    "grant_ready sc1 mid rid s admitted uuid now = Inr (b, lease)" "book sc' = b"
    "queue sc' = fst (queue_remove rid CLAIMED q)"
  using assms
proof (cases rule: acquire_try_cases)
  case (head sc1 q)
  then obtain b where b: "grant_ready (sc1\<lparr>queue := q\<rparr>) mid rid s admitted uuid now = Inr (b, lease)"
    and parts: "book sc' = b" "queue sc' = fst (queue_remove rid CLAIMED q)"
    by (auto simp: acquire_head_def Let_def note_session_lease_def split: sum.splits if_splits option.splits)
  from b have "grant_ready sc1 mid rid s admitted uuid now = Inr (b, lease)" by (cases admitted) (simp_all add: grant_ready_def)
  with parts that [OF head(1-4) head(6)] show thesis by blast
qed auto

text \<open>
  C4. A request is granted a lease only when the service is neither shutting down nor without
  storage, its deadline is ahead, admission is allowed, the memory sample is valid and leaves the
  free floor, its model is READY, unblocked and below its concurrency, and it is the first of the
  eligible waiters; an interactive request is not granted while a session holds the freeze.  The
  lease is then in the book, for this request and the model's generation, and the waiter is gone
  from the queue.
\<close>

theorem acquire_grant_correct:
  assumes "queue_wf (queue sc)"
    and "acquire_try mid rid deadline sid s admitted uuid now sc = (sc', Inr (Granted lease))"
  shows "\<exists>sc1 r r' l item. expire_switch_intent now sc = Inr sc1 \<and> admits sc \<and> now < deadline \<and> admitted
    \<and> dget (runtime (book sc1)) mid = Some r \<and> dget (ledger (book sc1)) mid = Some l
    \<and> rt_state r = READY \<and> \<not> rt_admission_blocked r \<and> int (length (rt_leases r)) < ls_max_concurrency l
    \<and> sample_valid (book sc1) s now \<and> free_floor (book sc1) \<le> available_bytes s
    \<and> snd (queue_head now (Some (cold_request_eligible sc1 now)) None (queue sc1)) = Some item
    \<and> q_request_id item = rid \<and> (q_kind item = INTERACTIVE \<longrightarrow> session_freeze sc1 = None)
    \<and> lease = \<lparr>lease_id = uuid, lease_request_id = rid, lease_model_id = mid, lease_generation = rt_generation r\<rparr>
    \<and> dget (runtime (book sc')) mid = Some r' \<and> dget (rt_leases r') uuid = Some lease
    \<and> \<not> queue_contains rid (queue sc')"
proof -
  from assms(2) obtain sc1 q b where sc1: "expire_switch_intent now sc = Inr sc1" "\<not> shutting_down sc1"
    "\<not> storage_unavailable sc1" and "now < deadline"
    and h: "is_head rid now (Some (cold_request_eligible sc1 now)) None (queue sc1) = (q, True)"
    and g: "grant_ready sc1 mid rid s admitted uuid now = Inr (b, lease)"
    and sc': "book sc' = b" "queue sc' = fst (queue_remove rid CLAIMED q)"
    by (rule acquire_try_granted)
  have "queue sc1 = queue sc" using sc1(1) by (auto simp: expire_switch_intent_def split: option.splits if_splits)
  with assms(1) have wf: "queue_wf (queue sc1)" by simp
  from h obtain item where item: "queue_head now (Some (cold_request_eligible sc1 now)) None (queue sc1) = (q, Some item)"
    "q_request_id item = rid" by (auto simp: is_head_def split: prod.splits option.splits)
  from queue_head_SomeD [OF wf item(1)] have "cold_request_eligible sc1 now item"
    by (auto simp: queue_candidates_def)
  then have fr: "q_kind item = INTERACTIVE \<longrightarrow> session_freeze sc1 = None"
    by (auto simp: cold_request_eligible_def split: if_splits)
  have gone: "\<not> queue_contains rid (queue sc')" by (auto simp: sc' queue_contains_def queue_remove_def dget_None_iff split: option.splits)
  from grant_readyD(3) [OF g] obtain r l where rl: "dget (runtime (book sc1)) mid = Some r" "dget (ledger (book sc1)) mid = Some l"
    "rt_state r = READY" "\<not> rt_admission_blocked r" "int (length (rt_leases r)) < ls_max_concurrency l"
    "lease = \<lparr>lease_id = uuid, lease_request_id = rid, lease_model_id = mid, lease_generation = rt_generation r\<rparr>"
    and r': "\<exists>r'. dget (runtime b) mid = Some r' \<and> dget (rt_leases r') uuid = Some lease" by (rule acquire_readyD')
  from grant_readyD(2) [OF g] rl have "sample_valid (book sc1) s now" "free_floor (book sc1) \<le> available_bytes s"
    by (auto simp: can_admit_ready_def)
  moreover have "admits sc" using expire_intent_admits [OF sc1(1)] sc1 by (simp add: admits_def)
  moreover obtain r' where "dget (runtime (book sc')) mid = Some r'" "dget (rt_leases r') uuid = Some lease" using r' sc' by blast
  ultimately show ?thesis using sc1(1) \<open>now < deadline\<close> grant_readyD(1) [OF g] rl item fr gone by (metis snd_conv)
qed

lemma demo_queue_wf: "queue_wf (queue demo_sched_waiting)"
  using qm.reaches_inv scm.reaches_inv [OF demo_sched_reach(3)] by (auto simp: composed_def)

theorem acquire_grant_correct_witness:
  "admits demo_sched_waiting \<and> \<not> queue_contains ''r1'' (queue demo_sched_leased)"
  using acquire_grant_correct [OF demo_queue_wf demo_grant] by blast



section \<open>Closing the service\<close>

text \<open>
  C9. Once the service is shutting down it stays so, and under every interleaving of its
  sections no lease appears that was not there before.
\<close>

theorem shutdown_is_final:
  assumes "shutting_down (fst s)" and "sched_step\<^sup>*\<^sup>* s s'"
  shows "shutting_down (fst s') \<and> set (all_leases (book (fst s'))) \<subseteq> set (all_leases (book (fst s)))"
  using assms(2,1)
proof (induction rule: rtranclp_induct)
  case base
  then show ?case by simp
next
  case (step t u)
  then have t: "shutting_down (fst t)" "set (all_leases (book (fst t))) \<subseteq> set (all_leases (book (fst s)))" by blast+
  from shutdown_step [OF step.hyps(2) t(1)] closed_step_leases [OF step.hyps(2)] t show ?case
    by (auto simp: admits_def)
qed

theorem shutdown_is_final_witness:
  "let sc = demo_sched_waiting\<lparr>shutting_down := True\<rparr>;
       sc' = fst (acquire_try ''a'' ''r1'' 100 None demo_sample3 True ''L1'' 3 sc)
   in shutting_down sc' \<and> all_leases (book sc') = []"
proof -
  let ?sc = "demo_sched_waiting\<lparr>shutting_down := True\<rparr>"
  obtain sc' out where att: "acquire_try ''a'' ''r1'' 100 None demo_sample3 True ''L1'' 3 ?sc = (sc', out)" by fastforce
  have "sched_step\<^sup>*\<^sup>* (?sc, {}, 3) (sc', {''L1''}, 3)"
    using sc_try [OF att, of "{}"] by (simp add: new_ids_def r_into_rtranclp)
  with shutdown_is_final [of "(?sc, {}, 3)" "(sc', {''L1''}, 3)"]
  have "shutting_down sc'" "set (all_leases (book sc')) \<subseteq> set (all_leases (book ?sc))" by simp_all
  moreover have "all_leases (book ?sc) = []" by (simp add: demo_sched_waiting_def demo_sched_ready_def demo_ready_a)
  ultimately show ?thesis using att by (simp add: Let_def)
qed

subsection \<open>Aborting every lease\<close>

lemma lease_at_owned:
  assumes "book_inv b" and "lease_at b m k x"
  obtains r where "m = lease_model_id x" "k = lease_id x" "dget (runtime b) (lease_model_id x) = Some r" "owns r x"
proof -
  from assms(2) obtain r where r: "dget (runtime b) m = Some r" "dget (rt_leases r) k = Some x" by (auto simp: lease_at_def)
  with assms(1) obtain l where "rt_ok (recovering b) l m r" by (auto elim: book_inv_ledger)
  then have "leases_ok m (rt_generation r) (rt_leases r)" by (simp add: rt_ok_def)
  with r(2) have "lease_id x = k" "lease_model_id x = m" "lease_generation x = rt_generation r"
    by (auto simp: leases_ok_def)
  with r that show thesis by (simp add: owns_def)
qed

lemma abort_lease_ok:
  assumes inv: "book_inv b" and "dget (runtime b) (lease_model_id x) = Some r"
  obtains b' where "abort_lease now x b = Inr b'" "book_inv b'" "dkeys (runtime b') = dkeys (runtime b)"
    "recovering b' = recovering b" "x \<notin> set (all_leases b')" "set (all_leases b') \<subseteq> set (all_leases b)"
proof -
  let ?b' = "if owns r x then upd_rt (lease_model_id x) (release_rt b x ABORTED now None) b else b"
  have rel: "release b x ABORTED now None = Inr (?b', owns r x)"
    by (simp add: release_def dlookup_Some [OF assms(2)])
  note inv' = book_inv_release [OF inv rel]
  have "x \<notin> set (all_leases ?b')"
  proof
    assume "x \<in> set (all_leases ?b')"
    then obtain m k where "lease_at ?b' m k x" using book_inv_mem_leases [OF inv'] by blast
    with inv' obtain r' where r': "dget (runtime ?b') (lease_model_id x) = Some r'" "owns r' x" by (rule lease_at_owned)
    show False
      using r' assms(2) by (cases "owns r x") (auto simp: owns_def release_rt_leases)
  qed
  with that [of ?b'] rel inv' all_leases_release [OF rel] show thesis by (auto simp: abort_lease_def)
qed

lemma abort_each:
  assumes "book_inv b" and "\<forall>x \<in> set xs. lease_model_id x \<in> set (dkeys (runtime b))"
  shows "\<exists>b'. each (abort_lease now) xs b = Inr b' \<and> book_inv b' \<and> recovering b' = recovering b
    \<and> dkeys (runtime b') = dkeys (runtime b) \<and> set (all_leases b') \<subseteq> set (all_leases b) - set xs"
  using assms
proof (induction xs arbitrary: b)
  case (Cons x xs)
  have "lease_model_id x \<in> set (dkeys (runtime b))" using Cons.prems(2) by simp
  then obtain r where "dget (runtime b) (lease_model_id x) = Some r" by (rule dkey_get)
  from abort_lease_ok [OF Cons.prems(1) this] obtain c where c: "abort_lease now x b = Inr c" "book_inv c"
    "dkeys (runtime c) = dkeys (runtime b)" "recovering c = recovering b" "x \<notin> set (all_leases c)"
    "set (all_leases c) \<subseteq> set (all_leases b)" .
  with Cons.IH [of c] Cons.prems(2) obtain b' where b': "each (abort_lease now) xs c = Inr b'" "book_inv b'"
    "recovering b' = recovering c" "dkeys (runtime b') = dkeys (runtime c)" "set (all_leases b') \<subseteq> set (all_leases c) - set xs"
    by auto
  then show ?case using c by (intro exI [of _ b']) auto
qed auto

lemma abort_all_ok:
  assumes inv: "book_inv b"
  obtains b' where "abort_all_leases now b = Inr b'" "book_inv b'" "recovering b' = recovering b"
    "dkeys (runtime b') = dkeys (runtime b)" "all_leases b' = []"
proof -
  have "\<forall>x \<in> set (all_leases b). lease_model_id x \<in> set (dkeys (runtime b))"
  proof
    fix x assume "x \<in> set (all_leases b)"
    then obtain m k where "lease_at b m k x" using book_inv_mem_leases [OF inv] by blast
    with inv obtain r where "dget (runtime b) (lease_model_id x) = Some r" by (rule lease_at_owned)
    then show "lease_model_id x \<in> set (dkeys (runtime b))" by (rule dget_key)
  qed
  from abort_each [OF inv this] show thesis using that unfolding abort_all_leases_def by auto
qed

lemma no_leases: "all_leases b = [] \<Longrightarrow> (m, r) \<in> set (runtime b) \<Longrightarrow> rt_leases r = []"
  by (force simp: all_leases_def)

lemma begin_stops_total:
  "set mids \<subseteq> set (dkeys (runtime b)) \<Longrightarrow> \<exists>b' ops. begin_stops fresh i mids b = Inr (b', ops)"
proof (induction mids arbitrary: b i)
  case (Cons mid mids)
  from Cons.prems have "mid \<in> set (dkeys (runtime b))" by simp
  then obtain r where r: "dget (runtime b) mid = Some r" by (rule dkey_get)
  have "set mids \<subseteq> set (dkeys (runtime (upd_rt mid (stop_rt (fresh i)) b)))" using Cons.prems by simp
  from Cons.IH [OF this, of "Suc i"] obtain b' ops
    where "begin_stops fresh (Suc i) mids (upd_rt mid (stop_rt (fresh i)) b) = Inr (b', ops)" by blast
  with r show ?case by (auto simp: begin_stops_Cons simp del: begin_stops.simps)
qed simp

text \<open>The idle models of a consistent book without leases make one cleanup batch, unless it recovers.\<close>

lemma cleanup_idle:
  assumes inv: "book_inv b" and "\<not> recovering b" and "all_leases b = []" and "cleanup_targets b \<noteq> []"
  obtains b' ops where "begin_cleanup b fresh (cleanup_targets b) = Inr (b', ops)"
    "\<forall>m r. dget (runtime b') m = Some r \<longrightarrow> rt_state r \<notin> {READY, ERROR}"
proof -
  have d: "distinct (dkeys (runtime b))" by (rule book_inv_keys(3) [OF inv])
  have mem: "m \<in> set (cleanup_targets b) \<longleftrightarrow> (\<exists>r. dget (runtime b) m = Some r \<and> rt_state r \<in> {READY, ERROR})" for m
    using no_leases [OF assms(3)] by (force simp: cleanup_targets_def dget_iff_mem [OF d])
  have "cleanup_check b m = Inr ()" if m: "m \<in> set (cleanup_targets b)" for m
  proof -
    from m obtain r where r: "dget (runtime b) m = Some r" "rt_state r \<in> {READY, ERROR}" unfolding mem by blast
    with inv obtain l where "rt_ok (recovering b) l m r" by (auto elim: book_inv_ledger)
    with r no_leases [OF assms(3) dget_in_set [OF r(1)]] show ?thesis
      by (auto simp: cleanup_check_def dlookup_Some rt_okD)
  qed
  moreover have dist: "distinct (cleanup_targets b)"
    using d by (simp add: cleanup_targets_def distinct_map_filter)
  moreover obtain b' ops where b': "begin_stops fresh 0 (cleanup_targets b) b = Inr (b', ops)"
    using begin_stops_total [of "cleanup_targets b" b] mem dget_key by (metis subsetI)
  ultimately have "begin_cleanup b fresh (cleanup_targets b) = Inr (b', ops)"
    using assms(2,4) by (simp add: begin_cleanup_def batch_invalid_def check_all_Inr rbind_eq_Inr_iff)
  moreover have "rt_state r \<notin> {READY, ERROR}" if r: "dget (runtime b') m = Some r" for m r
  proof (cases "m \<in> set (cleanup_targets b)")
    case True
    from begin_stops_stopped [OF b' dist this] r show ?thesis by auto
  next
    case False
    with begin_stops_unchanged [OF b' this] r mem show ?thesis by auto
  qed
  ultimately show thesis using that by blast
qed

lemma stop_everything_ok:
  assumes inv: "book_inv (book sc)"
  obtains sc' res where "stop_everything fresh now sc = (sc', res)" "all_leases (book sc') = []"
    "queue sc' = queue sc" "storage_unavailable sc' = storage_unavailable sc"
    "\<not> recovering (book sc) \<longrightarrow> res = Inr ()"
    "\<not> recovering (book sc) \<and> eviction sc = None \<longrightarrow>
       (\<forall>m r. dget (runtime (book sc')) m = Some r \<longrightarrow> rt_state r \<notin> {READY, ERROR})"
proof -
  obtain b where b: "abort_all_leases now (book sc) = Inr b" "book_inv b" "recovering b = recovering (book sc)"
    "all_leases b = []" using abort_all_ok [OF inv] by metis
  show thesis
  proof (cases "eviction sc \<noteq> None \<or> cleanup_targets b = []")
    case True
    have "rt_state r \<notin> {READY, ERROR}" if "cleanup_targets b = []" "dget (runtime b) m = Some r" for m r
      using that no_leases [OF b(4) dget_in_set] dget_in_set [OF that(2)]
      by (force simp: cleanup_targets_def filter_empty_conv)
    with True b show thesis by (intro that [of "sc\<lparr>book := b\<rparr>" "Inr ()"]) (auto simp: stop_everything_def Let_def)
  next
    case False
    show thesis
    proof (cases "begin_cleanup b fresh (cleanup_targets b)")
      case (Inl e)
      have "recovering b"
      proof (rule ccontr)
        assume "\<not> recovering b"
        from cleanup_idle [OF b(2) this b(4), of fresh] False Inl show False by auto
      qed
      with False Inl b show thesis by (intro that [of "sc\<lparr>book := b\<rparr>" "Inl e"]) (auto simp: stop_everything_def Let_def)
    next
      case (Inr p)
      obtain b' ops where p: "p = (b', ops)" by (cases p)
      have idle: "\<forall>m r. dget (runtime b') m = Some r \<longrightarrow> rt_state r \<notin> {READY, ERROR}" if "\<not> recovering b"
        using cleanup_idle [OF b(2) that b(4), of fresh] False Inr p by auto
      have "begin_stops fresh 0 (cleanup_targets b) b = Inr (b', ops)"
        using begin_cleanupD(5) [OF b(2)] Inr p by blast
      from all_leases_stops [OF this] b(4) have "all_leases b' = []" by simp
      with False Inr p b idle show thesis
        by (intro that [of "sc\<lparr>book := b', eviction := Some ops\<rparr>" "Inr ()"]) (auto simp: stop_everything_def Let_def)
    qed
  qed
qed


lemma demo_book_inv: "book_inv demo_leased" "book_inv demo_loading"
  using bm.reaches_inv [OF demo_reach_leased] bm.reaches_inv [OF demo_reach(2)] by (simp_all add: run_inv_def)


text \<open>
  While a recovery runs, the common tail of shutdown and of a storage fault raises: a model
  that the recovery has fenced in ERROR is taken into a cleanup batch, which the book refuses.
\<close>

theorem stop_everything_raises_while_recovering:
  assumes "recovering (book sc)" and "all_leases (book sc) = []" and "eviction sc = None"
    and "dget (runtime (book sc)) m = Some r" and "rt_state r = ERROR"
  shows "stop_everything fresh now sc = (sc, Inl (Conflict ''invalid cleanup batch''))"
proof -
  have "m \<in> set (cleanup_targets (book sc))"
    using no_leases [OF assms(2) dget_in_set [OF assms(4)]] dget_in_set [OF assms(4)] assms(5)
    by (force simp: cleanup_targets_def)
  then have "cleanup_targets (book sc) \<noteq> []" by auto
  with assms(1-3) show ?thesis
    by (simp add: stop_everything_def abort_all_leases_def Let_def begin_cleanup_def batch_invalid_def)
qed

theorem stop_everything_raises_while_recovering_witness:
  "stop_everything (\<lambda>i. ''x'') 4 (demo_sched\<lparr>book := fst (begin_recovery demo_ready)\<rparr>)
     = (demo_sched\<lparr>book := fst (begin_recovery demo_ready)\<rparr>, Inl (Conflict ''invalid cleanup batch''))"
  by (rule stop_everything_raises_while_recovering [where m = "''a''"])
    (simp_all add: demo_sched_def begin_recovery_def demo_book_defs all_leases_def Let_def, simp)

lemma abort_all_loading:
  assumes "abort_all_leases now b = Inr b'" and "dget (runtime b) m = Some r" and "rt_leases r = []"
  shows "dget (runtime b') m = Some r \<and> epoch b' = epoch b"
  using assms(1) unfolding abort_all_leases_def
proof (rule each_inv [where P = "\<lambda>c. dget (runtime c) m = Some r \<and> epoch c = epoch b"])
  fix x c c'
  assume c: "dget (runtime c) m = Some r \<and> epoch c = epoch b" "abort_lease now x c = Inr c'"
  then obtain r' ok where r': "dget (runtime c) (lease_model_id x) = Some r'"
    "c' = c \<or> owns r' x \<and> c' = upd_rt (lease_model_id x) (release_rt c x ABORTED now None) c"
    by (auto simp: abort_lease_def release_def split: if_splits)
  then show "dget (runtime c') m = Some r \<and> epoch c' = epoch b"
    using c(1) assms(3) by (auto simp: owns_def)
qed (simp add: assms(2))

text \<open>
  C13. A model that is LOADING when storage is lost is not stopped: its entry and its token are
  untouched, and the report of its load makes it READY on a service without storage.
\<close>

theorem storage_lost_misses_loading:
  assumes "book_inv (book sc)" and "storage_lost fresh now sc = (sc', res)" and "\<not> storage_unavailable sc"
    and "operation_rt (book sc) oper = Inr r" and "rt_state r = LOADING"
    and "obs_presence obs = P_RUNNING" and "obs_healthy obs"
  shows "dget (runtime (book sc')) (op_model_id oper) = Some r
    \<and> (\<exists>sc'' r''. load_observed oper obs t sc' = Inr (sc'', False) \<and> storage_unavailable sc''
         \<and> dget (runtime (book sc'')) (op_model_id oper) = Some r'' \<and> rt_state r'' = READY)"
proof -
  let ?m = "op_model_id oper" and ?sc = "sc\<lparr>storage_unavailable := True, queue := fst (queue_clear CANCELLED (queue sc))\<rparr>"
  have r: "dget (runtime (book sc)) ?m = Some r" using assms(4) by (simp add: operation_rtD)
  from assms(1) r obtain l where "rt_ok (recovering (book sc)) l ?m r" by (auto elim: book_inv_ledger)
  with assms(5) have nl: "rt_leases r = []" by (auto simp: rt_ok_def)
  obtain b where b: "abort_all_leases now (book sc) = Inr b" "book_inv b" using abort_all_ok [OF assms(1)] by metis
  have same: "dget (runtime b) ?m = Some r" "epoch b = epoch (book sc)" using abort_all_loading [OF b(1) r nl] by auto
  have keep: "dget (runtime b') ?m = Some r \<and> epoch b' = epoch b"
    if "begin_cleanup b fresh (cleanup_targets b) = Inr (b', ops)" for b' ops
  proof -
    have "?m \<notin> set (cleanup_targets b)"
    proof
      assume "?m \<in> set (cleanup_targets b)"
      then obtain r' where "(?m, r') \<in> set (runtime b)" "rt_state r' \<in> {READY, ERROR}" by (auto simp: cleanup_targets_def)
      then have "dget (runtime b) ?m = Some r'" by (simp add: dget_iff_mem [OF book_inv_keys(3) [OF b(2)]])
      with same(1) assms(5) \<open>rt_state r' \<in> {READY, ERROR}\<close> show False by simp
    qed
    with begin_stops_unchanged [OF begin_cleanupD(5) [OF b(2) that]] begin_stops_static [OF begin_cleanupD(5) [OF b(2) that]] same
    show ?thesis by auto
  qed
  from assms(2,3) have "stop_everything fresh now ?sc = (sc', res)" by (simp add: storage_lost_def)
  then have sc': "dget (runtime (book sc')) ?m = Some r" "epoch (book sc') = epoch (book sc)" "storage_unavailable sc'"
    using b(1) same keep by (auto simp: stop_everything_def Let_def split: if_splits sum.splits)
  then have "operation_rt (book sc') oper = Inr r" using assms(4) by (simp add: operation_rtD)
  with sc' assms(5-7) show ?thesis by (simp add: load_observed_def loaded_def record_cold_load_def Let_def)
qed

theorem storage_lost_misses_loading_witness:
  "let sc' = fst (storage_lost (\<lambda>i. ''x'') 2 demo_sched_loading)
   in \<exists>r. dget (runtime (book sc')) ''a'' = Some r \<and> rt_state r = LOADING"
proof -
  have p: "book demo_sched_loading = demo_loading" "\<not> storage_unavailable demo_sched_loading"
    by (simp_all add: demo_sched_loading_def demo_sched_def)
  obtain r where r: "operation_rt demo_loading demo_op = Inr r" "rt_state r = LOADING" "op_model_id demo_op = ''a''"
    by (simp add: operation_rt_def demo_book_defs)
  obtain sc' res where sc': "storage_lost (\<lambda>i. ''x'') 2 demo_sched_loading = (sc', res)" by fastforce
  from storage_lost_misses_loading [OF _ sc' p(2), of demo_op r demo_running 3] p r demo_book_inv(2) sc' show ?thesis
    by (auto simp: demo_running_def)
qed

section \<open>Loads and stop batches\<close>

lemma stale_cases: "operation_rt b oper = Inl e \<Longrightarrow> dget (runtime b) (op_model_id oper) = Some r \<Longrightarrow> is_StaleOperation e"
  by (auto simp: operation_rt_def dlookup_Some split: if_splits)

text \<open>
  The end of a load.  A current token of a LOADING model makes it READY and unblocked when
  the backend reports it running and healthy, and ERROR and blocked otherwise, or when the
  backend call raised; then a recovery is asked for if there is one and none is running.  A stale
  token leaves the book alone.  The load is no longer listed in any case.
\<close>

theorem finish_load_correct:
  assumes "dget (runtime (book sc)) (op_model_id oper) = Some r"
  shows "\<exists>sc' recover. finish_load oper obs now sc = Inr (sc', recover)
    \<and> op_model_id oper \<notin> set (dkeys (loads sc'))
    \<and> (case operation_rt (book sc) oper of
         Inl e \<Rightarrow> book sc' = book sc \<and> \<not> recover
       | Inr _ \<Rightarrow> rt_state r = LOADING \<longrightarrow>
           (\<exists>r'. dget (runtime (book sc')) (op_model_id oper) = Some r' \<and> rt_operation_id r' = None
              \<and> rt_generation r' = rt_generation r \<and> rt_reservation r' = rt_reservation r
              \<and> (if \<exists>x. obs = Some x \<and> obs_presence x = P_RUNNING \<and> obs_healthy x
                 then rt_state r' = READY \<and> \<not> rt_admission_blocked r' \<and> \<not> recover
                 else rt_state r' = ERROR \<and> rt_admission_blocked r'
                      \<and> recover = (has_recovery sc \<and> \<not> recovering (book sc)))))"
proof (cases "operation_rt (book sc) oper")
  case (Inl e)
  have e: "is_StaleOperation e" by (rule stale_cases [OF Inl assms])
  show ?thesis
    by (cases obs) (auto simp: Inl e finish_load_def load_observed_def load_exception_def loaded_def failed_def load_done_def
        emit_def)
next
  case (Inr r0)
  with assms have "r0 = r" by (simp add: operation_rtD)
  with Inr assms show ?thesis
    by (cases obs) (auto simp: finish_load_def load_observed_def load_exception_def loaded_def failed_def load_done_def
        record_cold_load_def Let_def raise_if_def)
qed

theorem finish_load_correct_witness:
  "\<exists>sc' recover r'. finish_load demo_op None 2 demo_sched_loading = Inr (sc', recover) \<and> recover
     \<and> dget (runtime (book sc')) ''a'' = Some r' \<and> rt_state r' = ERROR"
proof -
  have p: "book demo_sched_loading = demo_loading" "has_recovery demo_sched_loading"
    by (simp_all add: demo_sched_loading_def demo_sched_def)
  obtain r where r: "operation_rt demo_loading demo_op = Inr r" "rt_state r = LOADING" "op_model_id demo_op = ''a''"
    "dget (runtime demo_loading) ''a'' = Some r" "\<not> recovering demo_loading"
    by (simp add: operation_rt_def demo_book_defs)
  from finish_load_correct [of demo_sched_loading demo_op r None 2] p r show ?thesis by auto
qed

lemma upd_unchanged: "m \<noteq> mid \<Longrightarrow> dget (runtime (upd_rt mid f b)) m = dget (runtime b) m"
  by simp

lemma rollback_pending_others:
  "rollback_pending ops b = Inr b' \<Longrightarrow> m \<notin> op_model_id ` set ops \<Longrightarrow> dget (runtime b') m = dget (runtime b) m"
proof (induction ops arbitrary: b)
  case (Cons oper ops)
  then obtain c where c: "rollback_pending ops c = Inr b'" "c = b \<or> rollback_unsent b oper = Inr c"
    by (auto split: sum.splits if_splits)
  have "dget (runtime c) m = dget (runtime b) m"
    using c(2) Cons.prems(2) by (auto simp: rollback_unsent_def)
  with Cons.IH [OF c(1)] Cons.prems(2) show ?case by simp
qed simp

lemma stop_observed_cases:
  assumes "stop_observed oper rest obs now sc = Inr (sc', out)"
  shows "m \<notin> op_model_id ` set (oper # rest) \<Longrightarrow> dget (runtime (book sc')) m = dget (runtime (book sc)) m"
    and "out = StopConfirmed \<Longrightarrow> (\<exists>x. obs = Some x \<and> obs_presence x = P_STOPPED)
      \<and> (\<exists>r. dget (runtime (book sc')) (op_model_id oper) = Some r \<and> rt_state r = UNLOADED \<and> rt_reservation r = 0)"
    and "\<not> (\<exists>x. obs = Some x \<and> obs_presence x = P_STOPPED) \<Longrightarrow> out = StopFailed"
  using assms
  by (auto simp: stop_observed_def stopped_def failed_def emit_def operation_rtD rollback_pending_others
      split: if_splits sum.splits)

text \<open>The models of a batch up to the first one whose stop was not confirmed.\<close>

fun proven_prefix :: "(nat \<Rightarrow> Observation option) \<Rightarrow> nat \<Rightarrow> Operation list \<Rightarrow> string list" where
  "proven_prefix obs i [] = []"
| "proven_prefix obs i (oper # ops) =
     (if \<exists>x. obs i = Some x \<and> obs_presence x = P_STOPPED then op_model_id oper # proven_prefix obs (Suc i) ops else [])"

definition off :: "Book \<Rightarrow> string \<Rightarrow> bool" where
  "off b m \<longleftrightarrow> (\<exists>r. dget (runtime b) m = Some r \<and> rt_state r = UNLOADED \<and> rt_reservation r = 0)"

lemma proven_prefix_subset: "set (proven_prefix obs i ops) \<subseteq> op_model_id ` set ops"
  by (induction ops arbitrary: i) (fastforce simp: image_iff split: if_splits)+

lemma finish_eviction_stopped:
  assumes "finish_eviction obs now i ops sc = Inr (sc', ms)" and "distinct (map op_model_id ops)"
  shows "(\<forall>m. m \<notin> op_model_id ` set ops \<longrightarrow> dget (runtime (book sc')) m = dget (runtime (book sc)) m)
    \<and> set ms \<subseteq> set (proven_prefix obs i ops) \<and> (\<forall>m \<in> set ms. off (book sc') m)"
  using assms
proof (induction ops arbitrary: i sc ms)
  case (Cons oper ops)
  then obtain sc1 out where st: "stop_observed oper ops (obs i) (now i) sc = Inr (sc1, out)" by auto
  note others = stop_observed_cases(1) [OF st]
  show ?case
  proof (cases out)
    case StopFailed
    with Cons.prems st others show ?thesis by auto
  next
    case StopRejected
    with Cons.prems st have rest: "finish_eviction obs now (Suc i) ops sc1 = Inr (sc', ms)" by auto
    have "\<exists>x. obs i = Some x \<and> obs_presence x = P_STOPPED"
      using stop_observed_cases(3) [OF st] StopRejected by auto
    with Cons.IH [OF rest] Cons.prems(2) others show ?thesis by auto
  next
    case StopConfirmed
    with Cons.prems st obtain ms' where rest: "finish_eviction obs now (Suc i) ops sc1 = Inr (sc', ms')"
      and ms: "ms = op_model_id oper # ms'" by auto
    have stop: "\<exists>x. obs i = Some x \<and> obs_presence x = P_STOPPED" and off: "off (book sc1) (op_model_id oper)"
      using stop_observed_cases(2) [OF st StopConfirmed] by (auto simp: off_def)
    from Cons.prems(2) have "op_model_id oper \<notin> op_model_id ` set ops" "distinct (map op_model_id ops)" by auto
    with Cons.IH [OF rest] off have "off (book sc') (op_model_id oper)" by (simp add: off_def)
    with Cons.IH [OF rest] Cons.prems(2) others stop ms show ?thesis by auto
  qed
qed auto

text \<open>
  C11. A stop batch reports only what it has proven.  Each model it reports is UNLOADED with its
  reservation released when the batch is over, and comes before the first model whose stop the
  backend did not confirm; models outside the batch are not touched, and the scheduler is free
  for the next batch.
\<close>

theorem eviction_reports_proven_stops:
  assumes "run_eviction obs now ops sc = Inr (sc', ms)" and "distinct (map op_model_id ops)"
  shows "(\<forall>m \<in> set ms. \<exists>r. dget (runtime (book sc')) m = Some r \<and> rt_state r = UNLOADED \<and> rt_reservation r = 0)
    \<and> set ms \<subseteq> set (proven_prefix obs 0 ops)
    \<and> (\<forall>m. m \<notin> op_model_id ` set ops \<longrightarrow> dget (runtime (book sc')) m = dget (runtime (book sc)) m)
    \<and> eviction sc' = None"
proof -
  from assms(1) obtain sc1 where "finish_eviction obs now 0 ops sc = Inr (sc1, ms)" "sc' = eviction_done sc1"
    by (auto simp: run_eviction_def)
  with finish_eviction_stopped [OF _ assms(2)] show ?thesis by (fastforce simp: eviction_done_def off_def)
qed

definition demo_stopping :: Book where
  "demo_stopping = upd_rt ''a'' (stop_rt ''op2'') demo_ready"

definition demo_stop_op :: Operation where
  "demo_stop_op = \<lparr>op_operation_id = ''op2'', op_model_id = ''a'', op_generation = 1, op_epoch = 0\<rparr>"

definition demo_stopped :: Observation where
  "demo_stopped = \<lparr>obs_presence = P_STOPPED, obs_instance_id = None, obs_healthy = False, obs_observed_at = 5, obs_detail_code = None\<rparr>"

theorem eviction_reports_proven_stops_witness:
  "\<exists>sc'. run_eviction (\<lambda>i. Some demo_stopped) (\<lambda>i. 5) [demo_stop_op] (demo_sched\<lparr>book := demo_stopping\<rparr>) = Inr (sc', [''a''])
     \<and> (\<exists>r. dget (runtime (book sc')) ''a'' = Some r \<and> rt_state r = UNLOADED \<and> rt_reservation r = 0)"
proof -
  obtain b where "stopped demo_stopping demo_stop_op (Some 5) = Inr b"
    by (simp add: stopped_def demo_stopping_def demo_stop_op_def operation_rt_def dlookup_def demo_ready_a new_runtime_def)
      (simp add: demo_book_defs)
  then obtain sc' where run: "run_eviction (\<lambda>i. Some demo_stopped) (\<lambda>i. 5) [demo_stop_op] (demo_sched\<lparr>book := demo_stopping\<rparr>) = Inr (sc', [''a''])"
    by (simp add: run_eviction_def stop_observed_def demo_stopped_def demo_stop_op_def)
  from eviction_reports_proven_stops [OF this]
  have "\<exists>r. dget (runtime (book sc')) ''a'' = Some r \<and> rt_state r = UNLOADED \<and> rt_reservation r = 0" by (simp add: demo_stop_op_def)
  with run show ?thesis by blast
qed

section \<open>Cold loads\<close>

lemma dropWhile_sorted:
  "sorted xs \<Longrightarrow> dropWhile (\<lambda>t. now - t > w) xs = filter (\<lambda>t. \<not> now - t > w) (xs :: time list)"
proof (induction xs)
  case (Cons x xs)
  show ?case
  proof (cases "now - x > w")
    case True
    with Cons show ?thesis by simp
  next
    case False
    with Cons.prems have "\<forall>y \<in> set xs. \<not> now - y > w" by fastforce
    then have "filter (\<lambda>t. \<not> now - t > w) xs = xs" by (simp add: filter_id_conv)
    with False show ?thesis by simp
  qed
qed simp



section \<open>Ends of sessions\<close>

text \<open>
  C14. A draining session can be closed while its model is still leased: a READY model with a
  lease is not a target of the stop, an empty list of targets counts as confirmed, and the
  session is then marked closed although nothing was stopped.
\<close>

theorem drain_closes_leased_session:
  assumes "dget (records (sessions sc)) sid = Some rec" and "s_phase rec = DRAINING"
    and "dget (runtime (book sc)) (s_model_id rec) = Some r" and "rt_leases r \<noteq> []" and "eviction sc = None"
  shows "stop_models_begin [s_model_id rec] fresh sc = Inr (sc, StopNothing)
    \<and> stop_models_confirmed [s_model_id rec] StopNothing sc = Inr True
    \<and> (\<exists>sc' rec'. drain_finish sid True now sc = Inr sc' \<and> book sc' = book sc
         \<and> dget (records (sessions sc')) sid = Some rec' \<and> s_phase rec' = CLOSED)"
  using assms
  by (auto simp: stop_models_begin_def dlookup_Some stop_models_confirmed_def drain_finish_def session_closed_def
      mark_closed_def session_get_def release_session_freeze_def Let_def drop_active_def)

theorem drain_closes_leased_session_witness:
  "\<exists>sc'. drain_finish ''s'' True 6 (demo_sched\<lparr>book := demo_leased, sessions := upd_session ''s'' (\<lambda>r. r\<lparr>s_phase := DRAINING\<rparr>) demo_active\<rparr>) = Inr sc'
     \<and> all_leases (book sc') = all_leases demo_leased"
proof -
  let ?sc = "demo_sched\<lparr>book := demo_leased, sessions := upd_session ''s'' (\<lambda>r. r\<lparr>s_phase := DRAINING\<rparr>) demo_active\<rparr>"
  obtain rec where "dget (records (sessions ?sc)) ''s'' = Some rec" "s_phase rec = DRAINING" "s_model_id rec = ''a''"
    by (simp add: demo_active_record(1) demo_active_record_def demo_session_def new_record_def)
  moreover obtain r where "dget (runtime (book ?sc)) ''a'' = Some r" "rt_leases r \<noteq> []"
    by (simp add: demo_leased_a)
  moreover have "eviction ?sc = None" by (simp add: demo_sched_def)
  ultimately obtain sc' where "drain_finish ''s'' True 6 ?sc = Inr sc'" "book sc' = book ?sc"
    using drain_closes_leased_session [of ?sc "''s''" rec r "\<lambda>i. []" 6] by auto
  then show ?thesis by simp
qed

text \<open>
  A session that is closed while its preparation waits for leases to drain: the yield of
  the preparation raises, the freeze it took is still set, and every interactive request is
  refused.
\<close>

theorem yield_after_close_keeps_freeze:
  assumes "prepare_begin sid sc = Inr (sc1, True)" and "close_session_begin sid reason now sc1 = Inr sc2"
  shows "prepare_yield sid later sc2 = Inl (SessionConflict ''session_not_preparing'')
    \<and> session_freeze sc2 = Some sid
    \<and> (\<forall>mid rid deadline t. \<exists>e. snd (acquire_enter mid rid deadline None t sc2) = Inl e)"
proof -
  from assms(1) obtain rec where rec: "dget (records (sessions sc1)) sid = Some rec" "s_phase rec = PREPARING"
    and fr: "session_freeze sc1 = Some sid" by (auto simp: prepare_begin_def split: if_splits)
  with assms(2) obtain sm where sm: "begin_drain (sessions sc1) sid now reason = Inr sm"
    and sc2: "sc2 = sc1\<lparr>sessions := sm, queue := fst (queue_remove sid CANCELLED (queue sc1))\<rparr>"
    by (auto simp: close_session_begin_def)
  from sm rec obtain rec' where rec': "dget (records sm) sid = Some rec'" "s_phase rec' \<noteq> PREPARING"
    by (auto simp: begin_drain_def drop_active_def)
  have fr': "session_freeze sc2 = Some sid" and sess: "sessions sc2 = sm" using fr by (simp_all add: sc2)
  have "\<exists>e. snd (acquire_enter mid rid deadline None t sc2) = Inl e" for mid rid deadline t
    using fr' by (simp add: acquire_enter_def acquire_check_def raise_if_def)
  moreover have "prepare_yield sid later sc2 = Inl (SessionConflict ''session_not_preparing'')"
    using rec' by (simp add: prepare_yield_def yield_prepare_def session_get_def sess)
  ultimately show ?thesis using fr' by blast
qed

theorem yield_after_close_keeps_freeze_witness:
  "\<exists>sc1 sc2. prepare_begin ''s'' (demo_sched\<lparr>sessions := demo_created\<rparr>) = Inr (sc1, True)
     \<and> close_session_begin ''s'' ''client'' 1 sc1 = Inr sc2
     \<and> prepare_yield ''s'' 2 sc2 = Inl (SessionConflict ''session_not_preparing'') \<and> session_freeze sc2 = Some ''s''"
proof -
  let ?sc = "demo_sched\<lparr>sessions := demo_created, session_freeze := Some ''s''\<rparr>"
  have rec: "dget (records demo_created) ''s'' = Some demo_session" "s_phase demo_session = PREPARING"
    by (simp_all add: demo_created_def demo_session_def new_record_def)
  then have p: "prepare_begin ''s'' (demo_sched\<lparr>sessions := demo_created\<rparr>) = Inr (?sc, True)"
    by (simp add: prepare_begin_def session_get_def demo_sched_def)
  obtain sc2 where c: "close_session_begin ''s'' ''client'' 1 ?sc = Inr sc2"
    using rec by (simp add: close_session_begin_def session_get_def begin_drain_def Let_def)
  from yield_after_close_keeps_freeze [OF p c, of 2] p c show ?thesis by blast
qed

end
