(* ===== verification/Json_Values.thy ===== *)
theory Json_Values
  imports Contracts_V2
begin

text \<open>
  JSON documents as \<^verbatim>\<open>json.loads\<close> hands them to the strict parsers of
  \<^verbatim>\<open>model_scheduler/contracts_v2.py\<close>, and the value helpers these parsers share.  The grammar
  of the text is the standard library's; a document starts here as the tree of its text, with
  duplicate keys still in it.  \<open>JFloat None\<close> is a number that is not finite.  Messages keep
  their fixed text; the position that the code puts in front is dropped.
\<close>

datatype json = JNull | JBool bool | JInt int | JFloat "real option" | JStr string
  | JList "json list" | JObj "(string, json) dict"

section \<open>Whole documents\<close>

fun reject_duplicate_keys :: "json \<Rightarrow> unit result" and reject_duplicate_pairs :: "(string, json) dict \<Rightarrow> unit result"
  and reject_duplicate_items :: "json list \<Rightarrow> unit result" where
  "reject_duplicate_keys (JObj d) =
     rbind (reject_duplicate_pairs d) (\<lambda>_. raise_if (\<not> distinct (dkeys d)) (ContractError ''duplicate JSON key''))"
| "reject_duplicate_keys (JList xs) = reject_duplicate_items xs"
| "reject_duplicate_keys _ = Inr ()"
| "reject_duplicate_pairs [] = Inr ()"
| "reject_duplicate_pairs ((k, v) # d) = rbind (reject_duplicate_keys v) (\<lambda>_. reject_duplicate_pairs d)"
| "reject_duplicate_items [] = Inr ()"
| "reject_duplicate_items (x # xs) = rbind (reject_duplicate_keys x) (\<lambda>_. reject_duplicate_items xs)"

fun check_finite :: "json \<Rightarrow> unit result" and check_finite_pairs :: "(string, json) dict \<Rightarrow> unit result"
  and check_finite_items :: "json list \<Rightarrow> unit result" where
  "check_finite (JFloat None) = Inl (ContractError ''non-finite numbers are not allowed'')"
| "check_finite (JObj d) = check_finite_pairs d"
| "check_finite (JList xs) = check_finite_items xs"
| "check_finite _ = Inr ()"
| "check_finite_pairs [] = Inr ()"
| "check_finite_pairs ((k, v) # d) = rbind (check_finite v) (\<lambda>_. check_finite_pairs d)"
| "check_finite_items [] = Inr ()"
| "check_finite_items (x # xs) = rbind (check_finite x) (\<lambda>_. check_finite_items xs)"

definition parse_json_document :: "json \<Rightarrow> json result" where
  "parse_json_document doc =
     rbind (reject_duplicate_keys doc) (\<lambda>_. rbind (check_finite doc) (\<lambda>_. Inr doc))"

section \<open>Values of an object\<close>

definition as_mapping :: "json \<Rightarrow> (string, json) dict result" where
  "as_mapping v = (case v of JObj d \<Rightarrow> Inr d | _ \<Rightarrow> Inl (ContractError ''expected an object''))"

definition exact_keys :: "(string, json) dict \<Rightarrow> string list \<Rightarrow> unit result" where
  "exact_keys d allowed = raise_if (\<exists>k \<in> set (dkeys d). k \<notin> set allowed) (ContractError ''unknown fields'')"

text \<open>\<^verbatim>\<open>data.get(key)\<close>: a missing key reads as \<^verbatim>\<open>None\<close>, like a null.\<close>

definition jget :: "(string, json) dict \<Rightarrow> string \<Rightarrow> json" where
  "jget d k = (case dget d k of None \<Rightarrow> JNull | Some v \<Rightarrow> v)"

definition get_str :: "(string, json) dict \<Rightarrow> string \<Rightarrow> string result" where
  "get_str d k = (case jget d k of JStr s \<Rightarrow> (if s = [] then Inl (ContractError ''must be a non-empty string'') else Inr s)
     | _ \<Rightarrow> Inl (ContractError ''must be a non-empty string''))"

definition get_str_pattern :: "(string, json) dict \<Rightarrow> string \<Rightarrow> (string \<Rightarrow> bool) \<Rightarrow> string result" where
  "get_str_pattern d k pattern =
     rbind (get_str d k) (\<lambda>s. if pattern s then Inr s else Inl (ContractError ''has invalid format''))"

definition get_int :: "(string, json) dict \<Rightarrow> string \<Rightarrow> int option \<Rightarrow> int option \<Rightarrow> int result" where
  "get_int d k minimum maximum =
     (case jget d k of
        JInt v \<Rightarrow>
          rbind (raise_if (case minimum of None \<Rightarrow> False | Some m \<Rightarrow> v < m) (ContractError ''must be >= minimum'')) (\<lambda>_.
          rbind (raise_if (case maximum of None \<Rightarrow> False | Some m \<Rightarrow> v > m) (ContractError ''must be <= maximum'')) (\<lambda>_. Inr v))
      | _ \<Rightarrow> Inl (ContractError ''must be an integer''))"

definition get_bool :: "(string, json) dict \<Rightarrow> string \<Rightarrow> bool result" where
  "get_bool d k = (case jget d k of JBool b \<Rightarrow> Inr b | _ \<Rightarrow> Inl (ContractError ''must be a boolean''))"

definition get_list :: "(string, json) dict \<Rightarrow> string \<Rightarrow> json list result" where
  "get_list d k = (case jget d k of JList xs \<Rightarrow> Inr xs | _ \<Rightarrow> Inl (ContractError ''must be a list''))"

section \<open>Patterns\<close>

text \<open>Each pattern is matched against the whole string.\<close>

definition lower :: "char \<Rightarrow> bool" where
  "lower c \<longleftrightarrow> c \<in> set ''abcdefghijklmnopqrstuvwxyz''"

definition digit :: "char \<Rightarrow> bool" where
  "digit c \<longleftrightarrow> c \<in> set ''0123456789''"

definition sha256_ok :: "string \<Rightarrow> bool" where
  "sha256_ok s \<longleftrightarrow> length s = 64 \<and> list_all (\<lambda>c. c \<in> set ''0123456789abcdef'') s"

definition id_ok :: "string \<Rightarrow> bool" where
  "id_ok s = (case s of
      [] \<Rightarrow> False
    | c # rest \<Rightarrow> (lower c \<or> digit c) \<and>
        (rest = [] \<or> ((lower (last rest) \<or> digit (last rest)) \<and> length (butlast rest) \<le> 61
           \<and> list_all (\<lambda>c. lower c \<or> digit c \<or> c \<in> set ''._-'') (butlast rest))))"

definition flag_ok :: "string \<Rightarrow> bool" where
  "flag_ok s = (case s of
      a # b # c # rest \<Rightarrow> [a, b] = ''--'' \<and> lower c \<and> list_all (\<lambda>x. lower x \<or> digit x \<or> [x] = ''-'') rest
    | _ \<Rightarrow> False)"

text \<open>White space of \<^verbatim>\<open>\s\<close> among the code points below 256.\<close>

definition space :: "char \<Rightarrow> bool" where
  "space c \<longleftrightarrow> (of_char c :: nat) \<in> {9, 10, 11, 12, 13, 28, 29, 30, 31, 32, 133, 160}"

definition image_digest_ok :: "string \<Rightarrow> bool" where
  "image_digest_ok s =
     (let n = length s - 72; name = take n s; rest = drop n s
      in name \<noteq> [] \<and> list_all (\<lambda>c. [c] \<noteq> ''@'' \<and> \<not> space c) name
         \<and> take 8 rest = ''@sha256:'' \<and> sha256_ok (drop 8 rest))"

definition sha256_value :: "json \<Rightarrow> string result" where
  "sha256_value v = (case v of JStr s \<Rightarrow> (if sha256_ok s then Inr s else Inl (ContractError ''must be a lowercase 64-hex SHA-256''))
     | _ \<Rightarrow> Inl (ContractError ''must be a lowercase 64-hex SHA-256''))"

text \<open>\<^verbatim>\<open>value.split("/")\<close>\<close>

fun split_on :: "char \<Rightarrow> string \<Rightarrow> string list" where
  "split_on c [] = [[]]"
| "split_on c (x # xs) =
     (if x = c then [] # split_on c xs else (case split_on c xs of p # ps \<Rightarrow> (x # p) # ps | [] \<Rightarrow> [[x]]))"

definition control_char :: "char \<Rightarrow> bool" where
  "control_char c \<longleftrightarrow> (of_char c :: nat) < 32 \<or> (of_char c :: nat) = 127"

definition safe_relative_path :: "json \<Rightarrow> string result" where
  "safe_relative_path v = (case v of
      JStr s \<Rightarrow>
        rbind (raise_if (s = []) (ContractError ''path must be a non-empty string'')) (\<lambda>_.
        rbind (raise_if (list_ex control_char s) (ContractError ''path must not contain control characters'')) (\<lambda>_.
        rbind (raise_if (take 1 s = ''/'' \<or> CHR 0x5C \<in> set s) (ContractError ''path must be a relative POSIX path'')) (\<lambda>_.
        rbind (raise_if (list_ex (\<lambda>p. p \<in> {[], ''.'', ''..''}) (split_on (CHR ''/'') s))
                (ContractError ''path must not contain empty or dot segments'')) (\<lambda>_. Inr s))))
    | _ \<Rightarrow> Inl (ContractError ''path must be a non-empty string''))"

definition positive_int_value :: "json \<Rightarrow> int result" where
  "positive_int_value v = (case v of JInt n \<Rightarrow> positive_int n | _ \<Rightarrow> Inl (ContractError ''must be a positive integer''))"

definition nullable_sha256 :: "(string, json) dict \<Rightarrow> string \<Rightarrow> string option result" where
  "nullable_sha256 d k =
     (case dget d k of
        None \<Rightarrow> Inl (ContractError ''is required and must be null while the model is unmeasured'')
      | Some JNull \<Rightarrow> Inr None
      | Some v \<Rightarrow> rbind (sha256_value v) (\<lambda>s. Inr (Some s)))"

definition nullable_positive_int :: "(string, json) dict \<Rightarrow> string \<Rightarrow> int option result" where
  "nullable_positive_int d k =
     (case dget d k of
        None \<Rightarrow> Inl (ContractError ''is required and must be null while the model is unmeasured'')
      | Some JNull \<Rightarrow> Inr None
      | Some v \<Rightarrow> rbind (positive_int_value v) (\<lambda>n. Inr (Some n)))"

section \<open>What the helpers accept\<close>

named_theorems json_simps "values that the helpers accept"

lemma as_mapping_Inr [simp, json_simps]: "as_mapping v = Inr d \<longleftrightarrow> v = JObj d"
  by (cases v) (auto simp: as_mapping_def)

lemma exact_keys_Inr [simp, json_simps]: "exact_keys d allowed = Inr u \<longleftrightarrow> set (dkeys d) \<subseteq> set allowed"
  by (auto simp: exact_keys_def)

lemma get_str_Inr [simp, json_simps]: "get_str d k = Inr s \<longleftrightarrow> jget d k = JStr s \<and> s \<noteq> []"
  by (auto simp: get_str_def split: json.splits)

lemma get_str_pattern_Inr [simp, json_simps]: "get_str_pattern d k p = Inr s \<longleftrightarrow> jget d k = JStr s \<and> s \<noteq> [] \<and> p s"
  by (auto simp: get_str_pattern_def rbind_eq_Inr_iff)

lemma get_int_Inr [simp, json_simps]:
  "get_int d k lo hi = Inr v \<longleftrightarrow> jget d k = JInt v \<and> (\<forall>m. lo = Some m \<longrightarrow> m \<le> v) \<and> (\<forall>m. hi = Some m \<longrightarrow> v \<le> m)"
  by (auto simp: get_int_def rbind_eq_Inr_iff not_less split: json.splits option.splits)

lemma get_bool_Inr [simp, json_simps]: "get_bool d k = Inr b \<longleftrightarrow> jget d k = JBool b"
  by (auto simp: get_bool_def split: json.splits)

lemma get_list_Inr [simp, json_simps]: "get_list d k = Inr xs \<longleftrightarrow> jget d k = JList xs"
  by (auto simp: get_list_def split: json.splits)

lemma sha256_value_Inr [simp, json_simps]: "sha256_value v = Inr s \<longleftrightarrow> v = JStr s \<and> sha256_ok s"
  by (auto simp: sha256_value_def split: json.splits)

lemma positive_int_value_Inr [simp, json_simps]: "positive_int_value v = Inr n \<longleftrightarrow> v = JInt n \<and> 0 < n"
  by (auto simp: positive_int_value_def split: json.splits)

text \<open>A path of registered segments: relative, without control characters, empty or dot segments.\<close>

definition path_ok :: "string \<Rightarrow> bool" where
  "path_ok s \<longleftrightarrow> (\<forall>c \<in> set s. \<not> control_char c \<and> c \<noteq> CHR 0x5C) \<and> (\<forall>p \<in> set (split_on (CHR ''/'') s). p \<notin> {[], ''.'', ''..''})"

lemma split_on_slash: "take 1 s = [c] \<Longrightarrow> [] \<in> set (split_on c s)"
  by (cases s) auto

lemma safe_relative_path_Inr [simp, json_simps]: "safe_relative_path v = Inr s \<longleftrightarrow> v = JStr s \<and> path_ok s"
proof (cases v)
  case (JStr t)
  have "path_ok t \<longleftrightarrow> t \<noteq> [] \<and> \<not> list_ex control_char t \<and> \<not> (take 1 t = ''/'' \<or> CHR 0x5C \<in> set t)
      \<and> \<not> list_ex (\<lambda>p. p \<in> {[], ''.'', ''..''}) (split_on (CHR ''/'') t)"
    using split_on_slash [of t "CHR ''/''"] by (cases t) (auto simp: path_ok_def list_ex_iff)
  then show ?thesis by (auto simp: JStr safe_relative_path_def rbind_eq_Inr_iff)
qed (auto simp: safe_relative_path_def)

lemma nullable_sha256_Inr:
  "nullable_sha256 d k = Inr r \<longleftrightarrow> (case r of None \<Rightarrow> dget d k = Some JNull | Some s \<Rightarrow> dget d k = Some (JStr s) \<and> sha256_ok s)"
  by (auto simp: nullable_sha256_def rbind_eq_Inr_iff split: option.splits json.splits)

lemma nullable_positive_int_Inr:
  "nullable_positive_int d k = Inr r \<longleftrightarrow> (case r of None \<Rightarrow> dget d k = Some JNull | Some n \<Rightarrow> dget d k = Some (JInt n) \<and> 0 < n)"
  by (auto simp: nullable_positive_int_def rbind_eq_Inr_iff split: option.splits json.splits)

text \<open>Documents that pass: no duplicate key and no number that is not finite, at any depth.\<close>

inductive json_ok :: "json \<Rightarrow> bool" where
  json_ok_null: "json_ok JNull"
| json_ok_bool: "json_ok (JBool b)"
| json_ok_int: "json_ok (JInt n)"
| json_ok_float: "json_ok (JFloat (Some x))"
| json_ok_str: "json_ok (JStr s)"
| json_ok_list: "\<forall>x \<in> set xs. json_ok x \<Longrightarrow> json_ok (JList xs)"
| json_ok_obj: "distinct (dkeys d) \<Longrightarrow> \<forall>v \<in> set (dvals d). json_ok v \<Longrightarrow> json_ok (JObj d)"

inductive_simps json_ok_simps:
  "json_ok JNull" "json_ok (JBool b)" "json_ok (JInt n)" "json_ok (JFloat x)" "json_ok (JStr s)"
  "json_ok (JList xs)" "json_ok (JObj d)"

lemma check_finite_float [simp]: "check_finite (JFloat x) = Inr () \<longleftrightarrow> x \<noteq> None"
  by (cases x) auto

lemma document_ok_iff:
  "(reject_duplicate_keys v = Inr () \<and> check_finite v = Inr ()) = json_ok v"
  "(reject_duplicate_pairs d = Inr () \<and> check_finite_pairs d = Inr ()) = (\<forall>v \<in> set (dvals d). json_ok v)"
  "(reject_duplicate_items xs = Inr () \<and> check_finite_items xs = Inr ()) = (\<forall>x \<in> set xs. json_ok x)"
proof (induction v and d and xs rule: reject_duplicate_keys_reject_duplicate_pairs_reject_duplicate_items.induct)
  case (1 d)
  then show ?case by (auto simp: json_ok_simps rbind_eq_Inr_iff)
qed (auto simp: json_ok_simps rbind_eq_Inr_iff)

lemma parse_json_document_Inr: "parse_json_document doc = Inr v \<longleftrightarrow> v = doc \<and> json_ok doc"
  using document_ok_iff(1) [of doc] by (auto simp: parse_json_document_def rbind_eq_Inr_iff)

end
