(* ===== verification/Registration_Parser.thy ===== *)
theory Registration_Parser
  imports Json_Values
begin

text \<open>
  The strict parsers of \<^verbatim>\<open>model_scheduler/contracts_v2.py\<close>: assets, runtimes, envelopes, models
  and whole deployments, and the checks that open a model for production.
\<close>

section \<open>Matrix and profiles\<close>

definition ASSET_ROLES :: "string list" where
  "ASSET_ROLES = [''model'', ''projector'', ''tokenizer'', ''config'', ''auxiliary'']"

definition ALLOWED_STARTUP_FLAGS :: "string list" where
  "ALLOWED_STARTUP_FLAGS = [''--parallel'', ''--kv-unified-per-slot'', ''--image-max-tokens'', ''--n-gpu-layers'',
     ''--flash-attn'', ''--load-mode'', ''--no-warmup'', ''--no-webui'', ''--host'', ''--port'', ''--ctx-size'',
     ''--batch-size'', ''--ubatch-size'', ''--threads'']"

record CapabilitySpec =
  cs_capability :: string
  cs_required_asset_roles :: "string list"
  cs_protocol :: string

definition CAPABILITY_MATRIX :: "(string, CapabilitySpec) dict" where
  "CAPABILITY_MATRIX =
     [(''chat'', \<lparr>cs_capability = ''chat'', cs_required_asset_roles = [''model''], cs_protocol = ''openai-chat''\<rparr>),
      (''vision'', \<lparr>cs_capability = ''vision'', cs_required_asset_roles = [''model'', ''projector''],
                    cs_protocol = ''openai-chat-media''\<rparr>),
      (''embeddings'', \<lparr>cs_capability = ''embeddings'', cs_required_asset_roles = [''model''],
                        cs_protocol = ''openai-embeddings''\<rparr>),
      (''rerank'', \<lparr>cs_capability = ''rerank'', cs_required_asset_roles = [''model''], cs_protocol = ''llama-rerank''\<rparr>)]"

text \<open>The cardinalities are listed in the order in which the code sorts them.\<close>

record RuntimeProfile =
  pr_profile_id :: string
  pr_role_cardinality :: "(string, int \<times> int option) dict"
  pr_allowed_flags :: "string list"
  pr_executable :: bool

definition PROFILES :: "(string, RuntimeProfile) dict" where
  "PROFILES =
     [(''llama-cpp-gguf-v1'', \<lparr>pr_profile_id = ''llama-cpp-gguf-v1'',
         pr_role_cardinality = [(''model'', 1, Some 1), (''projector'', 0, Some 1)],
         pr_allowed_flags = ALLOWED_STARTUP_FLAGS, pr_executable = True\<rparr>),
      (''hf-sharded-v1'', \<lparr>pr_profile_id = ''hf-sharded-v1'',
         pr_role_cardinality = [(''config'', 0, Some 1), (''model'', 1, None), (''tokenizer'', 0, Some 1)],
         pr_allowed_flags = [''--host'', ''--port'', ''--threads''], pr_executable = False\<rparr>)]"

record DeploymentSpec =
  dep_runtimes :: "RuntimeSpec list"
  dep_models :: "RegisteredModelSpec list"

section \<open>Parsers\<close>

definition ASSET_KEYS :: "string list" where
  "ASSET_KEYS = [''role'', ''path'', ''sha256'', ''size_bytes'']"

definition RUNTIME_KEYS :: "string list" where
  "RUNTIME_KEYS = [''runtime_id'', ''profile_id'', ''image_digest'', ''adapter_sha256'', ''lock_sha256'', ''startup_args'']"

definition ENVELOPE_KEYS :: "string list" where
  "ENVELOPE_KEYS = [''ctx_size'', ''max_input_tokens'', ''max_output_tokens'', ''max_parallel'', ''max_image_tokens'',
     ''max_image_edge_pixels'', ''max_images'']"

definition MODEL_KEYS :: "string list" where
  "MODEL_KEYS = [''model_id'', ''runtime_id'', ''capabilities'', ''assets'', ''port'', ''envelope'', ''timeout_seconds'',
     ''reserved_bytes'', ''measured'', ''measurement_ref'', ''physical_resident_peak_bytes'']"

definition DEPLOYMENT_KEYS :: "string list" where
  "DEPLOYMENT_KEYS = [''schema_version'', ''runtimes'', ''models'']"

definition parse_asset_ref :: "json \<Rightarrow> AssetRef result" where
  "parse_asset_ref data =
     rbind (as_mapping data) (\<lambda>d.
     rbind (exact_keys d ASSET_KEYS) (\<lambda>_.
     rbind (get_str d ''role'') (\<lambda>role.
     rbind (raise_if (role \<notin> set ASSET_ROLES) (ContractError ''unknown asset role'')) (\<lambda>_.
     rbind (safe_relative_path (jget d ''path'')) (\<lambda>path.
     rbind (sha256_value (jget d ''sha256'')) (\<lambda>sha.
     rbind (get_int d ''size_bytes'' (Some 1) None) (\<lambda>size.
     Inr \<lparr>ar_role = role, ar_path = path, ar_sha256 = sha, ar_size_bytes = size\<rparr>)))))))"

fun parse_startup_items :: "RuntimeProfile \<Rightarrow> string list \<Rightarrow> json list \<Rightarrow> string list result" where
  "parse_startup_items profile seen [] = Inr []"
| "parse_startup_items profile seen (item # items) =
     (case item of
        JStr s \<Rightarrow>
          rbind (raise_if (\<not> flag_ok s) (ContractError ''invalid startup arg'')) (\<lambda>_.
          rbind (raise_if (s \<notin> set ALLOWED_STARTUP_FLAGS) (ContractError ''startup arg is not allowed'')) (\<lambda>_.
          rbind (raise_if (s \<notin> set (pr_allowed_flags profile)) (ContractError ''startup arg is not allowed by profile'')) (\<lambda>_.
          rbind (raise_if (s \<in> set seen) (ContractError ''duplicate startup arg'')) (\<lambda>_.
          rbind (parse_startup_items profile (s # seen) items) (\<lambda>rest. Inr (s # rest))))))
      | _ \<Rightarrow> Inl (ContractError ''invalid startup arg''))"

definition parse_startup_args :: "(string, json) dict \<Rightarrow> RuntimeProfile \<Rightarrow> string list result" where
  "parse_startup_args d profile = rbind (get_list d ''startup_args'') (parse_startup_items profile [])"

definition parse_runtime_spec :: "json \<Rightarrow> RuntimeSpec result" where
  "parse_runtime_spec data =
     rbind (as_mapping data) (\<lambda>d.
     rbind (exact_keys d RUNTIME_KEYS) (\<lambda>_.
     rbind (get_str_pattern d ''runtime_id'' id_ok) (\<lambda>runtime_id.
     rbind (get_str d ''profile_id'') (\<lambda>profile_id.
     case dget PROFILES profile_id of
       None \<Rightarrow> Inl (ContractError ''unknown runtime profile'')
     | Some profile \<Rightarrow>
         rbind (get_str d ''image_digest'') (\<lambda>image.
         rbind (raise_if (\<not> image_digest_ok image)
                 (ContractError ''image_digest must be a digest reference, not a floating tag'')) (\<lambda>_.
         rbind (sha256_value (jget d ''adapter_sha256'')) (\<lambda>adapter.
         rbind (sha256_value (jget d ''lock_sha256'')) (\<lambda>lock.
         rbind (parse_startup_args d profile) (\<lambda>args.
         Inr \<lparr>rs_runtime_id = runtime_id, rs_profile_id = profile_id, rs_image_digest = image,
              rs_adapter_sha256 = adapter, rs_lock_sha256 = lock, rs_startup_args = args\<rparr>)))))))))"

definition require_startable_profile :: "RuntimeSpec \<Rightarrow> RuntimeProfile result" where
  "require_startable_profile r =
     rbind (dlookup PROFILES (rs_profile_id r)) (\<lambda>profile.
     rbind (raise_if (\<not> pr_executable profile) (ContractError ''profile is registration-only'')) (\<lambda>_. Inr profile))"

definition MAX_PARALLEL :: int where "MAX_PARALLEL = 64"
definition MAX_TIMEOUT_SECONDS :: int where "MAX_TIMEOUT_SECONDS = 86400"
definition PORT_MIN :: int where "PORT_MIN = 10001"
definition PORT_MAX :: int where "PORT_MAX = 19999"
definition SCHEMA_VERSION :: int where "SCHEMA_VERSION = 2"

definition parse_envelope :: "json \<Rightarrow> Envelope result" where
  "parse_envelope data =
     rbind (as_mapping data) (\<lambda>d.
     rbind (exact_keys d ENVELOPE_KEYS) (\<lambda>_.
     rbind (get_int d ''ctx_size'' (Some 512) None) (\<lambda>ctx.
     rbind (get_int d ''max_input_tokens'' (Some 1) None) (\<lambda>inp.
     rbind (get_int d ''max_output_tokens'' (Some 1) None) (\<lambda>outp.
     rbind (get_int d ''max_parallel'' (Some 1) (Some MAX_PARALLEL)) (\<lambda>par.
     rbind (get_int d ''max_image_tokens'' (Some 0) None) (\<lambda>img.
     rbind (get_int d ''max_image_edge_pixels'' (Some 0) None) (\<lambda>edge.
     rbind (get_int d ''max_images'' (Some 0) None) (\<lambda>imgs.
     rbind (raise_if (inp + outp > ctx) (ContractError ''max_input_tokens + max_output_tokens exceeds ctx_size'')) (\<lambda>_.
     rbind (raise_if (img \<ge> inp) (ContractError ''max_image_tokens must be smaller than max_input_tokens'')) (\<lambda>_.
     rbind (raise_if ((img = 0) \<noteq> (edge = 0))
             (ContractError ''max_image_tokens and max_image_edge_pixels must both be zero or both be set'')) (\<lambda>_.
     rbind (raise_if ((imgs > 0) \<noteq> (img > 0))
             (ContractError ''max_images must be positive exactly when max_image_tokens is'')) (\<lambda>_.
     rbind (raise_if (edge \<noteq> 0 \<and> edge < 28) (ContractError ''max_image_edge_pixels is too small'')) (\<lambda>_.
     Inr \<lparr>env_ctx_size = ctx, env_max_input_tokens = inp, env_max_output_tokens = outp, env_max_parallel = par,
          env_max_image_tokens = img, env_max_image_edge_pixels = edge, env_max_images = imgs\<rparr>))))))))))))))"

fun parse_capability_items :: "string list \<Rightarrow> json list \<Rightarrow> string list result" where
  "parse_capability_items seen [] = Inr []"
| "parse_capability_items seen (item # items) =
     (case item of
        JStr s \<Rightarrow>
          rbind (raise_if (s \<notin> set (dkeys CAPABILITY_MATRIX)) (ContractError ''unknown capability'')) (\<lambda>_.
          rbind (raise_if (s \<in> set seen) (ContractError ''duplicate capability'')) (\<lambda>_.
          rbind (parse_capability_items (s # seen) items) (\<lambda>rest. Inr (s # rest))))
      | _ \<Rightarrow> Inl (ContractError ''unknown capability''))"

definition parse_capabilities :: "(string, json) dict \<Rightarrow> string list result" where
  "parse_capabilities d =
     rbind (get_list d ''capabilities'') (\<lambda>raw.
     rbind (raise_if (raw = []) (ContractError ''capabilities must not be empty'')) (\<lambda>_.
     parse_capability_items [] raw))"

fun json_strings :: "json list \<Rightarrow> string list" where
  "json_strings [] = []"
| "json_strings (JStr s # xs) = s # json_strings xs"
| "json_strings (_ # xs) = json_strings xs"

definition capability_names :: "(string, json) dict \<Rightarrow> string list" where
  "capability_names d = (case jget d ''capabilities'' of JList raw \<Rightarrow> json_strings raw | _ \<Rightarrow> [])"

fun required_roles :: "string list \<Rightarrow> string list result" where
  "required_roles [] = Inr []"
| "required_roles (c # cs) =
     rbind (dlookup CAPABILITY_MATRIX c) (\<lambda>spec. rbind (required_roles cs) (\<lambda>rs. Inr (cs_required_asset_roles spec @ rs)))"

fun parse_asset_items :: "string list \<Rightarrow> json list \<Rightarrow> AssetRef list result" where
  "parse_asset_items paths [] = Inr []"
| "parse_asset_items paths (item # items) =
     rbind (parse_asset_ref item) (\<lambda>a.
     rbind (raise_if (ar_path a \<in> set paths) (ContractError ''duplicate asset path'')) (\<lambda>_.
     rbind (parse_asset_items (ar_path a # paths) items) (\<lambda>rest. Inr (a # rest))))"

definition parse_assets :: "(string, json) dict \<Rightarrow> AssetRef list result" where
  "parse_assets d =
     rbind (get_list d ''assets'') (\<lambda>raw.
     rbind (raise_if (raw = []) (ContractError ''assets must not be empty'')) (\<lambda>_.
     rbind (parse_asset_items [] raw) (\<lambda>assets.
     rbind (required_roles (capability_names d)) (\<lambda>required.
     rbind (raise_if (\<not> set required \<subseteq> ar_role ` set assets)
             (ContractError ''capabilities require missing asset roles'')) (\<lambda>_. Inr assets)))))"

definition parse_model_spec :: "json \<Rightarrow> RegisteredModelSpec result" where
  "parse_model_spec data =
     rbind (as_mapping data) (\<lambda>d.
     rbind (exact_keys d MODEL_KEYS) (\<lambda>_.
     rbind (get_str_pattern d ''model_id'' id_ok) (\<lambda>model_id.
     rbind (get_str_pattern d ''runtime_id'' id_ok) (\<lambda>runtime_id.
     rbind (parse_capabilities d) (\<lambda>caps.
     rbind (parse_assets d) (\<lambda>assets.
     rbind (get_int d ''port'' (Some PORT_MIN) (Some PORT_MAX)) (\<lambda>port.
     rbind (parse_envelope (jget d ''envelope'')) (\<lambda>env.
     rbind (get_int d ''timeout_seconds'' (Some 1) (Some MAX_TIMEOUT_SECONDS)) (\<lambda>timeout.
     rbind (get_int d ''reserved_bytes'' (Some 1) None) (\<lambda>reserved.
     rbind (get_bool d ''measured'') (\<lambda>measured.
     rbind (nullable_sha256 d ''measurement_ref'') (\<lambda>mref.
     rbind (nullable_positive_int d ''physical_resident_peak_bytes'') (\<lambda>peak.
     rbind (raise_if (measured \<and> (mref = None \<or> peak = None))
             (ContractError ''measured models must bind measurement_ref and physical_resident_peak_bytes'')) (\<lambda>_.
     rbind (raise_if (\<not> measured \<and> (mref \<noteq> None \<or> peak \<noteq> None))
             (ContractError ''measurement_ref and physical_resident_peak_bytes require measured=true'')) (\<lambda>_.
     rbind (if ''vision'' \<in> set caps
            then rbind (raise_if (env_max_image_tokens env \<le> 0)
                         (ContractError ''vision capability requires a positive max_image_tokens'')) (\<lambda>_.
                 raise_if (env_max_images env \<le> 0) (ContractError ''vision capability requires max_images >= 1''))
            else raise_if (env_max_images env \<noteq> 0)
                   (ContractError ''max_images must be 0 without the vision capability'')) (\<lambda>_.
     Inr \<lparr>rm_model_id = model_id, rm_runtime_id = runtime_id, rm_capabilities = caps, rm_assets = assets,
          rm_port = port, rm_envelope = env, rm_timeout_seconds = timeout, rm_reserved_bytes = reserved,
          rm_measured = measured, rm_measurement_ref = mref, rm_physical_resident_peak_bytes = peak\<rparr>))))))))))))))))"

definition role_count :: "RegisteredModelSpec \<Rightarrow> string \<Rightarrow> int" where
  "role_count m role = int (length (filter (\<lambda>a. ar_role a = role) (rm_assets m)))"

fun check_cardinality :: "RegisteredModelSpec \<Rightarrow> (string, int \<times> int option) dict \<Rightarrow> unit result" where
  "check_cardinality m [] = Inr ()"
| "check_cardinality m ((role, lo, hi) # rest) =
     rbind (raise_if (role_count m role < lo) (ContractError ''profile requires more assets of a role'')) (\<lambda>_.
     rbind (raise_if (\<exists>h. hi = Some h \<and> role_count m role > h) (ContractError ''profile allows fewer assets of a role'')) (\<lambda>_.
     check_cardinality m rest))"

definition validate_model_against_profile :: "RegisteredModelSpec \<Rightarrow> RuntimeProfile \<Rightarrow> unit result" where
  "validate_model_against_profile m profile =
     rbind (raise_if (\<exists>a \<in> set (rm_assets m). ar_role a \<notin> set (dkeys (pr_role_cardinality profile)))
             (ContractError ''profile does not allow asset role'')) (\<lambda>_.
     rbind (check_cardinality m (pr_role_cardinality profile)) (\<lambda>_.
     raise_if (role_count m ''projector'' \<noteq> 0 \<and> ''vision'' \<notin> set (rm_capabilities m))
       (ContractError ''a projector asset requires the vision capability'')))"

definition require_production_openable :: "RegisteredModelSpec \<Rightarrow> RuntimeSpec \<Rightarrow> unit result" where
  "require_production_openable m r =
     rbind (require_startable_profile r) (\<lambda>_.
     raise_if (\<not> rm_measured m \<or> rm_measurement_ref m = None \<or> rm_physical_resident_peak_bytes m = None)
       (ContractError ''production requires a measured registration''))"

fun parse_runtimes :: "RuntimeSpec list \<Rightarrow> json list \<Rightarrow> RuntimeSpec list result" where
  "parse_runtimes acc [] = Inr (rev acc)"
| "parse_runtimes acc (item # items) =
     rbind (parse_runtime_spec item) (\<lambda>r.
     rbind (raise_if (rs_runtime_id r \<in> rs_runtime_id ` set acc) (ContractError ''duplicate runtime_id'')) (\<lambda>_.
     parse_runtimes (r # acc) items))"

definition find_runtime :: "RuntimeSpec list \<Rightarrow> string \<Rightarrow> RuntimeSpec option" where
  "find_runtime rs rid = find (\<lambda>r. rs_runtime_id r = rid) rs"

fun parse_models :: "RuntimeSpec list \<Rightarrow> RegisteredModelSpec list \<Rightarrow> json list \<Rightarrow> RegisteredModelSpec list result" where
  "parse_models rs acc [] = Inr (rev acc)"
| "parse_models rs acc (item # items) =
     rbind (parse_model_spec item) (\<lambda>m.
     rbind (raise_if (rm_model_id m \<in> rm_model_id ` set acc) (ContractError ''duplicate model_id'')) (\<lambda>_.
     rbind (raise_if (rm_port m \<in> rm_port ` set acc) (ContractError ''duplicate port'')) (\<lambda>_.
     case find_runtime rs (rm_runtime_id m) of
       None \<Rightarrow> Inl (ContractError ''model references unknown runtime'')
     | Some r \<Rightarrow>
         rbind (dlookup PROFILES (rs_profile_id r)) (\<lambda>profile.
         rbind (validate_model_against_profile m profile) (\<lambda>_.
         parse_models rs (m # acc) items)))))"

definition parse_deployment :: "json \<Rightarrow> DeploymentSpec result" where
  "parse_deployment data =
     rbind (as_mapping data) (\<lambda>d.
     rbind (exact_keys d DEPLOYMENT_KEYS) (\<lambda>_.
     rbind (get_int d ''schema_version'' None None) (\<lambda>version.
     rbind (raise_if (version \<noteq> SCHEMA_VERSION) (ContractError ''unsupported schema_version'')) (\<lambda>_.
     rbind (get_list d ''runtimes'') (\<lambda>raw_runtimes.
     rbind (raise_if (raw_runtimes = []) (ContractError ''runtimes must not be empty'')) (\<lambda>_.
     rbind (parse_runtimes [] raw_runtimes) (\<lambda>rs.
     rbind (get_list d ''models'') (\<lambda>raw_models.
     rbind (raise_if (raw_models = []) (ContractError ''models must not be empty'')) (\<lambda>_.
     rbind (parse_models rs [] raw_models) (\<lambda>ms.
     Inr \<lparr>dep_runtimes = rs, dep_models = ms\<rparr>))))))))))"

definition parse_deployment_json :: "json \<Rightarrow> DeploymentSpec result" where
  "parse_deployment_json doc = rbind (parse_json_document doc) parse_deployment"

section \<open>Well-formed registrations\<close>

definition asset_ok :: "AssetRef \<Rightarrow> bool" where
  "asset_ok a \<longleftrightarrow> ar_role a \<in> set ASSET_ROLES \<and> path_ok (ar_path a) \<and> sha256_ok (ar_sha256 a) \<and> 1 \<le> ar_size_bytes a"

definition runtime_ok :: "RuntimeSpec \<Rightarrow> bool" where
  "runtime_ok r \<longleftrightarrow> id_ok (rs_runtime_id r) \<and> image_digest_ok (rs_image_digest r)
     \<and> sha256_ok (rs_adapter_sha256 r) \<and> sha256_ok (rs_lock_sha256 r)
     \<and> (\<exists>p. dget PROFILES (rs_profile_id r) = Some p \<and> set (rs_startup_args r) \<subseteq> set (pr_allowed_flags p))
     \<and> (\<forall>f \<in> set (rs_startup_args r). flag_ok f \<and> f \<in> set ALLOWED_STARTUP_FLAGS) \<and> distinct (rs_startup_args r)"

definition envelope_ok :: "Envelope \<Rightarrow> bool" where
  "envelope_ok e \<longleftrightarrow> 512 \<le> env_ctx_size e \<and> 1 \<le> env_max_input_tokens e \<and> 1 \<le> env_max_output_tokens e
     \<and> 1 \<le> env_max_parallel e \<and> env_max_parallel e \<le> MAX_PARALLEL
     \<and> env_max_input_tokens e + env_max_output_tokens e \<le> env_ctx_size e
     \<and> 0 \<le> env_max_image_tokens e \<and> env_max_image_tokens e < env_max_input_tokens e
     \<and> (if env_max_images e = 0 then env_max_image_tokens e = 0 \<and> env_max_image_edge_pixels e = 0
        else 0 < env_max_images e \<and> 0 < env_max_image_tokens e \<and> 28 \<le> env_max_image_edge_pixels e)"

definition roles_of :: "string \<Rightarrow> string set" where
  "roles_of c = (case dget CAPABILITY_MATRIX c of None \<Rightarrow> {} | Some spec \<Rightarrow> set (cs_required_asset_roles spec))"

definition measurement_ok :: "RegisteredModelSpec \<Rightarrow> bool" where
  "measurement_ok m \<longleftrightarrow> (if rm_measured m
      then \<exists>ref peak. rm_measurement_ref m = Some ref \<and> sha256_ok ref \<and> rm_physical_resident_peak_bytes m = Some peak \<and> 0 < peak
      else rm_measurement_ref m = None \<and> rm_physical_resident_peak_bytes m = None)"

definition model_ok :: "RegisteredModelSpec \<Rightarrow> bool" where
  "model_ok m \<longleftrightarrow> id_ok (rm_model_id m) \<and> id_ok (rm_runtime_id m)
     \<and> rm_capabilities m \<noteq> [] \<and> distinct (rm_capabilities m) \<and> set (rm_capabilities m) \<subseteq> set (dkeys CAPABILITY_MATRIX)
     \<and> rm_assets m \<noteq> [] \<and> (\<forall>a \<in> set (rm_assets m). asset_ok a) \<and> distinct (map ar_path (rm_assets m))
     \<and> (\<forall>c \<in> set (rm_capabilities m). roles_of c \<subseteq> ar_role ` set (rm_assets m))
     \<and> PORT_MIN \<le> rm_port m \<and> rm_port m \<le> PORT_MAX \<and> envelope_ok (rm_envelope m)
     \<and> 1 \<le> rm_timeout_seconds m \<and> rm_timeout_seconds m \<le> MAX_TIMEOUT_SECONDS \<and> 1 \<le> rm_reserved_bytes m
     \<and> measurement_ok m \<and> (''vision'' \<in> set (rm_capabilities m) \<longleftrightarrow> 0 < env_max_images (rm_envelope m))"

definition profile_ok :: "RegisteredModelSpec \<Rightarrow> RuntimeProfile \<Rightarrow> bool" where
  "profile_ok m p \<longleftrightarrow> (\<forall>a \<in> set (rm_assets m). ar_role a \<in> set (dkeys (pr_role_cardinality p)))
     \<and> (\<forall>(role, lo, hi) \<in> set (pr_role_cardinality p). lo \<le> role_count m role \<and> (\<forall>h. hi = Some h \<longrightarrow> role_count m role \<le> h))
     \<and> (role_count m ''projector'' \<noteq> 0 \<longrightarrow> ''vision'' \<in> set (rm_capabilities m))"

definition deployment_ok :: "DeploymentSpec \<Rightarrow> bool" where
  "deployment_ok d \<longleftrightarrow> dep_runtimes d \<noteq> [] \<and> dep_models d \<noteq> []
     \<and> (\<forall>r \<in> set (dep_runtimes d). runtime_ok r) \<and> distinct (map rs_runtime_id (dep_runtimes d))
     \<and> (\<forall>m \<in> set (dep_models d). model_ok m) \<and> distinct (map rm_model_id (dep_models d)) \<and> distinct (map rm_port (dep_models d))
     \<and> (\<forall>m \<in> set (dep_models d). \<exists>r p. find_runtime (dep_runtimes d) (rm_runtime_id m) = Some r
          \<and> dget PROFILES (rs_profile_id r) = Some p \<and> profile_ok m p)"

section \<open>Registrations as documents\<close>

text \<open>\<^verbatim>\<open>asdict\<close> of each dataclass, as \<^verbatim>\<open>deployment_digest\<close> serialises it.\<close>

definition asset_json :: "AssetRef \<Rightarrow> json" where
  "asset_json a = JObj [(''role'', JStr (ar_role a)), (''path'', JStr (ar_path a)), (''sha256'', JStr (ar_sha256 a)),
     (''size_bytes'', JInt (ar_size_bytes a))]"

definition runtime_json :: "RuntimeSpec \<Rightarrow> json" where
  "runtime_json r = JObj [(''runtime_id'', JStr (rs_runtime_id r)), (''profile_id'', JStr (rs_profile_id r)),
     (''image_digest'', JStr (rs_image_digest r)), (''adapter_sha256'', JStr (rs_adapter_sha256 r)),
     (''lock_sha256'', JStr (rs_lock_sha256 r)), (''startup_args'', JList (map JStr (rs_startup_args r)))]"

definition envelope_json :: "Envelope \<Rightarrow> json" where
  "envelope_json e = JObj [(''ctx_size'', JInt (env_ctx_size e)), (''max_input_tokens'', JInt (env_max_input_tokens e)),
     (''max_output_tokens'', JInt (env_max_output_tokens e)), (''max_parallel'', JInt (env_max_parallel e)),
     (''max_image_tokens'', JInt (env_max_image_tokens e)), (''max_image_edge_pixels'', JInt (env_max_image_edge_pixels e)),
     (''max_images'', JInt (env_max_images e))]"

definition null_or :: "('a \<Rightarrow> json) \<Rightarrow> 'a option \<Rightarrow> json" where
  "null_or f x = (case x of None \<Rightarrow> JNull | Some v \<Rightarrow> f v)"

definition model_json :: "RegisteredModelSpec \<Rightarrow> json" where
  "model_json m = JObj [(''model_id'', JStr (rm_model_id m)), (''runtime_id'', JStr (rm_runtime_id m)),
     (''capabilities'', JList (map JStr (rm_capabilities m))), (''assets'', JList (map asset_json (rm_assets m))),
     (''port'', JInt (rm_port m)), (''envelope'', envelope_json (rm_envelope m)),
     (''timeout_seconds'', JInt (rm_timeout_seconds m)), (''reserved_bytes'', JInt (rm_reserved_bytes m)),
     (''measured'', JBool (rm_measured m)), (''measurement_ref'', null_or JStr (rm_measurement_ref m)),
     (''physical_resident_peak_bytes'', null_or JInt (rm_physical_resident_peak_bytes m))]"

definition deployment_fields :: "DeploymentSpec \<Rightarrow> (string, json) dict" where
  "deployment_fields d = [(''runtimes'', JList (map runtime_json (dep_runtimes d))),
     (''models'', JList (map model_json (dep_models d)))]"

lemma jget_simps [simp]: "jget [] k = JNull" "jget ((k', v) # d) k = (if k = k' then v else jget d k)"
  by (auto simp: jget_def)

lemma id_ok_ne: "id_ok s \<Longrightarrow> s \<noteq> []"
  by (rule notI) (simp add: id_ok_def)

lemma path_ok_ne: "path_ok s \<Longrightarrow> s \<noteq> []"
  by (rule notI) (simp add: path_ok_def)

subsection \<open>Assets, runtimes and envelopes\<close>

lemma parse_asset_ref_sound: "parse_asset_ref j = Inr a \<Longrightarrow> asset_ok a"
  by (auto simp: parse_asset_ref_def asset_ok_def)

lemma parse_asset_ref_json [simp]: "asset_ok a \<Longrightarrow> parse_asset_ref (asset_json a) = Inr a"
  by (simp add: parse_asset_ref_def asset_json_def asset_ok_def rbind_eq_Inr_iff ASSET_KEYS_def)
    (auto simp: ASSET_ROLES_def)

lemma parse_startup_Cons:
  "parse_startup_items p seen (item # items) = Inr fs \<longleftrightarrow> (\<exists>f rest. item = JStr f \<and> fs = f # rest \<and> flag_ok f
     \<and> f \<in> set ALLOWED_STARTUP_FLAGS \<and> f \<in> set (pr_allowed_flags p) \<and> f \<notin> set seen
     \<and> parse_startup_items p (f # seen) items = Inr rest)"
  by (cases item) (auto simp: rbind_eq_Inr_iff)

lemma parse_startup_items_Inr:
  "parse_startup_items p seen items = Inr fs \<longleftrightarrow> items = map JStr fs \<and> distinct fs \<and> set fs \<inter> set seen = {}
     \<and> (\<forall>f \<in> set fs. flag_ok f \<and> f \<in> set ALLOWED_STARTUP_FLAGS \<and> f \<in> set (pr_allowed_flags p))"
proof (induction items arbitrary: seen fs)
  case (Cons item items)
  show ?case unfolding parse_startup_Cons Cons.IH by (cases fs) auto
qed auto

lemma parse_runtime_spec_sound: "parse_runtime_spec j = Inr r \<Longrightarrow> runtime_ok r"
  by (auto simp: parse_runtime_spec_def parse_startup_args_def runtime_ok_def parse_startup_items_Inr split: option.splits)

lemma profile_id_ne: "dget PROFILES pid = Some p \<Longrightarrow> pid \<noteq> []"
  by (auto simp: PROFILES_def split: if_splits)

lemma image_digest_ne: "image_digest_ok s \<Longrightarrow> s \<noteq> []"
  by (rule notI) (simp add: image_digest_ok_def)

lemma parse_runtime_spec_json [simp]:
  assumes "runtime_ok r"
  shows "parse_runtime_spec (runtime_json r) = Inr r"
proof -
  from assms obtain p where p: "dget PROFILES (rs_profile_id r) = Some p" "set (rs_startup_args r) \<subseteq> set (pr_allowed_flags p)"
    by (auto simp: runtime_ok_def)
  with assms show ?thesis
    using profile_id_ne [OF p(1)] image_digest_ne [of "rs_image_digest r"] id_ok_ne [of "rs_runtime_id r"]
    by (auto simp: parse_runtime_spec_def runtime_json_def runtime_ok_def rbind_eq_Inr_iff RUNTIME_KEYS_def
        parse_startup_args_def parse_startup_items_Inr)
qed

lemma parse_envelope_sound: "parse_envelope j = Inr e \<Longrightarrow> envelope_ok e"
  by (auto simp: parse_envelope_def envelope_ok_def split: if_splits)

lemma parse_envelope_json [simp]: "envelope_ok e \<Longrightarrow> parse_envelope (envelope_json e) = Inr e"
  by (auto simp: parse_envelope_def envelope_json_def envelope_ok_def rbind_eq_Inr_iff ENVELOPE_KEYS_def split: if_splits)

subsection \<open>Models\<close>

lemma parse_capability_Cons:
  "parse_capability_items seen (item # items) = Inr cs \<longleftrightarrow> (\<exists>c rest. item = JStr c \<and> cs = c # rest
     \<and> c \<in> set (dkeys CAPABILITY_MATRIX) \<and> c \<notin> set seen \<and> parse_capability_items (c # seen) items = Inr rest)"
  by (cases item) (auto simp: rbind_eq_Inr_iff)

lemma parse_capability_items_Inr:
  "parse_capability_items seen items = Inr cs \<longleftrightarrow> items = map JStr cs \<and> distinct cs \<and> set cs \<inter> set seen = {}
     \<and> set cs \<subseteq> set (dkeys CAPABILITY_MATRIX)"
proof (induction items arbitrary: seen cs)
  case (Cons item items)
  show ?case unfolding parse_capability_Cons Cons.IH by (cases cs) auto
qed auto

lemma parse_capabilities_Inr:
  "parse_capabilities d = Inr cs \<longleftrightarrow> jget d ''capabilities'' = JList (map JStr cs) \<and> cs \<noteq> [] \<and> distinct cs
     \<and> set cs \<subseteq> set (dkeys CAPABILITY_MATRIX)"
  by (auto simp: parse_capabilities_def rbind_eq_Inr_iff parse_capability_items_Inr)

lemma json_strings_map [simp]: "json_strings (map JStr cs) = cs"
  by (induction cs) auto

lemma required_roles_ok:
  "set cs \<subseteq> set (dkeys CAPABILITY_MATRIX) \<Longrightarrow> \<exists>rs. required_roles cs = Inr rs \<and> set rs = (\<Union>c \<in> set cs. roles_of c)"
proof (induction cs)
  case (Cons c cs)
  then obtain rs where rs: "required_roles cs = Inr rs" "set rs = (\<Union>c \<in> set cs. roles_of c)" by auto
  have "c \<in> set (dkeys CAPABILITY_MATRIX)" using Cons.prems by simp
  then obtain spec where "dget CAPABILITY_MATRIX c = Some spec" by (rule dkey_get)
  with rs show ?case by (simp add: dlookup_Some roles_of_def)
qed simp

lemma parse_asset_Cons:
  "parse_asset_items paths (item # items) = Inr as \<longleftrightarrow> (\<exists>a rest. parse_asset_ref item = Inr a \<and> as = a # rest
     \<and> ar_path a \<notin> set paths \<and> parse_asset_items (ar_path a # paths) items = Inr rest)"
  by (auto simp: rbind_eq_Inr_iff)

lemma parse_asset_items_sound:
  "parse_asset_items paths items = Inr as \<Longrightarrow> length as = length items \<and> (\<forall>a \<in> set as. asset_ok a)
     \<and> distinct (map ar_path as) \<and> ar_path ` set as \<inter> set paths = {}"
proof (induction items arbitrary: paths as)
  case (Cons item items)
  then obtain a rest where a: "parse_asset_ref item = Inr a" "as = a # rest" "ar_path a \<notin> set paths"
    "parse_asset_items (ar_path a # paths) items = Inr rest" unfolding parse_asset_Cons by blast
  from Cons.IH [OF a(4)] a parse_asset_ref_sound [OF a(1)] show ?case by auto
qed simp

lemma parse_asset_items_json:
  "\<forall>a \<in> set as. asset_ok a \<Longrightarrow> distinct (map ar_path as) \<Longrightarrow> ar_path ` set as \<inter> set paths = {}
     \<Longrightarrow> parse_asset_items paths (map asset_json as) = Inr as"
proof (induction as arbitrary: paths)
  case (Cons a as)
  then have "parse_asset_items (ar_path a # paths) (map asset_json as) = Inr as" by auto
  with Cons.prems show ?case by simp
qed simp

lemma parse_assets_sound:
  assumes "parse_assets d = Inr as" and "jget d ''capabilities'' = JList (map JStr cs)"
    and "set cs \<subseteq> set (dkeys CAPABILITY_MATRIX)"
  shows "as \<noteq> [] \<and> (\<forall>a \<in> set as. asset_ok a) \<and> distinct (map ar_path as) \<and> (\<forall>c \<in> set cs. roles_of c \<subseteq> ar_role ` set as)"
proof -
  from required_roles_ok [OF assms(3)] obtain rs
    where rs: "required_roles cs = Inr rs" "set rs = (\<Union>c \<in> set cs. roles_of c)" by blast
  have "capability_names d = cs" by (simp add: capability_names_def assms(2))
  with assms(1) rs obtain raw where "raw \<noteq> []" "parse_asset_items [] raw = Inr as" "set rs \<subseteq> ar_role ` set as"
    by (auto simp: parse_assets_def)
  with parse_asset_items_sound [of "[]" raw as] rs(2) show ?thesis by auto
qed

lemma parse_assets_json:
  assumes "jget d ''assets'' = JList (map asset_json as)" and "jget d ''capabilities'' = JList (map JStr cs)"
    and "set cs \<subseteq> set (dkeys CAPABILITY_MATRIX)" and "as \<noteq> []" and "\<forall>a \<in> set as. asset_ok a"
    and "distinct (map ar_path as)" and "\<forall>c \<in> set cs. roles_of c \<subseteq> ar_role ` set as"
  shows "parse_assets d = Inr as"
proof -
  from required_roles_ok [OF assms(3)] obtain rs
    where rs: "required_roles cs = Inr rs" "set rs = (\<Union>c \<in> set cs. roles_of c)" by blast
  have "capability_names d = cs" by (simp add: capability_names_def assms(2))
  with rs assms parse_asset_items_json [of as "[]"] show ?thesis by (auto simp: parse_assets_def rbind_eq_Inr_iff)
qed

lemma parse_model_spec_sound:
  assumes "parse_model_spec j = Inr m"
  shows "model_ok m"
proof -
  from assms obtain d where d: "get_str_pattern d ''model_id'' id_ok = Inr (rm_model_id m)"
    "get_str_pattern d ''runtime_id'' id_ok = Inr (rm_runtime_id m)" "parse_capabilities d = Inr (rm_capabilities m)"
    "parse_assets d = Inr (rm_assets m)" "get_int d ''port'' (Some PORT_MIN) (Some PORT_MAX) = Inr (rm_port m)"
    "parse_envelope (jget d ''envelope'') = Inr (rm_envelope m)"
    "get_int d ''timeout_seconds'' (Some 1) (Some MAX_TIMEOUT_SECONDS) = Inr (rm_timeout_seconds m)"
    "get_int d ''reserved_bytes'' (Some 1) None = Inr (rm_reserved_bytes m)"
    "nullable_sha256 d ''measurement_ref'' = Inr (rm_measurement_ref m)"
    "nullable_positive_int d ''physical_resident_peak_bytes'' = Inr (rm_physical_resident_peak_bytes m)"
    and m: "\<not> (rm_measured m \<and> (rm_measurement_ref m = None \<or> rm_physical_resident_peak_bytes m = None))"
    "\<not> (\<not> rm_measured m \<and> (rm_measurement_ref m \<noteq> None \<or> rm_physical_resident_peak_bytes m \<noteq> None))"
    and v: "if ''vision'' \<in> set (rm_capabilities m) then 0 < env_max_images (rm_envelope m) else env_max_images (rm_envelope m) = 0"
    unfolding parse_model_spec_def rbind_eq_Inr_iff by (force split: if_splits simp: rbind_eq_Inr_iff)
  have caps: "jget d ''capabilities'' = JList (map JStr (rm_capabilities m))" "rm_capabilities m \<noteq> []"
    "distinct (rm_capabilities m)" "set (rm_capabilities m) \<subseteq> set (dkeys CAPABILITY_MATRIX)"
    using d(3) unfolding parse_capabilities_Inr by blast+
  have "measurement_ok m"
    using m d(9,10) by (auto simp: measurement_ok_def nullable_sha256_Inr nullable_positive_int_Inr split: option.splits)
  moreover have "''vision'' \<in> set (rm_capabilities m) \<longleftrightarrow> 0 < env_max_images (rm_envelope m)"
    using v by (auto split: if_splits)
  ultimately show ?thesis
    unfolding model_ok_def
    using parse_assets_sound [OF d(4) caps(1,4)] caps(2-4) parse_envelope_sound [OF d(6)] d(1,2,5,7,8) by simp
qed

lemma parse_model_spec_json [simp]:
  assumes ok: "model_ok m"
  shows "parse_model_spec (model_json m) = Inr m"
proof -
  let ?d = "[(''model_id'', JStr (rm_model_id m)), (''runtime_id'', JStr (rm_runtime_id m)),
     (''capabilities'', JList (map JStr (rm_capabilities m))), (''assets'', JList (map asset_json (rm_assets m))),
     (''port'', JInt (rm_port m)), (''envelope'', envelope_json (rm_envelope m)),
     (''timeout_seconds'', JInt (rm_timeout_seconds m)), (''reserved_bytes'', JInt (rm_reserved_bytes m)),
     (''measured'', JBool (rm_measured m)), (''measurement_ref'', null_or JStr (rm_measurement_ref m)),
     (''physical_resident_peak_bytes'', null_or JInt (rm_physical_resident_peak_bytes m))]"
  have keys: "exact_keys ?d MODEL_KEYS = Inr ()" by (simp add: MODEL_KEYS_def)
  have ids: "get_str_pattern ?d ''model_id'' id_ok = Inr (rm_model_id m)" "get_str_pattern ?d ''runtime_id'' id_ok = Inr (rm_runtime_id m)"
    using ok id_ok_ne by (simp_all add: model_ok_def)
  have caps: "parse_capabilities ?d = Inr (rm_capabilities m)" using ok by (simp add: parse_capabilities_Inr model_ok_def)
  have assets: "parse_assets ?d = Inr (rm_assets m)"
    using ok by (intro parse_assets_json [of _ _ "rm_capabilities m"]) (simp_all add: model_ok_def)
  have ints: "get_int ?d ''port'' (Some PORT_MIN) (Some PORT_MAX) = Inr (rm_port m)"
    "get_int ?d ''timeout_seconds'' (Some 1) (Some MAX_TIMEOUT_SECONDS) = Inr (rm_timeout_seconds m)"
    "get_int ?d ''reserved_bytes'' (Some 1) None = Inr (rm_reserved_bytes m)" "get_bool ?d ''measured'' = Inr (rm_measured m)"
    using ok by (simp_all add: model_ok_def)
  have env: "parse_envelope (jget ?d ''envelope'') = Inr (rm_envelope m)" and eok: "envelope_ok (rm_envelope m)"
    using ok by (simp_all add: model_ok_def)
  have meas: "measurement_ok m" using ok by (simp add: model_ok_def)
  have nulls: "nullable_sha256 ?d ''measurement_ref'' = Inr (rm_measurement_ref m)"
    "nullable_positive_int ?d ''physical_resident_peak_bytes'' = Inr (rm_physical_resident_peak_bytes m)"
    using meas by (auto simp: nullable_sha256_Inr nullable_positive_int_Inr measurement_ok_def null_or_def split: if_splits option.splits)
  have meas2: "raise_if (rm_measured m \<and> (rm_measurement_ref m = None \<or> rm_physical_resident_peak_bytes m = None)) e = Inr ()"
    "raise_if (\<not> rm_measured m \<and> (rm_measurement_ref m \<noteq> None \<or> rm_physical_resident_peak_bytes m \<noteq> None)) e = Inr ()" for e
    using meas by (auto simp: measurement_ok_def split: if_splits)
  have vis: "(''vision'' \<in> set (rm_capabilities m) \<longleftrightarrow> 0 < env_max_images (rm_envelope m))" using ok by (simp add: model_ok_def)
  have "as_mapping (JObj ?d) = Inr ?d" by simp
  then have "parse_model_spec (JObj ?d) = Inr m"
    unfolding parse_model_spec_def
    by (simp only: keys ids caps assets ints env nulls meas2 rbind_Inr)
      (use vis eok in \<open>auto simp: envelope_ok_def split: if_splits\<close>)
  then show ?thesis by (simp add: model_json_def)
qed

lemma check_cardinality_Inr:
  "check_cardinality m cs = Inr () \<longleftrightarrow>
     (\<forall>(role, lo, hi) \<in> set cs. lo \<le> role_count m role \<and> (\<forall>h. hi = Some h \<longrightarrow> role_count m role \<le> h))"
  by (induction cs) (auto simp: rbind_eq_Inr_iff not_less)

lemma validate_model_Inr: "validate_model_against_profile m p = Inr () \<longleftrightarrow> profile_ok m p"
  by (auto simp: validate_model_against_profile_def profile_ok_def rbind_eq_Inr_iff check_cardinality_Inr)

subsection \<open>Deployments\<close>

lemma parse_runtimes_Cons:
  "parse_runtimes acc (item # items) = Inr rs \<longleftrightarrow> (\<exists>r. parse_runtime_spec item = Inr r
     \<and> rs_runtime_id r \<notin> rs_runtime_id ` set acc \<and> parse_runtimes (r # acc) items = Inr rs)"
  by (auto simp: rbind_eq_Inr_iff)

lemma parse_runtimes_sound:
  "parse_runtimes acc items = Inr rs \<Longrightarrow> \<forall>r \<in> set acc. runtime_ok r \<Longrightarrow> distinct (map rs_runtime_id acc)
     \<Longrightarrow> (\<forall>r \<in> set rs. runtime_ok r) \<and> distinct (map rs_runtime_id rs) \<and> length rs = length acc + length items"
proof (induction items arbitrary: acc)
  case Nil
  then show ?case by (auto simp: rev_map [symmetric])
next
  case (Cons item items)
  then obtain r where r: "parse_runtime_spec item = Inr r" "rs_runtime_id r \<notin> rs_runtime_id ` set acc"
    "parse_runtimes (r # acc) items = Inr rs" unfolding parse_runtimes_Cons by blast
  from Cons.IH [OF r(3)] Cons.prems(2,3) r parse_runtime_spec_sound [OF r(1)] show ?case by auto
qed

lemma parse_runtimes_json:
  "\<forall>r \<in> set rs. runtime_ok r \<Longrightarrow> distinct (map rs_runtime_id (rev acc @ rs))
     \<Longrightarrow> parse_runtimes acc (map runtime_json rs) = Inr (rev acc @ rs)"
proof (induction rs arbitrary: acc)
  case (Cons r rs)
  have "parse_runtimes (r # acc) (map runtime_json rs) = Inr (rev (r # acc) @ rs)"
    using Cons.prems by (intro Cons.IH) auto
  moreover have "rs_runtime_id r \<notin> rs_runtime_id ` set acc" using Cons.prems(2) by auto
  ultimately show ?case using Cons.prems(1) by simp
qed simp

definition placed :: "RuntimeSpec list \<Rightarrow> RegisteredModelSpec \<Rightarrow> bool" where
  "placed rs m \<longleftrightarrow> (\<exists>r p. find_runtime rs (rm_runtime_id m) = Some r \<and> dget PROFILES (rs_profile_id r) = Some p \<and> profile_ok m p)"

lemma parse_models_Cons:
  "parse_models rs acc (item # items) = Inr ms \<longleftrightarrow> (\<exists>m. parse_model_spec item = Inr m
     \<and> rm_model_id m \<notin> rm_model_id ` set acc \<and> rm_port m \<notin> rm_port ` set acc \<and> placed rs m
     \<and> parse_models rs (m # acc) items = Inr ms)"
  by (auto simp: rbind_eq_Inr_iff placed_def validate_model_Inr split: option.splits)

lemma parse_models_sound:
  "parse_models rs acc items = Inr ms \<Longrightarrow> \<forall>m \<in> set acc. model_ok m \<and> placed rs m
     \<Longrightarrow> distinct (map rm_model_id acc) \<Longrightarrow> distinct (map rm_port acc)
     \<Longrightarrow> (\<forall>m \<in> set ms. model_ok m \<and> placed rs m) \<and> distinct (map rm_model_id ms) \<and> distinct (map rm_port ms)
         \<and> length ms = length acc + length items"
proof (induction items arbitrary: acc)
  case Nil
  then show ?case by (auto simp: rev_map [symmetric])
next
  case (Cons item items)
  then obtain m where m: "parse_model_spec item = Inr m" "rm_model_id m \<notin> rm_model_id ` set acc" "rm_port m \<notin> rm_port ` set acc"
    "placed rs m" "parse_models rs (m # acc) items = Inr ms" unfolding parse_models_Cons by blast
  from Cons.IH [OF m(5)] Cons.prems(2-4) m parse_model_spec_sound [OF m(1)] show ?case by auto
qed

lemma parse_models_json:
  "\<forall>m \<in> set ms. model_ok m \<and> placed rs m \<Longrightarrow> distinct (map rm_model_id (rev acc @ ms)) \<Longrightarrow> distinct (map rm_port (rev acc @ ms))
     \<Longrightarrow> parse_models rs acc (map model_json ms) = Inr (rev acc @ ms)"
proof (induction ms arbitrary: acc)
  case (Cons m ms)
  have "parse_models rs (m # acc) (map model_json ms) = Inr (rev (m # acc) @ ms)"
    using Cons.prems by (intro Cons.IH) auto
  moreover have "rm_model_id m \<notin> rm_model_id ` set acc" "rm_port m \<notin> rm_port ` set acc" using Cons.prems(2,3) by auto
  ultimately show ?case using Cons.prems(1) by (simp add: parse_models_Cons del: parse_models.simps(2))
qed simp

lemma parse_deployment_sound:
  assumes "parse_deployment j = Inr d"
  shows "deployment_ok d"
proof -
  from assms obtain o_rs o_ms where rs: "parse_runtimes [] o_rs = Inr (dep_runtimes d)" "o_rs \<noteq> []"
    and ms: "parse_models (dep_runtimes d) [] o_ms = Inr (dep_models d)" "o_ms \<noteq> []"
    by (auto simp: parse_deployment_def)
  from parse_runtimes_sound [OF rs(1)] parse_models_sound [OF ms(1)] rs(2) ms(2) show ?thesis
    by (auto simp: deployment_ok_def placed_def)
qed

lemma parse_deployment_json:
  assumes "deployment_ok d"
  shows "parse_deployment (JObj ((''schema_version'', JInt 2) # deployment_fields d)) = Inr d"
proof -
  have rs: "parse_runtimes [] (map runtime_json (dep_runtimes d)) = Inr (dep_runtimes d)"
    using assms parse_runtimes_json [of "dep_runtimes d" "[]"] by (simp add: deployment_ok_def)
  have ms: "parse_models (dep_runtimes d) [] (map model_json (dep_models d)) = Inr (dep_models d)"
    using assms parse_models_json [of "dep_models d" "dep_runtimes d" "[]"] by (simp add: deployment_ok_def placed_def)
  from assms have "dep_runtimes d \<noteq> []" "dep_models d \<noteq> []" by (simp_all add: deployment_ok_def)
  with rs ms show ?thesis
    by (simp add: parse_deployment_def rbind_eq_Inr_iff deployment_fields_def DEPLOYMENT_KEYS_def SCHEMA_VERSION_def)
qed

section \<open>Properties\<close>

definition demo_sha :: string where
  "demo_sha = replicate 64 (CHR ''a'')"

definition demo_runtime :: RuntimeSpec where
  "demo_runtime = \<lparr>rs_runtime_id = ''rt'', rs_profile_id = ''llama-cpp-gguf-v1'', rs_image_digest = ''img@sha256:'' @ demo_sha,
     rs_adapter_sha256 = demo_sha, rs_lock_sha256 = demo_sha, rs_startup_args = [''--host'', ''--port'']\<rparr>"

definition demo_model :: RegisteredModelSpec where
  "demo_model = \<lparr>rm_model_id = ''chat-1'', rm_runtime_id = ''rt'', rm_capabilities = [''chat''],
     rm_assets = [\<lparr>ar_role = ''model'', ar_path = ''m/q4.gguf'', ar_sha256 = demo_sha, ar_size_bytes = 7\<rparr>], rm_port = 10001,
     rm_envelope = \<lparr>env_ctx_size = 4096, env_max_input_tokens = 2048, env_max_output_tokens = 1024, env_max_parallel = 2,
       env_max_image_tokens = 0, env_max_image_edge_pixels = 0, env_max_images = 0\<rparr>,
     rm_timeout_seconds = 60, rm_reserved_bytes = 115, rm_measured = True, rm_measurement_ref = Some demo_sha,
     rm_physical_resident_peak_bytes = Some 100\<rparr>"

definition demo_deployment :: DeploymentSpec where
  "demo_deployment = \<lparr>dep_runtimes = [demo_runtime], dep_models = [demo_model]\<rparr>"

lemma demo_sha_ok: "sha256_ok demo_sha" "length demo_sha = 64"
  by (simp_all add: sha256_ok_def demo_sha_def list_all_iff)

lemma demo_runtime_ok: "runtime_ok demo_runtime"
proof -
  have "image_digest_ok (''img@sha256:'' @ demo_sha)"
    by (simp add: image_digest_ok_def demo_sha_ok space_def of_char_def)
  then show ?thesis
    by (simp add: runtime_ok_def demo_runtime_def demo_sha_ok PROFILES_def ALLOWED_STARTUP_FLAGS_def id_ok_def lower_def
        flag_ok_def)
qed

lemma demo_model_ok: "model_ok demo_model"
  by (simp add: model_ok_def demo_model_def id_ok_def lower_def digit_def CAPABILITY_MATRIX_def asset_ok_def demo_sha_ok
      ASSET_ROLES_def path_ok_def control_char_def roles_of_def PORT_MIN_def PORT_MAX_def envelope_ok_def MAX_PARALLEL_def
      MAX_TIMEOUT_SECONDS_def measurement_ok_def of_char_def)

lemma demo_deployment_ok: "deployment_ok demo_deployment"
  using demo_runtime_ok demo_model_ok
  by (simp add: deployment_ok_def demo_deployment_def find_runtime_def)
    (simp add: demo_runtime_def demo_model_def PROFILES_def profile_ok_def role_count_def)



text \<open>
  C18. The integer formula of the reservation is the exact ceiling of the measured peak with
  fifteen percent of margin, for both figures, and a peak that is not positive is refused.
\<close>

theorem reservation_is_exact_ceiling:
  "reserved_bytes_from_peak p = (if 0 < p then Inr \<lceil>real_of_int p * 1.15\<rceil> else Inl (ContractError ''must be a positive integer''))
   \<and> physical_reserved_bytes_from_peak p = reserved_bytes_from_peak p"
  using ceil_div_100 [of p]
  by (auto simp: reserved_bytes_from_peak_def physical_reserved_bytes_from_peak_def positive_int_def MARGIN_PERCENT_def
      MARGIN_DIVISOR_def)

end
