(* ===== verification/Text_Values.thy ===== *)
theory Text_Values
  imports Json_Values
begin

text \<open>
  The operations on Python strings that several components share: white space, lines, decimal numbers.
  Strings are the code points below 256.
\<close>

section \<open>White space and lines\<close>

text \<open>\<^verbatim>\<open>value.strip()\<close>\<close>

definition strip :: "string \<Rightarrow> string" where
  "strip s = rev (dropWhile space (rev (dropWhile space s)))"

text \<open>\<^verbatim>\<open>value.rstrip("0")\<close>\<close>

definition rstrip :: "char \<Rightarrow> string \<Rightarrow> string" where
  "rstrip c s = rev (dropWhile ((=) c) (rev s))"

definition line_break :: "char \<Rightarrow> bool" where
  "line_break c \<longleftrightarrow> (of_char c :: nat) \<in> {10, 11, 12, 13, 28, 29, 30, 133}"

text \<open>\<^verbatim>\<open>value.splitlines()\<close>: a carriage return with its line feed is one break.\<close>

fun splitlines :: "string \<Rightarrow> string list" where
  "splitlines [] = []"
| "splitlines (c # cs) =
     (if c = CHR 0x0D \<and> take 1 cs = [CHR 0x0A] then [] # splitlines (drop 1 cs)
      else if line_break c then [] # splitlines cs
      else case splitlines cs of [] \<Rightarrow> [[c]] | l # ls \<Rightarrow> (c # l) # ls)"

text \<open>\<^verbatim>\<open>prefix\<close> at the start of a string, and \<^verbatim>\<open>needle in value\<close>.\<close>

definition starts_with :: "string \<Rightarrow> string \<Rightarrow> bool" where
  "starts_with p s \<longleftrightarrow> take (length p) s = p"

fun occurs_in :: "string \<Rightarrow> string \<Rightarrow> bool" where
  "occurs_in p [] = (p = [])"
| "occurs_in p (c # cs) = (starts_with p (c # cs) \<or> occurs_in p cs)"

text \<open>The lower-case form of the letters of ASCII.\<close>

definition fold_case :: "char \<Rightarrow> char" where
  "fold_case c = (if c \<in> set ''ABCDEFGHIJKLMNOPQRSTUVWXYZ'' then char_of (of_char c + 32 :: nat) else c)"

lemma strip_id: "s \<noteq> [] \<Longrightarrow> \<not> space (hd s) \<Longrightarrow> \<not> space (last s) \<Longrightarrow> strip s = s"
  by (simp add: strip_def dropWhile_eq_self_iff [THEN iffD2] hd_rev)

lemma set_strip: "set (strip s) \<subseteq> set s"
  by (auto simp: strip_def dest!: set_dropWhileD)

lemma rstrip_idem [simp]: "rstrip c (rstrip c s) = rstrip c s"
  by (simp add: rstrip_def)

lemma set_rstrip: "set (rstrip c s) \<subseteq> set s"
  by (auto simp: rstrip_def dest!: set_dropWhileD)

section \<open>Decimal numbers\<close>

text \<open>\<^verbatim>\<open>str(n)\<close> of a natural number and of an integer, \<^verbatim>\<open>f"{n:02d}"\<close>, and \<^verbatim>\<open>int(text)\<close> of digits.\<close>

definition digit_char :: "nat \<Rightarrow> char" where
  "digit_char n = ''0123456789'' ! n"

fun dec :: "nat \<Rightarrow> string" where
  "dec n = (if n < 10 then [digit_char n] else dec (n div 10) @ [digit_char (n mod 10)])"

declare dec.simps [simp del]

definition str_int :: "int \<Rightarrow> string" where
  "str_int n = (if n < 0 then ''-'' @ dec (nat (- n)) else dec (nat n))"

definition two_digits :: "nat \<Rightarrow> string" where
  "two_digits n = [digit_char (n div 10), digit_char (n mod 10)]"

definition digit_val :: "char \<Rightarrow> nat" where
  "digit_val c = of_char c - 48"

definition num :: "string \<Rightarrow> nat" where
  "num s = foldl (\<lambda>n c. n * 10 + digit_val c) 0 s"

lemma less_10: "n < 10 \<Longrightarrow> n \<in> {0, 1, 2, 3, 4, 5, 6, 7, 8, 9 :: nat}"
  by auto

lemma digit_digit_char [simp]: "n < 10 \<Longrightarrow> digit (digit_char n)"
  unfolding digit_def digit_char_def by (rule nth_mem) simp

lemma digit_val_char [simp]: "n < 10 \<Longrightarrow> digit_val (digit_char n) = n"
  by (drule less_10) (auto simp: digit_val_def digit_char_def)

lemma digit_val_less: "digit c \<Longrightarrow> digit_val c < 10"
  by (auto simp: digit_def digit_val_def)

lemma num_snoc [simp]: "num (s @ [c]) = num s * 10 + digit_val c"
  by (simp add: num_def)

lemma num_Nil [simp]: "num [] = 0"
  by (simp add: num_def)

lemma num_dec [simp]: "num (dec n) = n"
proof (induction n rule: dec.induct)
  case (1 n)
  show ?case
  proof (cases "n < 10")
    case True
    then show ?thesis using num_snoc [of "[]" "digit_char n"] by (simp add: dec.simps [of n])
  next
    case False
    with 1 show ?thesis by (simp add: dec.simps [of n])
  qed
qed

lemma digits_dec: "list_all digit (dec n)"
proof (induction n rule: dec.induct)
  case (1 n)
  then show ?case by (cases "n < 10") (simp_all add: dec.simps [of n])
qed

lemma dec_ne [simp]: "dec n \<noteq> []"
  by (simp add: dec.simps [of n])

lemma dec_inj: "dec m = dec n \<longleftrightarrow> m = n"
  by (metis num_dec)

lemma str_int_inj: "0 \<le> m \<Longrightarrow> 0 \<le> n \<Longrightarrow> str_int m = str_int n \<longleftrightarrow> m = n"
  by (auto simp: str_int_def dec_inj)

lemma num_two_digits [simp]: "n < 100 \<Longrightarrow> num (two_digits n) = n"
  using num_snoc [of "[digit_char (n div 10)]" "digit_char (n mod 10)"] num_snoc [of "[]" "digit_char (n div 10)"]
  by (simp add: two_digits_def less_mult_imp_div_less)

lemma digits_two_digits: "n < 100 \<Longrightarrow> list_all digit (two_digits n)"
  by (simp add: two_digits_def less_mult_imp_div_less)

lemma length_two_digits [simp]: "length (two_digits n) = 2"
  by (simp add: two_digits_def)

lemma length_dec: "length (dec n) = (if n < 10 then 1 else Suc (length (dec (n div 10))))"
  by (simp add: dec.simps [of n])

lemma length_dec_4: "1000 \<le> n \<Longrightarrow> n \<le> 9999 \<Longrightarrow> length (dec n) = 4"
  using length_dec [of n] length_dec [of "n div 10"] length_dec [of "n div 100"] length_dec [of "n div 1000"]
  by (simp add: div_mult2_eq [symmetric] div_less_iff_less_mult less_eq_div_iff_mult_less_eq not_less)

lemma length_dec_3: "n < 1000 \<Longrightarrow> length (dec n) < 4"
  using length_dec [of n] length_dec [of "n div 10"] length_dec [of "n div 100"]
  by (simp add: div_mult2_eq [symmetric] div_less_iff_less_mult split: if_splits)

lemma digit_not_space: "digit c \<Longrightarrow> \<not> space c"
  by (auto simp: digit_def space_def)

end
