(* ===== verification/Control_Protocol.thy ===== *)
theory Control_Protocol
  imports Registration_Parser Text_Values
begin

text \<open>
  The strict control protocol of \<^verbatim>\<open>model_scheduler/control_protocol_v1.py\<close>: the error table,
  the write-back rule on fences, and the parsers of requests, views and their parts.  The
  decimal form of a float (\<open>flt\<close>) and the reader of ISO timestamps (\<open>utc_ok\<close>) of the
  standard library are arguments.  The JSON Schema export is data and not modelled.
\<close>

section \<open>Canonical JSON\<close>

text \<open>
  \<^verbatim>\<open>json.dumps\<close> with sorted keys, compact separators and \<^verbatim>\<open>ensure_ascii=False\<close>, encoded as
  UTF-8 bytes.  Every caller has rejected non-finite numbers before (\<^verbatim>\<open>_validate_json_value\<close>,
  \<^verbatim>\<open>_parse_parameter_value\<close>), so the ValueError of \<^verbatim>\<open>allow_nan=False\<close> is not reached and the
  text of a non-finite number is a placeholder.
\<close>

definition hex_digit :: "nat \<Rightarrow> char" where
  "hex_digit n = ''0123456789abcdef'' ! n"

definition escape_char :: "char \<Rightarrow> string" where
  "escape_char c =
     (let n = of_char c :: nat in
      if n = 34 then [CHR 0x5C, CHR 0x22] else if n = 92 then [CHR 0x5C, CHR 0x5C]
      else if n = 10 then CHR 0x5C # ''n'' else if n = 13 then CHR 0x5C # ''r'' else if n = 9 then CHR 0x5C # ''t''
      else if n = 8 then CHR 0x5C # ''b'' else if n = 12 then CHR 0x5C # ''f''
      else if n < 32 then (CHR 0x5C # ''u00'') @ [hex_digit (n div 16), hex_digit (n mod 16)]
      else if n < 128 then [c]
      else [char_of (192 + n div 64), char_of (128 + n mod 64)])"

text \<open>\<^verbatim>\<open>ensure_ascii=True\<close>: everything outside the printable ASCII range is escaped.\<close>

definition escape_ascii :: "char \<Rightarrow> string" where
  "escape_ascii c =
     (let n = of_char c :: nat in
      if n < 127 then escape_char c else (CHR 0x5C # ''u00'') @ [hex_digit (n div 16), hex_digit (n mod 16)])"

definition string_text :: "(char \<Rightarrow> string) \<Rightarrow> string \<Rightarrow> string" where
  "string_text esc s = [CHR 0x22] @ concat (map esc s) @ [CHR 0x22]"

fun join :: "string list \<Rightarrow> string" where
  "join [] = []"
| "join [x] = x"
| "join (x # y # xs) = x @ '','' @ join (y # xs)"

fun json_dumps :: "(char \<Rightarrow> string) \<Rightarrow> (real \<Rightarrow> string) \<Rightarrow> json \<Rightarrow> string"
  and json_dumps_pairs :: "(char \<Rightarrow> string) \<Rightarrow> (real \<Rightarrow> string) \<Rightarrow> (string, json) dict \<Rightarrow> (string, string) dict"
  and json_dumps_items :: "(char \<Rightarrow> string) \<Rightarrow> (real \<Rightarrow> string) \<Rightarrow> json list \<Rightarrow> string list" where
  "json_dumps esc flt JNull = ''null''"
| "json_dumps esc flt (JBool b) = (if b then ''true'' else ''false'')"
| "json_dumps esc flt (JInt n) = str_int n"
| "json_dumps esc flt (JFloat x) = (case x of None \<Rightarrow> ''NaN'' | Some r \<Rightarrow> flt r)"
| "json_dumps esc flt (JStr s) = string_text esc s"
| "json_dumps esc flt (JList xs) = ''['' @ join (json_dumps_items esc flt xs) @ '']''"
| "json_dumps esc flt (JObj d) =
     ''{'' @ join (map (\<lambda>(k, v). string_text esc k @ '':'' @ v) (sort_key fst (json_dumps_pairs esc flt d))) @ ''}''"
| "json_dumps_pairs esc flt [] = []"
| "json_dumps_pairs esc flt ((k, v) # d) = (k, json_dumps esc flt v) # json_dumps_pairs esc flt d"
| "json_dumps_items esc flt [] = []"
| "json_dumps_items esc flt (x # xs) = json_dumps esc flt x # json_dumps_items esc flt xs"

definition canonical_json_bytes :: "(real \<Rightarrow> string) \<Rightarrow> json \<Rightarrow> string" where
  "canonical_json_bytes flt v = json_dumps escape_char flt v"

section \<open>Limits and tables\<close>

definition MAX_INLINE_INPUT_BYTES :: nat where "MAX_INLINE_INPUT_BYTES = 4 * 1024 * 1024"
definition MAX_PARAMETERS_BYTES :: nat where "MAX_PARAMETERS_BYTES = 8192"
definition MAX_BLOB_BYTES :: int where "MAX_BLOB_BYTES = 1073741824"
definition IDEMPOTENCY_KEY_MAX_LENGTH :: nat where "IDEMPOTENCY_KEY_MAX_LENGTH = 128"
definition CORRELATION_ID_MAX_LENGTH :: nat where "CORRELATION_ID_MAX_LENGTH = 128"
definition REQUEST_ID_MAX_LENGTH :: nat where "REQUEST_ID_MAX_LENGTH = 128"
definition MAX_PROTOCOL_INTEGER :: int where "MAX_PROTOCOL_INTEGER = 2147483647"

definition SESSION_STATES :: "string list" where
  "SESSION_STATES = [''preparing'', ''active'', ''draining'', ''blocked'', ''closed'']"

definition SESSION_PHASES :: "string list" where
  "SESSION_PHASES = [''queued'', ''loading'', ''draining_existing'']"

definition EXECUTION_STATES :: "string list" where
  "EXECUTION_STATES = [''queued'', ''running'', ''succeeded'', ''failed'', ''cancelling'', ''cancelled'']"

definition EXECUTION_TERMINAL_STATES :: "string list" where
  "EXECUTION_TERMINAL_STATES = [''succeeded'', ''failed'', ''cancelled'']"

definition DISPATCH_STATES :: "string list" where
  "DISPATCH_STATES = [''not_started'', ''dispatched'']"

definition ERROR_TABLE :: "(string, int \<times> bool) dict" where
  "ERROR_TABLE =
     [(''malformed_json'', 400, False), (''unsupported_protocol'', 400, False), (''peer_forbidden'', 403, False),
      (''not_found'', 404, False), (''stale_token'', 409, False), (''session_expired'', 409, False),
      (''idempotency_conflict'', 409, False), (''busy'', 409, True), (''blob_in_use'', 409, True),
      (''reference_expired'', 410, False), (''payload_too_large'', 413, False), (''unsupported_media_type'', 415, False),
      (''contract_violation'', 422, False), (''envelope_exceeded'', 422, False), (''capability_mismatch'', 422, False),
      (''queue_full'', 429, True), (''quota_exceeded'', 429, True), (''backend_failed'', 502, False),
      (''instance_unknown'', 503, True), (''storage_unavailable'', 503, True), (''resource_unavailable'', 503, True),
      (''temporarily_unavailable'', 503, True), (''queue_timeout'', 504, True), (''execution_timeout'', 504, False)]"

definition error_known :: "string \<Rightarrow> bool" where
  "error_known code \<longleftrightarrow> code \<in> set (dkeys ERROR_TABLE)"

definition retryable_code :: "string \<Rightarrow> bool" where
  "retryable_code code = (case dget ERROR_TABLE code of None \<Rightarrow> False | Some (status, r) \<Rightarrow> r)"

datatype RuleKind = RInteger | RNumber | RBoolean | RString | RConst string

record ParameterRule =
  pa_kind :: RuleKind
  pa_minimum :: "real option"
  pa_maximum :: "real option"
  pa_exclusive_minimum :: bool

definition param_rule :: "RuleKind \<Rightarrow> real option \<Rightarrow> real option \<Rightarrow> bool \<Rightarrow> ParameterRule" where
  "param_rule k lo hi ex = \<lparr>pa_kind = k, pa_minimum = lo, pa_maximum = hi, pa_exclusive_minimum = ex\<rparr>"

definition CHAT_PARAMETERS :: "(string, ParameterRule) dict" where
  "CHAT_PARAMETERS =
     [(''max_tokens'', param_rule RInteger (Some 1) (Some (real_of_int MAX_PROTOCOL_INTEGER)) False),
      (''temperature'', param_rule RNumber (Some 0) (Some 2) False),
      (''top_p'', param_rule RNumber (Some 0) (Some 1) True),
      (''seed'', param_rule RInteger (Some 0) (Some (real_of_int MAX_PROTOCOL_INTEGER)) False),
      (''ignore_eos'', param_rule RBoolean None None False)]"

definition PARAMETER_RULES :: "(string, (string, ParameterRule) dict) dict" where
  "PARAMETER_RULES =
     [(''chat'', CHAT_PARAMETERS),
      (''vision'', CHAT_PARAMETERS @ [(''text'', param_rule RString None None False)]),
      (''embeddings'', [(''encoding_format'', param_rule (RConst ''float'') None None False)]),
      (''rerank'', [(''top_n'', param_rule RInteger (Some 1) (Some (real_of_int MAX_PROTOCOL_INTEGER)) False),
                    (''return_documents'', param_rule RBoolean None None False)])]"

section \<open>Strict value helpers\<close>

definition req :: "(string, json) dict \<Rightarrow> string \<Rightarrow> json result" where
  "req d k = (case dget d k of None \<Rightarrow> Inl (ContractError ''is required'') | Some v \<Rightarrow> Inr v)"

text \<open>Code points below 256 are always encodable; only NUL is refused.\<close>

definition check_utf8_text :: "string \<Rightarrow> string result" where
  "check_utf8_text s = (if CHR 0x00 \<in> set s then Inl (ContractError ''must not contain NUL'') else Inr s)"

definition utf8_length :: "string \<Rightarrow> nat" where
  "utf8_length s = sum_list (map (\<lambda>c. if (of_char c :: nat) < 128 then 1 else 2) s)"

definition text_value :: "json \<Rightarrow> string result" where
  "text_value v = (case v of
      JStr s \<Rightarrow> (if s = [] then Inl (ContractError ''must be a non-empty string'') else check_utf8_text s)
    | _ \<Rightarrow> Inl (ContractError ''must be a non-empty string''))"

definition text_field :: "(string, json) dict \<Rightarrow> string \<Rightarrow> string result" where
  "text_field d k = rbind (req d k) text_value"

definition bounded_text :: "json \<Rightarrow> nat \<Rightarrow> string result" where
  "bounded_text v max_bytes =
     rbind (text_value v) (\<lambda>s.
     rbind (raise_if (utf8_length s > max_bytes) (ContractError ''must be at most max UTF-8 bytes'')) (\<lambda>_. Inr s))"

definition bounded_text_field :: "(string, json) dict \<Rightarrow> string \<Rightarrow> nat \<Rightarrow> string result" where
  "bounded_text_field d k max_bytes = rbind (req d k) (\<lambda>v. bounded_text v max_bytes)"

definition id_field :: "(string, json) dict \<Rightarrow> string \<Rightarrow> string result" where
  "id_field d k =
     rbind (text_field d k) (\<lambda>s. rbind (raise_if (\<not> id_ok s) (ContractError ''must be a lowercase opaque id'')) (\<lambda>_. Inr s))"

definition int_field :: "(string, json) dict \<Rightarrow> string \<Rightarrow> int option \<Rightarrow> int option \<Rightarrow> int result" where
  "int_field d k minimum maximum = rbind (req d k) (\<lambda>_. get_int d k minimum maximum)"

definition enum_field :: "(string, json) dict \<Rightarrow> string \<Rightarrow> string list \<Rightarrow> string result" where
  "enum_field d k allowed =
     rbind (text_field d k) (\<lambda>s. rbind (raise_if (s \<notin> set allowed) (ContractError ''must be one of the allowed values'')) (\<lambda>_. Inr s))"

definition nullable_enum_field :: "(string, json) dict \<Rightarrow> string \<Rightarrow> string list \<Rightarrow> string option result" where
  "nullable_enum_field d k allowed =
     rbind (req d k) (\<lambda>v. case v of
        JNull \<Rightarrow> Inr None
      | JStr s \<Rightarrow> (if s \<in> set allowed then Inr (Some s) else Inl (ContractError ''must be null or one of the allowed values''))
      | _ \<Rightarrow> Inl (ContractError ''must be null or one of the allowed values''))"

definition utc_timestamp_field :: "(string \<Rightarrow> bool) \<Rightarrow> (string, json) dict \<Rightarrow> string \<Rightarrow> string result" where
  "utc_timestamp_field utc_ok d k =
     rbind (text_field d k) (\<lambda>s. rbind (raise_if (\<not> utc_ok s) (ContractError ''must be a UTC ISO-8601 timestamp'')) (\<lambda>_. Inr s))"

fun validate_json_value :: "json \<Rightarrow> unit result" and validate_json_pairs :: "(string, json) dict \<Rightarrow> unit result"
  and validate_json_items :: "json list \<Rightarrow> unit result" where
  "validate_json_value (JFloat None) = Inl (ContractError ''non-finite numbers are not allowed'')"
| "validate_json_value (JStr s) = rbind (check_utf8_text s) (\<lambda>_. Inr ())"
| "validate_json_value (JObj d) = validate_json_pairs d"
| "validate_json_value (JList xs) = validate_json_items xs"
| "validate_json_value _ = Inr ()"
| "validate_json_pairs [] = Inr ()"
| "validate_json_pairs ((k, v) # d) =
     rbind (check_utf8_text k) (\<lambda>_. rbind (validate_json_value v) (\<lambda>_. validate_json_pairs d))"
| "validate_json_items [] = Inr ()"
| "validate_json_items (x # xs) = rbind (validate_json_value x) (\<lambda>_. validate_json_items xs)"

section \<open>Fences and the write-back rule\<close>

record Fence =
  f_boot_id :: string
  f_model_id :: string
  f_generation :: int
  f_operation_id :: string
  f_execution_id :: "string option"
  f_attempt :: "int option"

record WritebackDecision =
  wd_accepted :: bool
  wd_reason :: "string option"
  wd_fence :: Fence

definition reject :: "string \<Rightarrow> Fence \<Rightarrow> WritebackDecision" where
  "reject reason fence = \<lparr>wd_accepted = False, wd_reason = Some reason, wd_fence = fence\<rparr>"

definition writeback_decision :: "Fence \<Rightarrow> Fence \<Rightarrow> WritebackDecision" where
  "writeback_decision current incoming =
     (if f_boot_id incoming \<noteq> f_boot_id current then reject ''stale_boot'' incoming
      else if f_model_id incoming \<noteq> f_model_id current then reject ''foreign_model'' incoming
      else if f_generation incoming \<noteq> f_generation current then reject ''stale_generation'' incoming
      else if f_operation_id incoming \<noteq> f_operation_id current then reject ''stale_operation'' incoming
      else if f_execution_id current \<noteq> None \<and> f_execution_id incoming \<noteq> f_execution_id current
      then reject ''foreign_execution'' incoming
      else if (f_attempt current = None) \<noteq> (f_attempt incoming = None) then reject ''attempt_mismatch'' incoming
      else if f_attempt current \<noteq> None \<and> the (f_attempt incoming) < the (f_attempt current)
      then reject ''stale_attempt'' incoming
      else \<lparr>wd_accepted = True, wd_reason = None, wd_fence = incoming\<rparr>)"

definition fence_document :: "Fence \<Rightarrow> json" where
  "fence_document f = JObj [(''boot_id'', JStr (f_boot_id f)), (''model_id'', JStr (f_model_id f)),
     (''generation'', JInt (f_generation f)), (''operation_id'', JStr (f_operation_id f)),
     (''execution_id'', null_or JStr (f_execution_id f)), (''attempt'', null_or JInt (f_attempt f))]"

section \<open>Data of requests and views\<close>

record ErrorDetail =
  e_code :: string
  e_message :: string
  e_retryable :: bool

record InstanceIdentity =
  i_container_id :: string
  i_started_at :: string
  i_deployment_id :: string
  i_model_id :: string
  i_runtime_id :: string
  i_candidate_digest :: string
  i_image_digest :: string

record BlobRef =
  b_blob_id :: string
  b_owner :: string
  b_sha256 :: string
  b_size_bytes :: int
  b_media_type :: string

datatype ExecutionInput = Inline "(string, json) dict" | Blob BlobRef

record SessionCreateRequest =
  sc_model_id :: string
  sc_idempotency_key :: string
  sc_correlation_id :: "string option"

record SessionDocument =
  sd_session_id :: string
  sd_state :: string
  sd_phase :: "string option"
  sd_boot_id :: string
  sd_model_id :: string
  sd_expires_in_ms :: int
  sd_hard_remaining_ms :: int
  sd_owner_token :: "string option"
  sd_error :: "ErrorDetail option"

record ExecutionCreateRequest =
  ex_session_token :: string
  ex_operation :: string
  ex_input :: ExecutionInput
  ex_parameters :: "(string, json) dict"
  ex_idempotency_key :: string

record ExecutionView =
  ev_execution_id :: string
  ev_state :: string
  ev_dispatch_state :: string
  ev_compute_quiescent :: "bool option"
  ev_result :: "BlobRef option"
  ev_error :: "ErrorDetail option"
  ev_instance :: "InstanceIdentity option"
  ev_fence :: Fence

section \<open>Parsers\<close>

text \<open>\<^verbatim>\<open>None if raw is None else parse(raw)\<close>\<close>

definition opt_parse :: "(json \<Rightarrow> 'a result) \<Rightarrow> json \<Rightarrow> 'a option result" where
  "opt_parse p v = (if v = JNull then Inr None else rbind (p v) (\<lambda>x. Inr (Some x)))"

definition ERROR_DETAIL_KEYS :: "string list" where "ERROR_DETAIL_KEYS = [''code'', ''message'', ''retryable'']"

definition parse_error_detail :: "json \<Rightarrow> ErrorDetail result" where
  "parse_error_detail data =
     rbind (as_mapping data) (\<lambda>d.
     rbind (exact_keys d ERROR_DETAIL_KEYS) (\<lambda>_.
     rbind (text_field d ''code'') (\<lambda>code.
     rbind (raise_if (\<not> error_known code) (ContractError ''unknown error code'')) (\<lambda>_.
     rbind (text_field d ''message'') (\<lambda>message.
     rbind (req d ''retryable'') (\<lambda>r.
     case r of
       JBool retryable \<Rightarrow>
         rbind (raise_if (retryable \<noteq> retryable_code code) (ContractError ''retryable does not match the error table'')) (\<lambda>_.
         Inr \<lparr>e_code = code, e_message = message, e_retryable = retryable\<rparr>)
     | _ \<Rightarrow> Inl (ContractError ''retryable must be a boolean'')))))))"

definition parse_error_document :: "json \<Rightarrow> (ErrorDetail \<times> string) result" where
  "parse_error_document data =
     rbind (as_mapping data) (\<lambda>d.
     rbind (exact_keys d [''error'', ''request_id'']) (\<lambda>_.
     rbind (req d ''error'') (\<lambda>e.
     rbind (parse_error_detail e) (\<lambda>detail.
     rbind (bounded_text_field d ''request_id'' REQUEST_ID_MAX_LENGTH) (\<lambda>rid.
     Inr (detail, rid))))))"

definition error_detail_json :: "ErrorDetail \<Rightarrow> json" where
  "error_detail_json e = JObj [(''code'', JStr (e_code e)), (''message'', JStr (e_message e)), (''retryable'', JBool (e_retryable e))]"

definition error_document :: "string \<Rightarrow> string \<Rightarrow> string \<Rightarrow> json result" where
  "error_document code message request_id =
     rbind (raise_if (\<not> error_known code) (ContractError ''unknown error code'')) (\<lambda>_.
     rbind (text_value (JStr message)) (\<lambda>msg.
     rbind (bounded_text (JStr request_id) REQUEST_ID_MAX_LENGTH) (\<lambda>rid.
     Inr (JObj [(''error'', error_detail_json \<lparr>e_code = code, e_message = msg, e_retryable = retryable_code code\<rparr>),
                (''request_id'', JStr rid)]))))"

definition is_retryable_error :: "string \<Rightarrow> bool result" where
  "is_retryable_error code =
     rbind (raise_if (\<not> error_known code) (ContractError ''unknown error code'')) (\<lambda>_. Inr (retryable_code code))"

definition parse_session_create_request :: "json \<Rightarrow> SessionCreateRequest result" where
  "parse_session_create_request data =
     rbind (as_mapping data) (\<lambda>d.
     rbind (exact_keys d [''model_id'', ''idempotency_key'', ''correlation_id'']) (\<lambda>_.
     rbind (id_field d ''model_id'') (\<lambda>mid.
     rbind (bounded_text_field d ''idempotency_key'' IDEMPOTENCY_KEY_MAX_LENGTH) (\<lambda>key.
     rbind (if jget d ''correlation_id'' \<noteq> JNull
            then rbind (bounded_text_field d ''correlation_id'' CORRELATION_ID_MAX_LENGTH) (\<lambda>c. Inr (Some c))
            else Inr None) (\<lambda>cid.
     Inr \<lparr>sc_model_id = mid, sc_idempotency_key = key, sc_correlation_id = cid\<rparr>)))))"

definition SESSION_VIEW_KEYS :: "string list" where
  "SESSION_VIEW_KEYS = [''session_id'', ''state'', ''phase'', ''boot_id'', ''model_id'', ''expires_in_ms'',
     ''hard_remaining_ms'', ''owner_token'', ''error'']"

definition parse_session_view :: "json \<Rightarrow> SessionDocument result" where
  "parse_session_view data =
     rbind (as_mapping data) (\<lambda>d.
     rbind (exact_keys d SESSION_VIEW_KEYS) (\<lambda>_.
     rbind (id_field d ''session_id'') (\<lambda>sid.
     rbind (enum_field d ''state'' SESSION_STATES) (\<lambda>state.
     rbind (nullable_enum_field d ''phase'' SESSION_PHASES) (\<lambda>phase.
     rbind (text_field d ''boot_id'') (\<lambda>boot.
     rbind (id_field d ''model_id'') (\<lambda>mid.
     rbind (int_field d ''expires_in_ms'' (Some 0) None) (\<lambda>expires.
     rbind (int_field d ''hard_remaining_ms'' (Some 0) None) (\<lambda>hard.
     rbind (req d ''owner_token'') (\<lambda>tok.
     rbind (if state = ''closed''
            then rbind (raise_if (tok \<noteq> JNull) (ContractError ''a closed session must report owner_token=null'')) (\<lambda>_. Inr None)
            else rbind (text_value tok) (\<lambda>t. Inr (Some t))) (\<lambda>token.
     rbind (req d ''error'') (\<lambda>e.
     rbind (opt_parse parse_error_detail e) (\<lambda>error.
     Inr \<lparr>sd_session_id = sid, sd_state = state, sd_phase = phase, sd_boot_id = boot, sd_model_id = mid,
          sd_expires_in_ms = expires, sd_hard_remaining_ms = hard, sd_owner_token = token, sd_error = error\<rparr>)))))))))))))"

definition media_part :: "string \<Rightarrow> bool" where
  "media_part s = (case s of [] \<Rightarrow> False
     | c # rest \<Rightarrow> (lower c \<or> digit c) \<and> list_all (\<lambda>x. lower x \<or> digit x \<or> x \<in> set ''.+-'') rest)"

definition media_type_ok :: "string \<Rightarrow> bool" where
  "media_type_ok s = (case split_on (CHR ''/'') s of [a, b] \<Rightarrow> media_part a \<and> media_part b | _ \<Rightarrow> False)"

definition BLOB_REF_KEYS :: "string list" where
  "BLOB_REF_KEYS = [''blob_id'', ''owner'', ''sha256'', ''size_bytes'', ''media_type'']"

definition parse_blob_ref :: "json \<Rightarrow> BlobRef result" where
  "parse_blob_ref data =
     rbind (as_mapping data) (\<lambda>d.
     rbind (exact_keys d BLOB_REF_KEYS) (\<lambda>_.
     rbind (id_field d ''blob_id'') (\<lambda>bid.
     rbind (text_field d ''owner'') (\<lambda>owner.
     rbind (rbind (req d ''sha256'') sha256_value) (\<lambda>sha.
     rbind (int_field d ''size_bytes'' (Some 1) (Some MAX_BLOB_BYTES)) (\<lambda>size.
     rbind (text_field d ''media_type'') (\<lambda>media.
     rbind (raise_if (\<not> media_type_ok media) (ContractError ''media_type must be a lowercase type/subtype without parameters'')) (\<lambda>_.
     Inr \<lparr>b_blob_id = bid, b_owner = owner, b_sha256 = sha, b_size_bytes = size, b_media_type = media\<rparr>))))))))"

definition parse_execution_input :: "(real \<Rightarrow> string) \<Rightarrow> json \<Rightarrow> ExecutionInput result" where
  "parse_execution_input flt data =
     rbind (as_mapping data) (\<lambda>d.
     rbind (exact_keys d [''inline'', ''blob'']) (\<lambda>_.
     case (dget d ''inline'', dget d ''blob'') of
       (Some v, None) \<Rightarrow>
         rbind (as_mapping v) (\<lambda>inline.
         rbind (raise_if (inline = []) (ContractError ''must be a non-empty object'')) (\<lambda>_.
         rbind (validate_json_value (JObj inline)) (\<lambda>_.
         rbind (raise_if (length (canonical_json_bytes flt (JObj inline)) > MAX_INLINE_INPUT_BYTES)
                 (ContractError ''inline exceeds the canonical JSON byte limit'')) (\<lambda>_. Inr (Inline inline)))))
     | (None, Some v) \<Rightarrow> rbind (parse_blob_ref v) (\<lambda>b. Inr (Blob b))
     | _ \<Rightarrow> Inl (ContractError ''exactly one of inline or blob is required'')))"

definition check_parameter_bounds :: "ParameterRule \<Rightarrow> real \<Rightarrow> unit result" where
  "check_parameter_bounds r v =
     rbind (if pa_exclusive_minimum r
            then raise_if (case pa_minimum r of None \<Rightarrow> False | Some m \<Rightarrow> v \<le> m) (ContractError ''must be > minimum'')
            else raise_if (case pa_minimum r of None \<Rightarrow> False | Some m \<Rightarrow> v < m) (ContractError ''must be >= minimum'')) (\<lambda>_.
     raise_if (case pa_maximum r of None \<Rightarrow> False | Some m \<Rightarrow> v > m) (ContractError ''must be <= maximum''))"

text \<open>\<^verbatim>\<open>math.isfinite\<close> converts an integer to a double and overflows from this bound on.\<close>

definition FLOAT_OVERFLOW :: int where "FLOAT_OVERFLOW = 2 ^ 1024 - 2 ^ 970"

definition parse_parameter_value :: "ParameterRule \<Rightarrow> json \<Rightarrow> json result" where
  "parse_parameter_value r v =
     (case pa_kind r of
        RInteger \<Rightarrow> (case v of JInt n \<Rightarrow> rbind (check_parameter_bounds r (real_of_int n)) (\<lambda>_. Inr v)
                     | _ \<Rightarrow> Inl (ContractError ''must be an integer''))
      | RNumber \<Rightarrow> (case v of JInt n \<Rightarrow>
                      rbind (raise_if (\<bar>n\<bar> \<ge> FLOAT_OVERFLOW) (OverflowError ''int too large to convert to float'')) (\<lambda>_.
                      rbind (check_parameter_bounds r (real_of_int n)) (\<lambda>_. Inr v))
                    | JFloat (Some x) \<Rightarrow> rbind (check_parameter_bounds r x) (\<lambda>_. Inr v)
                    | _ \<Rightarrow> Inl (ContractError ''must be a finite number''))
      | RBoolean \<Rightarrow> (case v of JBool b \<Rightarrow> Inr v | _ \<Rightarrow> Inl (ContractError ''must be a boolean''))
      | RString \<Rightarrow> rbind (text_value v) (\<lambda>s. Inr v)
      | RConst c \<Rightarrow> (if v = JStr c then Inr v else Inl (ContractError ''must be the constant'')))"

fun parse_rules :: "(string, ParameterRule) dict \<Rightarrow> (string, json) dict \<Rightarrow> (string, json) dict result" where
  "parse_rules [] d = Inr []"
| "parse_rules ((k, r) # rules) d =
     (case dget d k of
        None \<Rightarrow> parse_rules rules d
      | Some v \<Rightarrow> rbind (parse_parameter_value r v) (\<lambda>v'. rbind (parse_rules rules d) (\<lambda>rest. Inr ((k, v') # rest))))"

definition parse_parameters :: "(real \<Rightarrow> string) \<Rightarrow> string \<Rightarrow> json \<Rightarrow> (string, json) dict result" where
  "parse_parameters flt operation value =
     rbind (as_mapping value) (\<lambda>d.
     rbind (dlookup PARAMETER_RULES operation) (\<lambda>rules.
     rbind (raise_if (\<not> set (dkeys d) \<subseteq> set (dkeys rules)) (ContractError ''unsupported parameters'')) (\<lambda>_.
     rbind (parse_rules rules d) (\<lambda>parsed.
     rbind (raise_if (length (canonical_json_bytes flt (JObj parsed)) > MAX_PARAMETERS_BYTES)
             (ContractError ''parameters exceed the canonical JSON byte limit'')) (\<lambda>_. Inr parsed)))))"

definition EXECUTION_CREATE_KEYS :: "string list" where
  "EXECUTION_CREATE_KEYS = [''session_token'', ''operation'', ''input'', ''parameters'', ''idempotency_key'']"

definition parse_execution_create_request :: "(real \<Rightarrow> string) \<Rightarrow> json \<Rightarrow> ExecutionCreateRequest result" where
  "parse_execution_create_request flt data =
     rbind (as_mapping data) (\<lambda>d.
     rbind (exact_keys d EXECUTION_CREATE_KEYS) (\<lambda>_.
     rbind (text_field d ''session_token'') (\<lambda>token.
     rbind (enum_field d ''operation'' (dkeys CAPABILITY_MATRIX)) (\<lambda>operation.
     rbind (rbind (req d ''input'') (parse_execution_input flt)) (\<lambda>inp.
     rbind (rbind (req d ''parameters'') (parse_parameters flt operation)) (\<lambda>params.
     rbind (bounded_text_field d ''idempotency_key'' IDEMPOTENCY_KEY_MAX_LENGTH) (\<lambda>key.
     Inr \<lparr>ex_session_token = token, ex_operation = operation, ex_input = inp, ex_parameters = params,
          ex_idempotency_key = key\<rparr>)))))))"

definition FENCE_KEYS :: "string list" where
  "FENCE_KEYS = [''boot_id'', ''model_id'', ''generation'', ''operation_id'', ''execution_id'', ''attempt'']"

definition parse_fence :: "json \<Rightarrow> Fence result" where
  "parse_fence data =
     rbind (as_mapping data) (\<lambda>d.
     rbind (exact_keys d FENCE_KEYS) (\<lambda>_.
     rbind (text_field d ''boot_id'') (\<lambda>boot.
     rbind (id_field d ''model_id'') (\<lambda>mid.
     rbind (int_field d ''generation'' (Some 1) None) (\<lambda>gen.
     rbind (id_field d ''operation_id'') (\<lambda>oid.
     rbind (req d ''execution_id'') (\<lambda>eid_raw.
     rbind (req d ''attempt'') (\<lambda>att_raw.
     rbind (raise_if ((eid_raw = JNull) \<noteq> (att_raw = JNull)) (ContractError ''execution_id and attempt must be null together'')) (\<lambda>_.
     if eid_raw = JNull
     then Inr \<lparr>f_boot_id = boot, f_model_id = mid, f_generation = gen, f_operation_id = oid, f_execution_id = None, f_attempt = None\<rparr>
     else case eid_raw of
            JStr eid \<Rightarrow>
              rbind (raise_if (\<not> id_ok eid) (ContractError ''execution_id must be a lowercase opaque id'')) (\<lambda>_.
              case att_raw of
                JInt att \<Rightarrow> rbind (raise_if (att < 1) (ContractError ''an execution fence requires attempt >= 1'')) (\<lambda>_.
                  Inr \<lparr>f_boot_id = boot, f_model_id = mid, f_generation = gen, f_operation_id = oid,
                       f_execution_id = Some eid, f_attempt = Some att\<rparr>)
              | _ \<Rightarrow> Inl (ContractError ''an execution fence requires attempt >= 1''))
          | _ \<Rightarrow> Inl (ContractError ''execution_id must be a lowercase opaque id''))))))))))"

definition INSTANCE_KEYS :: "string list" where
  "INSTANCE_KEYS = [''container_id'', ''started_at'', ''deployment_id'', ''model_id'', ''runtime_id'', ''candidate_digest'',
     ''image_digest'']"

definition parse_instance_identity :: "(string \<Rightarrow> bool) \<Rightarrow> json \<Rightarrow> InstanceIdentity result" where
  "parse_instance_identity utc_ok data =
     rbind (as_mapping data) (\<lambda>d.
     rbind (exact_keys d INSTANCE_KEYS) (\<lambda>_.
     rbind (text_field d ''container_id'') (\<lambda>cid.
     rbind (utc_timestamp_field utc_ok d ''started_at'') (\<lambda>started.
     rbind (id_field d ''deployment_id'') (\<lambda>dep.
     rbind (id_field d ''model_id'') (\<lambda>mid.
     rbind (id_field d ''runtime_id'') (\<lambda>rid.
     rbind (rbind (req d ''candidate_digest'') sha256_value) (\<lambda>cand.
     rbind (text_field d ''image_digest'') (\<lambda>image.
     rbind (raise_if (\<not> image_digest_ok image) (ContractError ''image_digest must be name@sha256'')) (\<lambda>_.
     Inr \<lparr>i_container_id = cid, i_started_at = started, i_deployment_id = dep, i_model_id = mid, i_runtime_id = rid,
          i_candidate_digest = cand, i_image_digest = image\<rparr>))))))))))"

definition EXECUTION_VIEW_KEYS :: "string list" where
  "EXECUTION_VIEW_KEYS = [''execution_id'', ''state'', ''dispatch_state'', ''compute_quiescent'', ''result'', ''error'',
     ''instance'', ''fence'']"

text \<open>The cross-field rules at the end of \<^verbatim>\<open>parse_execution_view\<close>.\<close>

definition check_terminal_evidence ::
  "string \<Rightarrow> json \<Rightarrow> BlobRef option \<Rightarrow> ErrorDetail option \<Rightarrow> bool option result" where
  "check_terminal_evidence state quiescent result error =
     (if state \<in> set EXECUTION_TERMINAL_STATES
      then rbind (raise_if (quiescent \<noteq> JBool True) (ContractError ''a terminal execution must report compute_quiescent=true'')) (\<lambda>_.
           rbind (if state = ''succeeded''
                  then rbind (raise_if (result = None) (ContractError ''a succeeded execution requires a result'')) (\<lambda>_.
                       raise_if (error \<noteq> None) (ContractError ''a succeeded execution must not carry an error''))
                  else rbind (raise_if (error = None) (ContractError ''execution requires an error'')) (\<lambda>_.
                       raise_if (result \<noteq> None) (ContractError ''execution must not carry a result''))) (\<lambda>_. Inr (Some True)))
      else rbind (raise_if (quiescent \<noteq> JNull) (ContractError ''a non-terminal execution must report compute_quiescent=null'')) (\<lambda>_.
           rbind (raise_if (result \<noteq> None) (ContractError ''a non-terminal execution must not carry a result'')) (\<lambda>_.
           rbind (raise_if (error \<noteq> None) (ContractError ''a non-terminal execution must not carry an error'')) (\<lambda>_. Inr None))))"

definition parse_execution_view :: "(string \<Rightarrow> bool) \<Rightarrow> json \<Rightarrow> ExecutionView result" where
  "parse_execution_view utc_ok data =
     rbind (as_mapping data) (\<lambda>d.
     rbind (exact_keys d EXECUTION_VIEW_KEYS) (\<lambda>_.
     rbind (id_field d ''execution_id'') (\<lambda>eid.
     rbind (enum_field d ''state'' EXECUTION_STATES) (\<lambda>state.
     rbind (enum_field d ''dispatch_state'' DISPATCH_STATES) (\<lambda>dispatch.
     rbind (rbind (req d ''fence'') parse_fence) (\<lambda>fence.
     rbind (raise_if (f_execution_id fence \<noteq> Some eid \<or> f_attempt fence = None)
             (ContractError ''fence must identify this execution with attempt >= 1'')) (\<lambda>_.
     rbind (rbind (req d ''instance'') (opt_parse (parse_instance_identity utc_ok))) (\<lambda>inst.
     rbind (if dispatch = ''dispatched''
            then raise_if (inst = None) (ContractError ''a dispatched execution requires a full instance identity'')
            else raise_if (inst \<noteq> None) (ContractError ''a not_started execution must not carry a container identity'')) (\<lambda>_.
     rbind (rbind (req d ''result'') (opt_parse parse_blob_ref)) (\<lambda>result.
     rbind (rbind (req d ''error'') (opt_parse parse_error_detail)) (\<lambda>error.
     rbind (req d ''compute_quiescent'') (\<lambda>q.
     rbind (check_terminal_evidence state q result error) (\<lambda>quiescent.
     Inr \<lparr>ev_execution_id = eid, ev_state = state, ev_dispatch_state = dispatch, ev_compute_quiescent = quiescent,
          ev_result = result, ev_error = error, ev_instance = inst, ev_fence = fence\<rparr>)))))))))))))"

section \<open>Idempotency and retention helpers\<close>

text \<open>The SHA-256 digest of \<^verbatim>\<open>hashlib\<close> is the argument \<open>sha\<close>.\<close>

definition idempotency_fingerprint ::
  "(real \<Rightarrow> string) \<Rightarrow> (string \<Rightarrow> string) \<Rightarrow> string \<Rightarrow> string \<Rightarrow> json \<Rightarrow> string result" where
  "idempotency_fingerprint flt sha owner key payload =
     rbind (text_value (JStr owner)) (\<lambda>owner_text.
     rbind (bounded_text (JStr key) IDEMPOTENCY_KEY_MAX_LENGTH) (\<lambda>key_text.
     rbind (validate_json_value payload) (\<lambda>_.
     Inr (sha (canonical_json_bytes flt
            (JObj [(''owner'', JStr owner_text), (''key'', JStr key_text), (''payload'', payload)]))))))"

definition reference_expired :: "real \<Rightarrow> real \<Rightarrow> int \<Rightarrow> bool result" where
  "reference_expired created_at now retention_seconds =
     rbind (raise_if (retention_seconds < 1) (ContractError ''retention_seconds: must be a positive integer'')) (\<lambda>_.
     Inr (now - created_at \<ge> real_of_int retention_seconds))"

section \<open>The write-back rule\<close>

text \<open>What an accepted write-back carries.\<close>

definition fence_accepts :: "Fence \<Rightarrow> Fence \<Rightarrow> bool" where
  "fence_accepts cur inc \<longleftrightarrow>
     f_boot_id inc = f_boot_id cur \<and> f_model_id inc = f_model_id cur \<and> f_generation inc = f_generation cur
     \<and> f_operation_id inc = f_operation_id cur \<and> (f_execution_id cur = None \<or> f_execution_id inc = f_execution_id cur)
     \<and> (case (f_attempt cur, f_attempt inc) of (None, None) \<Rightarrow> True | (Some a, Some b) \<Rightarrow> a \<le> b | _ \<Rightarrow> False)"

lemma reject_accepted [simp]: "wd_accepted (reject r f) = False" "wd_reason (reject r f) = Some r" "wd_fence (reject r f) = f"
  by (simp_all add: reject_def)

lemma writeback_accepted_iff: "wd_accepted (writeback_decision cur inc) \<longleftrightarrow> fence_accepts cur inc"
  by (auto simp: writeback_decision_def fence_accepts_def split: option.splits)

lemma fence_accepts_antisym: "fence_accepts a b \<Longrightarrow> fence_accepts b a \<Longrightarrow> a = b"
  by (rule Fence.equality) (auto simp: fence_accepts_def split: option.splits)

text \<open>
  C16. Accepting a write-back is a partial order on fences: a fence accepts itself, acceptance
  composes, and two different fences never accept each other, so a superseded fence is refused by
  its successor.  Every decision carries the incoming fence, and a reason exactly when it refuses.
\<close>

theorem writeback_is_partial_order:
  "wd_accepted (writeback_decision a a)
   \<and> (wd_accepted (writeback_decision a b) \<longrightarrow> wd_accepted (writeback_decision b c) \<longrightarrow> wd_accepted (writeback_decision a c))
   \<and> (wd_accepted (writeback_decision a b) \<longrightarrow> a \<noteq> b \<longrightarrow> \<not> wd_accepted (writeback_decision b a))
   \<and> wd_fence (writeback_decision a b) = b \<and> (wd_reason (writeback_decision a b) = None \<longleftrightarrow> wd_accepted (writeback_decision a b))"
proof (intro conjI impI)
  show "wd_accepted (writeback_decision a a)"
    unfolding writeback_accepted_iff by (auto simp: fence_accepts_def split: option.splits)
  show "wd_accepted (writeback_decision a c)"
    if "wd_accepted (writeback_decision a b)" "wd_accepted (writeback_decision b c)"
    using that unfolding writeback_accepted_iff by (auto simp: fence_accepts_def split: option.splits)
  show "\<not> wd_accepted (writeback_decision b a)" if "wd_accepted (writeback_decision a b)" "a \<noteq> b"
    using that fence_accepts_antisym [of a b] unfolding writeback_accepted_iff by blast
  show "wd_fence (writeback_decision a b) = b" by (simp add: writeback_decision_def)
  show "wd_reason (writeback_decision a b) = None \<longleftrightarrow> wd_accepted (writeback_decision a b)"
    by (simp add: writeback_decision_def)
qed

definition demo_fence :: "int \<Rightarrow> Fence" where
  "demo_fence n = \<lparr>f_boot_id = ''boot'', f_model_id = ''m'', f_generation = 1, f_operation_id = ''op'',
     f_execution_id = Some ''e1'', f_attempt = Some n\<rparr>"

theorem writeback_is_partial_order_witness:
  "wd_accepted (writeback_decision (demo_fence 1) (demo_fence 3)) \<and> \<not> wd_accepted (writeback_decision (demo_fence 3) (demo_fence 1))"
  using writeback_is_partial_order [of "demo_fence 1" "demo_fence 2" "demo_fence 3"]
    writeback_is_partial_order [of "demo_fence 1" "demo_fence 3" "demo_fence 3"]
  by (simp add: writeback_decision_def demo_fence_def)

section \<open>What the parsers accept\<close>

definition text_ok :: "string \<Rightarrow> bool" where
  "text_ok s \<longleftrightarrow> s \<noteq> [] \<and> CHR 0x00 \<notin> set s"

lemma req_Inr [simp, json_simps]: "req d k = Inr v \<longleftrightarrow> dget d k = Some v"
  by (auto simp: req_def split: option.splits)

lemma text_value_Inr [simp, json_simps]: "text_value v = Inr s \<longleftrightarrow> v = JStr s \<and> text_ok s"
  by (auto simp: text_value_def check_utf8_text_def text_ok_def split: json.splits)

lemma text_field_Inr [simp, json_simps]: "text_field d k = Inr s \<longleftrightarrow> dget d k = Some (JStr s) \<and> text_ok s"
  by (auto simp: text_field_def rbind_eq_Inr_iff)

lemma bounded_text_field_Inr [simp, json_simps]:
  "bounded_text_field d k n = Inr s \<longleftrightarrow> dget d k = Some (JStr s) \<and> text_ok s \<and> utf8_length s \<le> n"
  by (auto simp: bounded_text_field_def bounded_text_def rbind_eq_Inr_iff not_less)

lemma id_char: "lower c \<or> digit c \<or> c \<in> set ''._-'' \<Longrightarrow> c \<noteq> CHR 0x00"
  by (auto simp: lower_def digit_def)

lemma id_ok_text: "id_ok s \<Longrightarrow> text_ok s"
proof (cases s rule: list.exhaust)
  case (Cons c rest)
  assume "id_ok s"
  then have "\<forall>x \<in> set s. lower x \<or> digit x \<or> x \<in> set ''._-''"
    unfolding Cons id_ok_def by (cases rest rule: rev_cases) (auto simp: list_all_iff)
  then show ?thesis using id_char unfolding Cons text_ok_def by (metis list.discI)
qed (simp add: id_ok_def)

lemma id_field_Inr [simp, json_simps]: "id_field d k = Inr s \<longleftrightarrow> dget d k = Some (JStr s) \<and> id_ok s"
  using id_ok_text by (auto simp: id_field_def rbind_eq_Inr_iff)

lemma int_field_Inr [simp, json_simps]:
  "int_field d k lo hi = Inr v \<longleftrightarrow> dget d k = Some (JInt v) \<and> (\<forall>m. lo = Some m \<longrightarrow> m \<le> v) \<and> (\<forall>m. hi = Some m \<longrightarrow> v \<le> m)"
  by (auto simp: int_field_def rbind_eq_Inr_iff jget_def split: option.splits)

lemma enum_field_Inr [simp, json_simps]:
  "enum_field d k allowed = Inr s \<longleftrightarrow> dget d k = Some (JStr s) \<and> text_ok s \<and> s \<in> set allowed"
  by (auto simp: enum_field_def rbind_eq_Inr_iff)

lemma utc_timestamp_field_Inr [simp, json_simps]:
  "utc_timestamp_field utc_ok d k = Inr s \<longleftrightarrow> dget d k = Some (JStr s) \<and> text_ok s \<and> utc_ok s"
  by (auto simp: utc_timestamp_field_def rbind_eq_Inr_iff)

definition error_ok :: "ErrorDetail \<Rightarrow> bool" where
  "error_ok e \<longleftrightarrow> error_known (e_code e) \<and> text_ok (e_message e) \<and> e_retryable e = retryable_code (e_code e)"

definition blob_ok :: "BlobRef \<Rightarrow> bool" where
  "blob_ok b \<longleftrightarrow> id_ok (b_blob_id b) \<and> text_ok (b_owner b) \<and> sha256_ok (b_sha256 b) \<and> 1 \<le> b_size_bytes b
     \<and> b_size_bytes b \<le> MAX_BLOB_BYTES \<and> text_ok (b_media_type b) \<and> media_type_ok (b_media_type b)"

definition fence_ok :: "Fence \<Rightarrow> bool" where
  "fence_ok f \<longleftrightarrow> text_ok (f_boot_id f) \<and> id_ok (f_model_id f) \<and> 1 \<le> f_generation f \<and> id_ok (f_operation_id f)
     \<and> (case (f_execution_id f, f_attempt f) of
          (None, None) \<Rightarrow> True | (Some e, Some n) \<Rightarrow> id_ok e \<and> 1 \<le> n | _ \<Rightarrow> False)"

definition instance_ok :: "(string \<Rightarrow> bool) \<Rightarrow> InstanceIdentity \<Rightarrow> bool" where
  "instance_ok utc_ok i \<longleftrightarrow> text_ok (i_container_id i) \<and> text_ok (i_started_at i) \<and> utc_ok (i_started_at i)
     \<and> id_ok (i_deployment_id i) \<and> id_ok (i_model_id i) \<and> id_ok (i_runtime_id i) \<and> sha256_ok (i_candidate_digest i)
     \<and> text_ok (i_image_digest i) \<and> image_digest_ok (i_image_digest i)"

text \<open>The evidence rules of the module's docstring.\<close>

definition evidence_ok :: "string \<Rightarrow> bool option \<Rightarrow> BlobRef option \<Rightarrow> ErrorDetail option \<Rightarrow> bool" where
  "evidence_ok state quiescent result error \<longleftrightarrow>
     (if state \<in> set EXECUTION_TERMINAL_STATES
      then quiescent = Some True \<and> (result \<noteq> None \<longleftrightarrow> state = ''succeeded'') \<and> (error = None \<longleftrightarrow> state = ''succeeded'')
      else quiescent = None \<and> result = None \<and> error = None)"

definition view_ok :: "(string \<Rightarrow> bool) \<Rightarrow> ExecutionView \<Rightarrow> bool" where
  "view_ok utc_ok v \<longleftrightarrow>
     id_ok (ev_execution_id v) \<and> ev_state v \<in> set EXECUTION_STATES \<and> ev_dispatch_state v \<in> set DISPATCH_STATES
     \<and> fence_ok (ev_fence v) \<and> f_execution_id (ev_fence v) = Some (ev_execution_id v)
     \<and> (ev_instance v \<noteq> None \<longleftrightarrow> ev_dispatch_state v = ''dispatched'') \<and> pred_option (instance_ok utc_ok) (ev_instance v)
     \<and> pred_option blob_ok (ev_result v) \<and> pred_option error_ok (ev_error v)
     \<and> evidence_ok (ev_state v) (ev_compute_quiescent v) (ev_result v) (ev_error v)"

definition blob_json :: "BlobRef \<Rightarrow> json" where
  "blob_json b = JObj [(''blob_id'', JStr (b_blob_id b)), (''owner'', JStr (b_owner b)), (''sha256'', JStr (b_sha256 b)),
     (''size_bytes'', JInt (b_size_bytes b)), (''media_type'', JStr (b_media_type b))]"

definition instance_json :: "InstanceIdentity \<Rightarrow> json" where
  "instance_json i = JObj [(''container_id'', JStr (i_container_id i)), (''started_at'', JStr (i_started_at i)),
     (''deployment_id'', JStr (i_deployment_id i)), (''model_id'', JStr (i_model_id i)), (''runtime_id'', JStr (i_runtime_id i)),
     (''candidate_digest'', JStr (i_candidate_digest i)), (''image_digest'', JStr (i_image_digest i))]"

definition view_json :: "ExecutionView \<Rightarrow> json" where
  "view_json v = JObj [(''execution_id'', JStr (ev_execution_id v)), (''state'', JStr (ev_state v)),
     (''dispatch_state'', JStr (ev_dispatch_state v)), (''compute_quiescent'', null_or JBool (ev_compute_quiescent v)),
     (''result'', null_or blob_json (ev_result v)), (''error'', null_or error_detail_json (ev_error v)),
     (''instance'', null_or instance_json (ev_instance v)), (''fence'', fence_document (ev_fence v))]"

lemma parse_error_detail_sound: "parse_error_detail j = Inr e \<Longrightarrow> error_ok e"
  by (auto simp: parse_error_detail_def error_ok_def split: json.splits)

lemma error_known_text: "error_known c \<Longrightarrow> text_ok c"
  by (auto simp: error_known_def ERROR_TABLE_def text_ok_def)

lemma parse_error_detail_json: "error_ok e \<Longrightarrow> parse_error_detail (error_detail_json e) = Inr e"
  using error_known_text [of "e_code e"]
  by (auto simp: parse_error_detail_def error_detail_json_def error_ok_def rbind_eq_Inr_iff ERROR_DETAIL_KEYS_def)

lemma parse_blob_ref_sound: "parse_blob_ref j = Inr b \<Longrightarrow> blob_ok b"
  by (auto simp: parse_blob_ref_def blob_ok_def)

lemma parse_blob_ref_json: "blob_ok b \<Longrightarrow> parse_blob_ref (blob_json b) = Inr b"
  by (auto simp: parse_blob_ref_def blob_json_def blob_ok_def rbind_eq_Inr_iff BLOB_REF_KEYS_def)

lemma parse_fence_sound: "parse_fence j = Inr f \<Longrightarrow> fence_ok f"
  by (auto simp: parse_fence_def fence_ok_def split: if_splits json.splits)

lemma parse_fence_json: "fence_ok f \<Longrightarrow> parse_fence (fence_document f) = Inr f"
  by (cases f) (auto simp: parse_fence_def fence_document_def fence_ok_def rbind_eq_Inr_iff FENCE_KEYS_def null_or_def
      split: option.splits)

lemma parse_instance_identity_sound: "parse_instance_identity utc_ok j = Inr i \<Longrightarrow> instance_ok utc_ok i"
  by (auto simp: parse_instance_identity_def instance_ok_def)

lemma parse_instance_identity_json: "instance_ok utc_ok i \<Longrightarrow> parse_instance_identity utc_ok (instance_json i) = Inr i"
  by (auto simp: parse_instance_identity_def instance_json_def instance_ok_def rbind_eq_Inr_iff INSTANCE_KEYS_def)

lemma opt_parse_sound:
  "opt_parse p j = Inr r \<Longrightarrow> (\<And>j x. p j = Inr x \<Longrightarrow> ok x) \<Longrightarrow> pred_option ok r"
  by (auto simp: opt_parse_def split: if_splits)

lemma opt_parse_json:
  "pred_option ok r \<Longrightarrow> (\<And>x. ok x \<Longrightarrow> p (f x) = Inr x) \<Longrightarrow> (\<And>x. f x \<noteq> JNull) \<Longrightarrow> opt_parse p (null_or f r) = Inr r"
  by (cases r) (simp_all add: opt_parse_def null_or_def)

lemma json_not_null: "blob_json b \<noteq> JNull" "error_detail_json e \<noteq> JNull" "instance_json i \<noteq> JNull"
  by (simp_all add: blob_json_def error_detail_json_def instance_json_def)

lemma check_terminal_evidence_Inr:
  "check_terminal_evidence state q result error = Inr r \<longleftrightarrow> q = null_or JBool r \<and> evidence_ok state r result error"
  by (cases r) (auto simp: check_terminal_evidence_def evidence_ok_def rbind_eq_Inr_iff null_or_def)

lemma state_text: "s \<in> set EXECUTION_STATES \<Longrightarrow> text_ok s" "s \<in> set DISPATCH_STATES \<Longrightarrow> text_ok s"
  by (auto simp: EXECUTION_STATES_def DISPATCH_STATES_def text_ok_def)

lemma parse_execution_view_sound:
  assumes "parse_execution_view utc_ok j = Inr v"
  shows "view_ok utc_ok v"
proof -
  from assms obtain fj ij rj ej q where v: "id_ok (ev_execution_id v)" "ev_state v \<in> set EXECUTION_STATES"
    "ev_dispatch_state v \<in> set DISPATCH_STATES" "parse_fence fj = Inr (ev_fence v)"
    "f_execution_id (ev_fence v) = Some (ev_execution_id v)"
    "opt_parse (parse_instance_identity utc_ok) ij = Inr (ev_instance v)"
    "ev_instance v \<noteq> None \<longleftrightarrow> ev_dispatch_state v = ''dispatched''"
    "opt_parse parse_blob_ref rj = Inr (ev_result v)" "opt_parse parse_error_detail ej = Inr (ev_error v)"
    "check_terminal_evidence (ev_state v) q (ev_result v) (ev_error v) = Inr (ev_compute_quiescent v)"
    unfolding parse_execution_view_def rbind_eq_Inr_iff by (force split: if_splits simp: rbind_eq_Inr_iff)
  have "pred_option (instance_ok utc_ok) (ev_instance v)"
    by (rule opt_parse_sound [OF v(6)]) (rule parse_instance_identity_sound)
  moreover have "pred_option blob_ok (ev_result v)" by (rule opt_parse_sound [OF v(8)]) (rule parse_blob_ref_sound)
  moreover have "pred_option error_ok (ev_error v)" by (rule opt_parse_sound [OF v(9)]) (rule parse_error_detail_sound)
  ultimately show ?thesis
    using v(1-3,5,7) parse_fence_sound [OF v(4)] v(10) unfolding view_ok_def check_terminal_evidence_Inr by blast
qed

lemma parse_execution_view_json:
  assumes ok: "view_ok utc_ok v"
  shows "parse_execution_view utc_ok (view_json v) = Inr v"
proof -
  note ok' = ok [unfolded view_ok_def]
  have fence: "parse_fence (fence_document (ev_fence v)) = Inr (ev_fence v)" using ok' by (intro parse_fence_json) blast
  have att: "f_attempt (ev_fence v) \<noteq> None" using ok' by (auto simp: fence_ok_def split: option.splits)
  have inst: "opt_parse (parse_instance_identity utc_ok) (null_or instance_json (ev_instance v)) = Inr (ev_instance v)"
    using ok' by (intro opt_parse_json [where ok = "instance_ok utc_ok"] parse_instance_identity_json json_not_null) blast
  have res: "opt_parse parse_blob_ref (null_or blob_json (ev_result v)) = Inr (ev_result v)"
    using ok' by (intro opt_parse_json [where ok = blob_ok] parse_blob_ref_json json_not_null) blast
  have err: "opt_parse parse_error_detail (null_or error_detail_json (ev_error v)) = Inr (ev_error v)"
    using ok' by (intro opt_parse_json [where ok = error_ok] parse_error_detail_json json_not_null) blast
  have ev: "check_terminal_evidence (ev_state v) (null_or JBool (ev_compute_quiescent v)) (ev_result v) (ev_error v)
      = Inr (ev_compute_quiescent v)"
    using ok' unfolding check_terminal_evidence_Inr by blast
  show ?thesis
    using ok' att state_text [of "ev_state v"] state_text [of "ev_dispatch_state v"]
    by (simp add: parse_execution_view_def view_json_def rbind_eq_Inr_iff EXECUTION_VIEW_KEYS_def fence inst res err ev)
qed

text \<open>
  C15. The execution-view parser accepts exactly the documented views: some document parses to a
  view if and only if its ids, fence, instance and blob are well formed, the fence names the
  execution, an instance is present exactly when it was dispatched, and its evidence fits its state
  (a terminal state is quiescent and has a result exactly when it succeeded and an error otherwise; any
  other state has none of the three).  The document written from a view parses back to it.
\<close>

theorem execution_view_parse_exact:
  "((\<exists>j. parse_execution_view utc_ok j = Inr v) \<longleftrightarrow> view_ok utc_ok v)
   \<and> (parse_execution_view utc_ok (view_json v) = Inr v \<longleftrightarrow> view_ok utc_ok v)"
  using parse_execution_view_sound parse_execution_view_json by blast

section \<open>Error documents and parameters\<close>

lemma bounded_text_Inr [simp, json_simps]: "bounded_text v n = Inr s \<longleftrightarrow> v = JStr s \<and> text_ok s \<and> utf8_length s \<le> n"
  by (auto simp: bounded_text_def rbind_eq_Inr_iff not_less)

lemma error_document_parses:
  "error_document code message rid = Inr j \<Longrightarrow>
   parse_error_document j = Inr (\<lparr>e_code = code, e_message = message, e_retryable = retryable_code code\<rparr>, rid)"
  by (auto simp: error_document_def parse_error_document_def rbind_eq_Inr_iff parse_error_detail_json error_ok_def)

text \<open>\<^verbatim>\<open>session_not_active\<close> is not a code of the table: no error document can carry it.\<close>

lemma session_not_active_unknown: "\<not> error_known ''session_not_active''"
  by (simp add: error_known_def ERROR_TABLE_def)

text \<open>The value of a parameter is inside its documented range.\<close>

fun rule_accepts :: "RuleKind \<Rightarrow> json \<Rightarrow> bool" where
  "rule_accepts RInteger v = (case v of JInt _ \<Rightarrow> True | _ \<Rightarrow> False)"
| "rule_accepts RNumber v = (case v of JInt n \<Rightarrow> \<bar>n\<bar> < FLOAT_OVERFLOW | JFloat (Some _) \<Rightarrow> True | _ \<Rightarrow> False)"
| "rule_accepts RBoolean v = (case v of JBool _ \<Rightarrow> True | _ \<Rightarrow> False)"
| "rule_accepts RString v = (case v of JStr s \<Rightarrow> text_ok s | _ \<Rightarrow> False)"
| "rule_accepts (RConst c) v = (v = JStr c)"

lemma parse_parameter_value_kept: "parse_parameter_value r v = Inr v' \<Longrightarrow> v' = v \<and> rule_accepts (pa_kind r) v"
  by (cases "pa_kind r") (auto simp: parse_parameter_value_def not_le split: json.splits option.splits if_splits)

lemma parse_rules_kept:
  "parse_rules rules d = Inr ps \<Longrightarrow> distinct (dkeys rules) \<Longrightarrow> dget ps k = (if k \<in> set (dkeys rules) then dget d k else None)"
proof (induction rules arbitrary: ps)
  case (Cons kr rules)
  obtain k' r where kr: "kr = (k', r)" by fastforce
  have fresh: "k' \<notin> set (dkeys rules)" "distinct (dkeys rules)" using Cons.prems(2) by (simp_all add: kr)
  show ?case
  proof (cases "dget d k'")
    case None
    then have "parse_rules rules d = Inr ps" using Cons.prems(1) by (simp add: kr)
    from Cons.IH [OF this fresh(2)] None fresh(1) show ?thesis by (simp add: kr)
  next
    case (Some v)
    with Cons.prems(1) obtain rest where rest: "parse_rules rules d = Inr rest" "ps = (k', v) # rest"
      by (auto simp: kr dest!: parse_parameter_value_kept)
    from Cons.IH [OF rest(1) fresh(2)] rest(2) Some show ?thesis by (simp add: kr)
  qed
qed simp

text \<open>
  An integer too large for a double leaves the parser as an OverflowError of \<^verbatim>\<open>math.isfinite\<close>,
  not as the ContractError of every other refusal.
\<close>

lemma number_parameter_overflows:
  "parse_parameters flt ''chat'' (JObj [(''temperature'', JInt FLOAT_OVERFLOW)]) = Inl (OverflowError ''int too large to convert to float'')"
proof -
  have "\<bar>FLOAT_OVERFLOW\<bar> = FLOAT_OVERFLOW" by (simp add: FLOAT_OVERFLOW_def)
  then show ?thesis
    by (simp add: parse_parameters_def as_mapping_def dlookup_def PARAMETER_RULES_def CHAT_PARAMETERS_def param_rule_def
        parse_parameter_value_def raise_if_def)
qed

end
