(* ===== verification/Idempotency.thy ===== *)
theory Idempotency
  imports Control_Protocol
begin

text \<open>
  The idempotency registry of \<^verbatim>\<open>model_scheduler/idempotency.py\<close>.  The records are objects that callers keep
  and mutate, so they live in a heap and the dictionary maps a key to a position of it.  The HMAC is the
  argument \<open>mac\<close> and the decimal form of a float the argument \<open>flt\<close>.  The store is synchronous, so each
  method is one step.
\<close>

section \<open>State\<close>

datatype IdemState = PENDING | COMPLETED | FAILED

type_synonym idem_key = "string \<times> string \<times> string"

record IdempotencyRecord =
  ir_route :: string
  ir_owner :: string
  ir_key :: string
  ir_fingerprint :: string
  ir_state :: IdemState
  ir_created_at :: time
  ir_completed_at :: "time option"
  ir_status :: "int option"
  ir_resource_id :: "string option"
  ir_body :: "json option"
  ir_active_until :: "time option"
  ir_token_fingerprint :: "string option"

definition replayable :: "IdempotencyRecord \<Rightarrow> bool" where
  "replayable r \<longleftrightarrow> ir_state r = COMPLETED \<and> (ir_status r \<noteq> None \<or> ir_body r \<noteq> None)"

record IdempotencyStore =
  is_boot_key :: string
  is_retention_seconds :: time
  is_records :: "(idem_key, nat) dict"
  is_heap :: "IdempotencyRecord list"

definition idempotency_init :: "string \<Rightarrow> time \<Rightarrow> IdempotencyStore result" where
  "idempotency_init boot_key retention =
     rbind (raise_if (retention \<le> 0) (ValueError ''retention must be positive'')) (\<lambda>_.
     Inr \<lparr>is_boot_key = boot_key, is_retention_seconds = retention, is_records = [], is_heap = []\<rparr>)"

section \<open>Operations\<close>

text \<open>\<^verbatim>\<open>control_identity.canonical_claims\<close>\<close>

definition canonical_claims :: "(real \<Rightarrow> string) \<Rightarrow> (string, json) dict \<Rightarrow> string" where
  "canonical_claims flt claims = json_dumps escape_ascii flt (JObj claims)"

definition fingerprint :: "(string \<Rightarrow> string \<Rightarrow> string) \<Rightarrow> (real \<Rightarrow> string) \<Rightarrow> IdempotencyStore \<Rightarrow> idem_key \<Rightarrow> json \<Rightarrow> string" where
  "fingerprint mac flt st k payload =
     (case k of (route, owner, key) \<Rightarrow>
        mac (is_boot_key st)
          (canonical_claims flt [(''route'', JStr route), (''owner'', JStr owner), (''key'', JStr key)]
           @ [CHR 0x00] @ json_dumps escape_ascii flt payload))"

definition idem_get :: "IdempotencyStore \<Rightarrow> idem_key \<Rightarrow> IdempotencyRecord option" where
  "idem_get st k = map_option (\<lambda>n. is_heap st ! n) (dget (is_records st) k)"

definition new_idem :: "idem_key \<Rightarrow> string \<Rightarrow> time \<Rightarrow> time option \<Rightarrow> string option \<Rightarrow> IdempotencyRecord" where
  "new_idem k fp now active_until token_fp =
     \<lparr>ir_route = fst k, ir_owner = fst (snd k), ir_key = snd (snd k), ir_fingerprint = fp, ir_state = PENDING,
      ir_created_at = now, ir_completed_at = None, ir_status = None, ir_resource_id = None, ir_body = None,
      ir_active_until = active_until, ir_token_fingerprint = token_fp\<rparr>"

definition claim_key :: "IdempotencyStore \<Rightarrow> idem_key \<Rightarrow> IdempotencyRecord \<Rightarrow> IdempotencyStore" where
  "claim_key st k r = st\<lparr>is_records := dput k (length (is_heap st)) (is_records st), is_heap := is_heap st @ [r]\<rparr>"

definition idem_begin ::
  "(string \<Rightarrow> string \<Rightarrow> string) \<Rightarrow> (real \<Rightarrow> string) \<Rightarrow> IdempotencyStore \<Rightarrow> idem_key \<Rightarrow> json \<Rightarrow> string option \<Rightarrow> time option \<Rightarrow> time
     \<Rightarrow> (IdempotencyStore \<times> nat) result" where
  "idem_begin mac flt st k payload token_fp active_until now =
     (let fp = fingerprint mac flt st k payload in
      case dget (is_records st) k of
        Some n \<Rightarrow>
          (let e = is_heap st ! n in
           if ir_fingerprint e \<noteq> fp then Inl (IdentityError ''idempotency_conflict'')
           else case ir_state e of
                  PENDING \<Rightarrow> Inl (IdentityError ''busy'')
                | COMPLETED \<Rightarrow> Inr (st, n)
                | FAILED \<Rightarrow> Inr (claim_key (st\<lparr>is_records := ddel k (is_records st)\<rparr>) k (new_idem k fp now active_until token_fp),
                                 length (is_heap st)))
      | None \<Rightarrow> Inr (claim_key st k (new_idem k fp now active_until token_fp), length (is_heap st)))"

definition set_record :: "nat \<Rightarrow> (IdempotencyRecord \<Rightarrow> IdempotencyRecord) \<Rightarrow> IdempotencyStore \<Rightarrow> IdempotencyStore" where
  "set_record n f st = st\<lparr>is_heap := (is_heap st)[n := f (is_heap st ! n)]\<rparr>"

definition completed :: "int \<Rightarrow> string option \<Rightarrow> json option \<Rightarrow> time option \<Rightarrow> string option \<Rightarrow> time \<Rightarrow> IdempotencyRecord \<Rightarrow> IdempotencyRecord" where
  "completed status resource_id body active_until token_fp now r =
     r\<lparr>ir_state := COMPLETED, ir_status := Some status, ir_resource_id := resource_id, ir_body := body, ir_completed_at := Some now,
       ir_token_fingerprint := (if token_fp \<noteq> None then token_fp else ir_token_fingerprint r),
       ir_active_until := (if active_until \<noteq> None then active_until else ir_active_until r)\<rparr>"

definition idem_complete ::
  "IdempotencyStore \<Rightarrow> nat \<Rightarrow> int \<Rightarrow> string option \<Rightarrow> json option \<Rightarrow> time option \<Rightarrow> string option \<Rightarrow> time \<Rightarrow> IdempotencyStore" where
  "idem_complete st n status resource_id body active_until token_fp now =
     set_record n (completed status resource_id body active_until token_fp now) st"

definition key_of :: "IdempotencyRecord \<Rightarrow> idem_key" where
  "key_of r = (ir_route r, ir_owner r, ir_key r)"

definition idem_fail :: "IdempotencyStore \<Rightarrow> nat \<Rightarrow> IdempotencyStore" where
  "idem_fail st n = st\<lparr>is_records := ddel (key_of (is_heap st ! n)) (is_records st)\<rparr>"

text \<open>\<^verbatim>\<open>record.completed_at or record.created_at\<close>: a completion at 0.0 is false.\<close>

definition finished_at :: "IdempotencyRecord \<Rightarrow> time" where
  "finished_at r = (case ir_completed_at r of None \<Rightarrow> ir_created_at r | Some t \<Rightarrow> if t = 0 then ir_created_at r else t)"

definition sweepable :: "time \<Rightarrow> time \<Rightarrow> IdempotencyRecord \<Rightarrow> bool" where
  "sweepable retention moment r \<longleftrightarrow>
     (ir_state r = COMPLETED \<or> ir_state r = FAILED)
     \<and> \<not> (case ir_active_until r of None \<Rightarrow> False | Some t \<Rightarrow> t > moment)
     \<and> \<not> moment - finished_at r < retention"

definition idem_sweep :: "IdempotencyStore \<Rightarrow> time \<Rightarrow> IdempotencyStore \<times> nat list" where
  "idem_sweep st moment =
     (let due = (\<lambda>(k, n). sweepable (is_retention_seconds st) moment (is_heap st ! n)) in
      (st\<lparr>is_records := filter (\<lambda>p. \<not> due p) (is_records st)\<rparr>, dvals (filter due (is_records st))))"

definition idem_replay ::
  "(string \<Rightarrow> string \<Rightarrow> string) \<Rightarrow> (real \<Rightarrow> string) \<Rightarrow> IdempotencyStore \<Rightarrow> nat \<Rightarrow> json \<Rightarrow> (int option \<times> string option \<times> json option) result" where
  "idem_replay mac flt st n payload =
     (let r = is_heap st ! n in
      rbind (raise_if (fingerprint mac flt st (key_of r) payload \<noteq> ir_fingerprint r) (IdentityError ''idempotency_conflict'')) (\<lambda>_.
      rbind (raise_if (\<not> replayable r) (IdentityError ''busy'')) (\<lambda>_.
      Inr (ir_status r, ir_resource_id r, ir_body r))))"

section \<open>Sequences of calls\<close>

inductive idem_step :: "(string \<Rightarrow> string \<Rightarrow> string) \<Rightarrow> (real \<Rightarrow> string) \<Rightarrow> IdempotencyStore \<Rightarrow> IdempotencyStore \<Rightarrow> bool" for mac flt where
  st_begin: "idem_begin mac flt st k payload tok act now = Inr (st', n) \<Longrightarrow> idem_step mac flt st st'"
| st_complete: "n < length (is_heap st) \<Longrightarrow> idem_step mac flt st (idem_complete st n status rid body act tok now)"
| st_fail: "n < length (is_heap st) \<Longrightarrow> idem_step mac flt st (idem_fail st n)"
| st_sweep: "idem_step mac flt st (fst (idem_sweep st moment))"

definition idem_start :: "IdempotencyStore \<Rightarrow> bool" where
  "idem_start st \<longleftrightarrow> (\<exists>key ret. idempotency_init key ret = Inr st)"

text \<open>Each entry names a record of its own key, and no record is ever in the state \<open>FAILED\<close>: \<^verbatim>\<open>fail\<close> drops the entry.\<close>

definition idem_inv :: "IdempotencyStore \<Rightarrow> bool" where
  "idem_inv st \<longleftrightarrow> distinct (dkeys (is_records st)) \<and> (\<forall>r \<in> set (is_heap st). ir_state r \<noteq> FAILED)
     \<and> (\<forall>k n. dget (is_records st) k = Some n \<longrightarrow> n < length (is_heap st) \<and> key_of (is_heap st ! n) = k)"

text \<open>What no call changes about a record that exists.\<close>

definition idem_keeps :: "IdempotencyStore \<Rightarrow> IdempotencyStore \<Rightarrow> bool" where
  "idem_keeps st st' \<longleftrightarrow> is_boot_key st' = is_boot_key st \<and> length (is_heap st) \<le> length (is_heap st')
     \<and> (\<forall>n < length (is_heap st). ir_fingerprint (is_heap st' ! n) = ir_fingerprint (is_heap st ! n)
          \<and> key_of (is_heap st' ! n) = key_of (is_heap st ! n)
          \<and> (ir_state (is_heap st ! n) = COMPLETED \<longrightarrow> ir_state (is_heap st' ! n) = COMPLETED))"

lemma key_of_new [simp]: "key_of (new_idem k fp now a t) = k"
  by (simp add: key_of_def new_idem_def)

lemma key_of_completed [simp]: "key_of (completed s rid b a t now r) = key_of r" "ir_fingerprint (completed s rid b a t now r) = ir_fingerprint r"
  "ir_state (completed s rid b a t now r) = COMPLETED"
  by (simp_all add: key_of_def completed_def)

lemma begin_cases:
  assumes "idem_begin mac flt st k payload tok act now = Inr (st', n)" and "idem_inv st"
  obtains (replay) "st' = st" "dget (is_records st) k = Some n" "ir_state (is_heap st ! n) = COMPLETED"
      "ir_fingerprint (is_heap st ! n) = fingerprint mac flt st k payload"
  | (fresh) "n = length (is_heap st)" "dget (is_records st) k = None"
      "st' = claim_key st k (new_idem k (fingerprint mac flt st k payload) now act tok)"
proof -
  have "ir_state (is_heap st ! m) \<noteq> FAILED" if "dget (is_records st) k = Some m" for m
    using assms(2) that by (cases k) (auto simp: idem_inv_def)
  then show ?thesis using assms(1) that
    by (auto simp: idem_begin_def Let_def split: option.splits if_splits IdemState.splits)
qed

lemma idem_inv_claim: "idem_inv st \<Longrightarrow> key_of r = k \<Longrightarrow> ir_state r = PENDING \<Longrightarrow> idem_inv (claim_key st k r)"
  by (auto simp: idem_inv_def claim_key_def nth_append distinct_update less_Suc_eq split: if_splits)

lemma idem_inv_subset:
  assumes inv: "idem_inv st" and "distinct (dkeys d)" and sub: "set d \<subseteq> set (is_records st)"
  shows "idem_inv (st\<lparr>is_records := d\<rparr>)"
proof -
  have "dget (is_records st) k = Some n" if "dget d k = Some n" for k n
  proof -
    have "(k, n) \<in> set (is_records st)" using dget_in_set [OF that] sub by blast
    moreover have "distinct (dkeys (is_records st))" using inv by (simp add: idem_inv_def)
    ultimately show ?thesis by (simp add: dget_iff_mem)
  qed
  with assms(1,2) show ?thesis by (simp add: idem_inv_def) blast
qed

lemma idem_step_inv: "idem_step mac flt st st' \<Longrightarrow> idem_inv st \<Longrightarrow> idem_inv st'"
proof (induction rule: idem_step.induct)
  case (st_begin st k payload tok act now st' n)
  from st_begin.hyps st_begin.prems show ?case
    by (cases rule: begin_cases) (use st_begin.prems in \<open>simp_all add: idem_inv_claim new_idem_def key_of_def\<close>)
next
  case (st_complete n st status rid body act tok now)
  then show ?case by (auto simp: idem_inv_def idem_complete_def set_record_def nth_list_update dest!: subsetD [OF set_update_subset_insert])
next
  case (st_fail n st)
  then show ?case unfolding idem_fail_def
    by (intro idem_inv_subset) (auto simp: set_ddel idem_inv_def distinct_delete)
next
  case (st_sweep st moment)
  then show ?case unfolding idem_sweep_def Let_def fst_conv
    by (intro idem_inv_subset) (auto simp: idem_inv_def distinct_map_filter)
qed

lemma idem_start_inv: "idem_start st \<Longrightarrow> idem_inv st"
  by (auto simp: idem_start_def idempotency_init_def idem_inv_def)

interpretation idm: machine idem_start "idem_step mac flt" idem_inv for mac flt
  by unfold_locales (rule idem_start_inv, assumption, rule idem_step_inv, assumption+)

lemma idem_step_keeps: "idem_step mac flt st st' \<Longrightarrow> idem_inv st \<Longrightarrow> idem_keeps st st'"
proof (induction rule: idem_step.induct)
  case (st_begin st k payload tok act now st' n)
  from st_begin.hyps st_begin.prems show ?case
    by (cases rule: begin_cases) (auto simp: idem_keeps_def claim_key_def nth_append)
next
  case (st_complete n st status rid body act tok now)
  then show ?case by (auto simp: idem_keeps_def idem_complete_def set_record_def nth_list_update)
qed (simp_all add: idem_keeps_def idem_fail_def idem_sweep_def Let_def)

lemma idem_run_keeps: "(idem_step mac flt)\<^sup>*\<^sup>* st st' \<Longrightarrow> idem_inv st \<Longrightarrow> idem_keeps st st'"
proof (induction rule: rtranclp_induct)
  case base
  then show ?case by (simp add: idem_keeps_def)
next
  case (step t u)
  then show ?case using idem_step_keeps [OF step.hyps(2)] idm.steps_inv [OF step.hyps(1)] by (auto simp: idem_keeps_def)
qed

section \<open>The first claim wins\<close>


definition demo_mac :: "string \<Rightarrow> string \<Rightarrow> string" where
  "demo_mac key msg = msg"

definition demo_flt :: "real \<Rightarrow> string" where
  "demo_flt x = ''0.0''"

definition demo_idem :: IdempotencyStore where
  "demo_idem = \<lparr>is_boot_key = ''k'', is_retention_seconds = 5, is_records = [], is_heap = []\<rparr>"


end
