(* ===== verification/Blob_Metadata.thy ===== *)
theory Blob_Metadata
  imports Prelude "HOL-Library.List_Lexorder" "HOL-Library.Char_ord"
begin

text \<open>
  The metadata database of \<^verbatim>\<open>model_scheduler/blob_metadata.py\<close>.  Each table is a dictionary by its
  primary key, in insertion order, and each method is the transaction it runs: a method that raises
  rolls back and leaves the tables as they were.  The free space of the disk is an argument, because
  the callback is injected.  The connection, its lock and the schema text are not modelled.
\<close>

section \<open>Tables\<close>

datatype BlobState = RESERVED | STAGING | PUBLISHED | DELETED | CORRUPT

datatype JournalStep = STEP_STAGING | STEP_PENDING | STEP_PUBLISHED

record BlobRecord =
  br_blob_id :: string
  br_owner :: string
  br_sha256 :: "string option"
  br_size_bytes :: int
  br_media_type :: string
  br_state :: BlobState
  br_created_at :: time
  br_expires_at :: "time option"
  br_path :: string

record JournalEntry =
  je_blob_id :: string
  je_owner :: string
  je_step :: JournalStep
  je_sha256 :: "string option"
  je_size_bytes :: int
  je_created_at :: time

record OwnerUsage =
  ou_published_bytes :: int
  ou_staging_bytes :: int
  ou_reserved_bytes :: int

definition usage_total_bytes :: "OwnerUsage \<Rightarrow> int" where
  "usage_total_bytes u = ou_published_bytes u + ou_staging_bytes u + ou_reserved_bytes u"

record BlobMetadata =
  owner_quota_bytes :: int
  global_quota_bytes :: int
  min_free_bytes :: int
  retention_seconds :: time
  tombstone_seconds :: time
  md_rows :: "(string, BlobRecord) dict"
  md_leases :: "(string \<times> string) list"
  md_journal :: "(string, JournalEntry) dict"

definition metadata_init :: "int \<Rightarrow> int \<Rightarrow> int \<Rightarrow> time \<Rightarrow> time \<Rightarrow> BlobMetadata result" where
  "metadata_init oq gq mf rs ts =
     rbind (raise_if (min oq (min gq mf) < 0 \<or> rs \<le> 0 \<or> ts \<le> 0) (ValueError ''invalid blob policy'')) (\<lambda>_.
     Inr \<lparr>owner_quota_bytes = oq, global_quota_bytes = gq, min_free_bytes = mf, retention_seconds = rs,
          tombstone_seconds = ts, md_rows = [], md_leases = [], md_journal = []\<rparr>)"

section \<open>Accounting\<close>

definition state_bytes :: "string \<Rightarrow> BlobState \<Rightarrow> (string, BlobRecord) dict \<Rightarrow> int" where
  "state_bytes owner st rows =
     sum_list (map (\<lambda>(k, r). if br_owner r = owner \<and> br_state r = st then br_size_bytes r else 0) rows)"

definition usage :: "BlobMetadata \<Rightarrow> string \<Rightarrow> OwnerUsage" where
  "usage md owner = \<lparr>ou_published_bytes = state_bytes owner PUBLISHED (md_rows md),
     ou_staging_bytes = state_bytes owner STAGING (md_rows md),
     ou_reserved_bytes = state_bytes owner RESERVED (md_rows md)\<rparr>"

definition counted :: "BlobState \<Rightarrow> bool" where
  "counted st \<longleftrightarrow> st = PUBLISHED \<or> st = STAGING \<or> st = RESERVED"

definition global_bytes :: "BlobMetadata \<Rightarrow> int" where
  "global_bytes md = sum_list (map (\<lambda>(k, r). if counted (br_state r) then br_size_bytes r else 0) (md_rows md))"

definition blob_get :: "BlobMetadata \<Rightarrow> string \<Rightarrow> BlobRecord option" where
  "blob_get md bid = dget (md_rows md) bid"

definition require_row :: "BlobMetadata \<Rightarrow> string \<Rightarrow> BlobRecord result" where
  "require_row md bid = (case blob_get md bid of None \<Rightarrow> Inl (QuotaExceeded ''unknown blob'') | Some r \<Rightarrow> Inr r)"

definition new_row :: "string \<Rightarrow> string \<Rightarrow> int \<Rightarrow> string \<Rightarrow> time \<Rightarrow> string \<Rightarrow> BlobRecord" where
  "new_row bid owner sz media now path =
     \<lparr>br_blob_id = bid, br_owner = owner, br_sha256 = None, br_size_bytes = sz, br_media_type = media,
      br_state = RESERVED, br_created_at = now, br_expires_at = None, br_path = path\<rparr>"

definition blob_reserve ::
  "BlobMetadata \<Rightarrow> string \<Rightarrow> string \<Rightarrow> int \<Rightarrow> string \<Rightarrow> time \<Rightarrow> string \<Rightarrow> int option \<Rightarrow> (BlobMetadata \<times> BlobRecord) result" where
  "blob_reserve md bid owner sz media now path disk_free =
     rbind (raise_if (sz \<le> 0) (QuotaExceeded ''a blob must declare a positive size'')) (\<lambda>_.
     rbind (raise_if (blob_get md bid \<noteq> None) (QuotaExceeded ''duplicate blob id'')) (\<lambda>_.
     rbind (raise_if (case disk_free of None \<Rightarrow> False | Some free \<Rightarrow> free < min_free_bytes md + sz)
             (QuotaExceeded ''disk free space is below the reserve'')) (\<lambda>_.
     rbind (raise_if (usage_total_bytes (usage md owner) + sz > owner_quota_bytes md) (QuotaExceeded ''owner quota exceeded'')) (\<lambda>_.
     rbind (raise_if (global_bytes md + sz > global_quota_bytes md) (QuotaExceeded ''global quota exceeded'')) (\<lambda>_.
     Inr (md\<lparr>md_rows := md_rows md @ [(bid, new_row bid owner sz media now path)]\<rparr>,
          new_row bid owner sz media now path))))))"

text \<open>\<^verbatim>\<open>UPDATE blobs SET ... WHERE blob_id = ? AND ...\<close>\<close>

definition upd_row :: "string \<Rightarrow> (BlobRecord \<Rightarrow> bool) \<Rightarrow> (BlobRecord \<Rightarrow> BlobRecord) \<Rightarrow> BlobMetadata \<Rightarrow> BlobMetadata" where
  "upd_row bid cond f md = md\<lparr>md_rows := dmodify bid (\<lambda>r. if cond r then f r else r) (md_rows md)\<rparr>"

definition begin_staging :: "BlobMetadata \<Rightarrow> string \<Rightarrow> (BlobMetadata \<times> BlobRecord) result" where
  "begin_staging md bid =
     (let md' = upd_row bid (\<lambda>r. br_state r = RESERVED) (\<lambda>r. r\<lparr>br_state := STAGING\<rparr>) md
      in rbind (require_row md' bid) (\<lambda>r. Inr (md', r)))"

definition blob_publish ::
  "BlobMetadata \<Rightarrow> string \<Rightarrow> string \<Rightarrow> int \<Rightarrow> time \<Rightarrow> time option \<Rightarrow> (BlobMetadata \<times> BlobRecord) result" where
  "blob_publish md bid sha sz now retention =
     (let ret = (case retention of None \<Rightarrow> retention_seconds md | Some s \<Rightarrow> s);
          md' = upd_row bid (\<lambda>r. br_state r = RESERVED \<or> br_state r = STAGING)
                  (\<lambda>r. r\<lparr>br_state := PUBLISHED, br_sha256 := Some sha, br_size_bytes := sz,
                        br_expires_at := Some (now + ret)\<rparr>) md
      in rbind (require_row md' bid) (\<lambda>r.
         rbind (raise_if (br_state r \<noteq> PUBLISHED) (QuotaExceeded ''the upload was not reserved'')) (\<lambda>_.
         Inr (md', r))))"

definition blob_abort :: "BlobMetadata \<Rightarrow> string \<Rightarrow> BlobMetadata" where
  "blob_abort md bid =
     md\<lparr>md_rows := filter (\<lambda>(k, r). \<not> (k = bid \<and> (br_state r = RESERVED \<or> br_state r = STAGING))) (md_rows md)\<rparr>"

section \<open>Leases, expiry and deletion\<close>

definition blob_leases :: "BlobMetadata \<Rightarrow> string \<Rightarrow> string list" where
  "blob_leases md bid = sort (map snd (filter (\<lambda>(b, h). b = bid) (md_leases md)))"

definition add_lease :: "string \<Rightarrow> string \<Rightarrow> BlobMetadata \<Rightarrow> BlobMetadata" where
  "add_lease bid holder md = md\<lparr>md_leases := List.insert (bid, holder) (md_leases md)\<rparr>"

definition acquire_lease :: "BlobMetadata \<Rightarrow> string \<Rightarrow> string \<Rightarrow> BlobMetadata \<times> bool" where
  "acquire_lease md bid holder =
     (case blob_get md bid of
        None \<Rightarrow> (md, False)
      | Some r \<Rightarrow> if br_state r \<noteq> PUBLISHED then (md, False) else (add_lease bid holder md, True))"

definition release_lease :: "BlobMetadata \<Rightarrow> string \<Rightarrow> string \<Rightarrow> BlobMetadata" where
  "release_lease md bid holder = md\<lparr>md_leases := filter (\<lambda>l. l \<noteq> (bid, holder)) (md_leases md)\<rparr>"

definition tombstone :: "BlobMetadata \<Rightarrow> time \<Rightarrow> string \<Rightarrow> BlobMetadata" where
  "tombstone md now bid =
     upd_row bid (\<lambda>_. True) (\<lambda>r. r\<lparr>br_state := DELETED, br_expires_at := Some (now + tombstone_seconds md)\<rparr>) md"

definition blob_delete :: "BlobMetadata \<Rightarrow> string \<Rightarrow> string \<Rightarrow> time \<Rightarrow> BlobMetadata \<times> string" where
  "blob_delete md bid owner now =
     (case blob_get md bid of
        None \<Rightarrow> (md, ''missing'')
      | Some r \<Rightarrow>
          if br_owner r \<noteq> owner then (md, ''missing'')
          else if br_state r = DELETED then (md, ''deleted'')
          else if blob_leases md bid \<noteq> [] then (md, ''held'')
          else (tombstone md now bid, ''deleted''))"

text \<open>The rows of the first query are read before the loop updates any of them.\<close>

definition due_rows :: "BlobMetadata \<Rightarrow> time \<Rightarrow> BlobRecord list" where
  "due_rows md now = filter (\<lambda>r. br_state r = PUBLISHED \<and> (case br_expires_at r of None \<Rightarrow> False | Some t \<Rightarrow> t \<le> now)) (dvals (md_rows md))"

fun expire_loop :: "BlobMetadata \<Rightarrow> time \<Rightarrow> BlobRecord list \<Rightarrow> BlobMetadata \<times> BlobRecord list" where
  "expire_loop md now [] = (md, [])"
| "expire_loop md now (r # rs) =
     (if blob_leases md (br_blob_id r) \<noteq> [] then expire_loop md now rs
      else let (md', out) = expire_loop (tombstone md now (br_blob_id r)) now rs in (md', r # out))"

definition blob_expire :: "BlobMetadata \<Rightarrow> time \<Rightarrow> BlobMetadata \<times> BlobRecord list" where
  "blob_expire md now = expire_loop md now (due_rows md now)"

definition mark_corrupt :: "BlobMetadata \<Rightarrow> string \<Rightarrow> BlobMetadata" where
  "mark_corrupt md bid = upd_row bid (\<lambda>r. br_state r = PUBLISHED) (\<lambda>r. r\<lparr>br_state := CORRUPT\<rparr>) md"

definition purgeable :: "time \<Rightarrow> BlobRecord \<Rightarrow> bool" where
  "purgeable now r \<longleftrightarrow> (br_state r = DELETED \<or> br_state r = CORRUPT) \<and> (case br_expires_at r of None \<Rightarrow> False | Some t \<Rightarrow> t \<le> now)"

definition purge_tombstones :: "BlobMetadata \<Rightarrow> time \<Rightarrow> BlobMetadata \<times> string list" where
  "purge_tombstones md now =
     (md\<lparr>md_rows := filter (\<lambda>(k, r). \<not> purgeable now r) (md_rows md)\<rparr>,
      dkeys (filter (\<lambda>(k, r). purgeable now r) (md_rows md)))"

definition verify_all :: "BlobMetadata \<Rightarrow> string list" where
  "verify_all md = dkeys (filter (\<lambda>(k, r). br_state r = PUBLISHED) (md_rows md))"

section \<open>Recovery journal\<close>

definition blob_journal ::
  "BlobMetadata \<Rightarrow> string \<Rightarrow> string \<Rightarrow> JournalStep \<Rightarrow> string option \<Rightarrow> int \<Rightarrow> time \<Rightarrow> BlobMetadata" where
  "blob_journal md bid owner step sha sz now =
     md\<lparr>md_journal :=
       (case dget (md_journal md) bid of
          None \<Rightarrow> md_journal md @ [(bid, \<lparr>je_blob_id = bid, je_owner = owner, je_step = step, je_sha256 = sha,
                    je_size_bytes = sz, je_created_at = now\<rparr>)]
        | Some _ \<Rightarrow> dmodify bid (\<lambda>e. e\<lparr>je_step := step, je_sha256 := sha, je_size_bytes := sz, je_created_at := now\<rparr>)
                    (md_journal md))\<rparr>"

definition journal_entry :: "BlobMetadata \<Rightarrow> string \<Rightarrow> JournalEntry option" where
  "journal_entry md bid = dget (md_journal md) bid"

definition clear_journal :: "BlobMetadata \<Rightarrow> string \<Rightarrow> BlobMetadata" where
  "clear_journal md bid = md\<lparr>md_journal := ddel bid (md_journal md)\<rparr>"

definition journal_entries :: "BlobMetadata \<Rightarrow> JournalEntry list" where
  "journal_entries md = sort_key je_created_at (dvals (md_journal md))"

definition unfinished_rows :: "BlobMetadata \<Rightarrow> BlobRecord list" where
  "unfinished_rows md = filter (\<lambda>r. br_state r = RESERVED \<or> br_state r = STAGING) (dvals (md_rows md))"

definition release_missing :: "BlobMetadata \<Rightarrow> string \<Rightarrow> time \<Rightarrow> bool \<Rightarrow> BlobMetadata" where
  "release_missing md bid now keep_tombstone =
     upd_row bid (\<lambda>_. True)
       (\<lambda>r. r\<lparr>br_state := (if keep_tombstone then DELETED else CORRUPT), br_size_bytes := 0,
             br_expires_at := Some (now + tombstone_seconds md)\<rparr>) md"

definition protect_all_published :: "BlobMetadata \<Rightarrow> string \<Rightarrow> BlobMetadata \<times> string list" where
  "protect_all_published md holder = (fold (\<lambda>bid. add_lease bid holder) (verify_all md) md, verify_all md)"

definition release_protection :: "BlobMetadata \<Rightarrow> string \<Rightarrow> BlobMetadata \<times> string list" where
  "release_protection md holder =
     (md\<lparr>md_leases := filter (\<lambda>(b, h). h \<noteq> holder) (md_leases md)\<rparr>, map fst (filter (\<lambda>(b, h). h = holder) (md_leases md)))"

section \<open>Sequences of transactions\<close>

text \<open>
  Any interleaving of the transactions.  A publication names at most the size that its row reserved:
  the store stops receiving at that limit (\<^verbatim>\<open>received > limit\<close> in \<^verbatim>\<open>_receive_and_publish\<close>).
\<close>

inductive md_step :: "BlobMetadata \<Rightarrow> BlobMetadata \<Rightarrow> bool" where
  md_reserve: "blob_reserve md bid owner sz media now path free = Inr (md', r) \<Longrightarrow> md_step md md'"
| md_begin: "begin_staging md bid = Inr (md', r) \<Longrightarrow> md_step md md'"
| md_publish: "blob_publish md bid sha sz now ret = Inr (md', r) \<Longrightarrow> 0 \<le> sz \<Longrightarrow>
    (\<forall>row. blob_get md bid = Some row \<longrightarrow> sz \<le> br_size_bytes row) \<Longrightarrow> md_step md md'"
| md_abort: "md_step md (blob_abort md bid)"
| md_acquire: "md_step md (fst (acquire_lease md bid holder))"
| md_release: "md_step md (release_lease md bid holder)"
| md_delete: "md_step md (fst (blob_delete md bid owner now))"
| md_expire: "md_step md (fst (blob_expire md now))"
| md_corrupt: "md_step md (mark_corrupt md bid)"
| md_purge: "md_step md (fst (purge_tombstones md now))"
| md_journal: "md_step md (blob_journal md bid owner step sha sz now)"
| md_clear: "md_step md (clear_journal md bid)"
| md_missing: "md_step md (release_missing md bid now keep)"
| md_protect: "md_step md (fst (protect_all_published md holder))"
| md_unprotect: "md_step md (fst (release_protection md holder))"

definition md_start :: "BlobMetadata \<Rightarrow> bool" where
  "md_start md \<longleftrightarrow> (\<exists>oq gq mf rs ts. metadata_init oq gq mf rs ts = Inr md)"

section \<open>The invariant\<close>

definition row_ok :: "string \<times> BlobRecord \<Rightarrow> bool" where
  "row_ok p \<longleftrightarrow> br_blob_id (snd p) = fst p \<and> 0 \<le> br_size_bytes (snd p)
     \<and> (br_state (snd p) = PUBLISHED \<longrightarrow> br_sha256 (snd p) \<noteq> None \<and> br_expires_at (snd p) \<noteq> None)"

definition md_inv :: "BlobMetadata \<Rightarrow> bool" where
  "md_inv md \<longleftrightarrow> distinct (dkeys (md_rows md)) \<and> list_all row_ok (md_rows md) \<and> distinct (md_leases md)
     \<and> distinct (dkeys (md_journal md)) \<and> 0 \<le> owner_quota_bytes md \<and> 0 \<le> global_quota_bytes md
     \<and> (\<forall>owner. usage_total_bytes (usage md owner) \<le> owner_quota_bytes md) \<and> global_bytes md \<le> global_quota_bytes md"

text \<open>The bytes of one owner as one sum, like the bytes of all owners.\<close>

definition row_bytes :: "(BlobRecord \<Rightarrow> bool) \<Rightarrow> string \<times> BlobRecord \<Rightarrow> int" where
  "row_bytes P p = (if P (snd p) \<and> counted (br_state (snd p)) then br_size_bytes (snd p) else 0)"

definition bytes_of :: "(BlobRecord \<Rightarrow> bool) \<Rightarrow> (string, BlobRecord) dict \<Rightarrow> int" where
  "bytes_of P rows = sum_list (map (row_bytes P) rows)"

lemma owner_total: "usage_total_bytes (usage md owner) = bytes_of (\<lambda>r. br_owner r = owner) (md_rows md)"
proof -
  have "state_bytes owner PUBLISHED rows + state_bytes owner STAGING rows + state_bytes owner RESERVED rows
      = bytes_of (\<lambda>r. br_owner r = owner) rows" for rows
    by (induction rows) (auto simp: state_bytes_def bytes_of_def row_bytes_def counted_def)
  then show ?thesis by (simp add: usage_total_bytes_def usage_def)
qed

lemma global_total: "global_bytes md = bytes_of (\<lambda>_. True) (md_rows md)"
  by (auto simp: global_bytes_def bytes_of_def row_bytes_def intro!: arg_cong [where f = sum_list])

lemma bytes_of_filter_le: "list_all row_ok rows \<Longrightarrow> bytes_of P (filter Q rows) \<le> bytes_of P rows"
  by (induction rows) (auto simp: bytes_of_def row_bytes_def row_ok_def)

lemma bytes_of_append: "bytes_of P (rows @ rows') = bytes_of P rows + bytes_of P rows'"
  by (simp add: bytes_of_def)

text \<open>An update that keeps the owner, counts no new state and adds no bytes.\<close>

definition shrinks :: "BlobRecord \<Rightarrow> BlobRecord \<Rightarrow> bool" where
  "shrinks r r' \<longleftrightarrow> br_blob_id r' = br_blob_id r \<and> br_owner r' = br_owner r \<and> (counted (br_state r') \<longrightarrow> counted (br_state r))
     \<and> 0 \<le> br_size_bytes r' \<and> (counted (br_state r') \<longrightarrow> br_size_bytes r' \<le> br_size_bytes r)
     \<and> (br_state r' = PUBLISHED \<longrightarrow> br_sha256 r' \<noteq> None \<and> br_expires_at r' \<noteq> None)"

lemma bytes_of_dmodify_le:
  assumes "list_all row_ok rows" and "\<And>r. (bid, r) \<in> set rows \<Longrightarrow> shrinks r (f r)" and "\<And>r r'. br_owner r = br_owner r' \<Longrightarrow> P r = P r'"
  shows "bytes_of P (dmodify bid f rows) \<le> bytes_of P rows"
  using assms(1,2)
proof (induction rows)
  case (Cons p rows)
  obtain k r where p: "p = (k, r)" by (cases p)
  have "row_bytes P (k, if k = bid then f r else r) \<le> row_bytes P (k, r)"
    using Cons.prems assms(3) [of "f r" r] by (auto simp: p row_bytes_def row_ok_def shrinks_def)
  with Cons show ?case by (fastforce simp: p bytes_of_def dmodify_def)
qed (simp add: dmodify_def)

lemma row_ok_dmodify:
  assumes "list_all row_ok rows" and "\<And>r. (bid, r) \<in> set rows \<Longrightarrow> shrinks r (f r)"
  shows "list_all row_ok (dmodify bid f rows)"
  using assms by (induction rows) (auto simp: dmodify_def row_ok_def shrinks_def)

text \<open>Every update and every removal of rows keeps the invariant.\<close>

lemma md_inv_rows:
  assumes inv: "md_inv md" and "distinct (dkeys rows)" "list_all row_ok rows"
    and le: "\<And>P. (\<And>r r'. br_owner r = br_owner r' \<Longrightarrow> P r = P r') \<Longrightarrow> bytes_of P rows \<le> bytes_of P (md_rows md)"
  shows "md_inv (md\<lparr>md_rows := rows\<rparr>)"
proof -
  have "bytes_of (\<lambda>r. br_owner r = owner) rows \<le> owner_quota_bytes md" for owner
    using le [of "\<lambda>r. br_owner r = owner"] inv unfolding md_inv_def owner_total by (metis order_trans)
  moreover have "bytes_of (\<lambda>_. True) rows \<le> global_quota_bytes md"
    using le [of "\<lambda>_. True"] inv unfolding md_inv_def global_total by (metis order_trans)
  ultimately show ?thesis using assms(1-3) by (simp add: md_inv_def owner_total global_total)
qed

lemma md_inv_upd_row:
  assumes inv: "md_inv md" and sh: "\<And>r. blob_get md bid = Some r \<Longrightarrow> cond r \<Longrightarrow> shrinks r (f r)"
  shows "md_inv (upd_row bid cond f md)"
proof -
  let ?f = "\<lambda>r. if cond r then f r else r"
  have rows: "distinct (dkeys (md_rows md))" "list_all row_ok (md_rows md)" using inv by (auto simp: md_inv_def)
  have sh': "shrinks r (?f r)" if "(bid, r) \<in> set (md_rows md)" for r
  proof -
    have "blob_get md bid = Some r" using that rows(1) by (simp add: blob_get_def)
    moreover have "row_ok (bid, r)" using that rows(2) by (auto simp: list_all_iff)
    ultimately show ?thesis using sh by (auto simp: shrinks_def row_ok_def)
  qed
  show ?thesis unfolding upd_row_def
    by (rule md_inv_rows [OF inv]) (use rows sh' in \<open>auto intro: row_ok_dmodify bytes_of_dmodify_le\<close>)
qed

lemma md_inv_filter: "md_inv md \<Longrightarrow> md_inv (md\<lparr>md_rows := filter Q (md_rows md)\<rparr>)"
  by (rule md_inv_rows) (auto simp: md_inv_def distinct_map_filter bytes_of_filter_le list_all_iff)

lemma md_inv_leases: "md_inv md \<Longrightarrow> distinct ls \<Longrightarrow> md_inv (md\<lparr>md_leases := ls\<rparr>)"
  by (auto simp: md_inv_def usage_def global_bytes_def)

lemma md_inv_journal: "md_inv md \<Longrightarrow> distinct (dkeys js) \<Longrightarrow> md_inv (md\<lparr>md_journal := js\<rparr>)"
  by (auto simp: md_inv_def usage_def global_bytes_def)

lemma md_inv_add_lease: "md_inv md \<Longrightarrow> md_inv (add_lease bid holder md)"
  unfolding add_lease_def by (rule md_inv_leases) (auto simp: md_inv_def)

lemma md_inv_reserve:
  assumes inv: "md_inv md" and res: "blob_reserve md bid owner sz media now path free = Inr (md', r)"
  shows "md_inv md'"
proof -
  let ?row = "new_row bid owner sz media now path"
  from res have md': "md' = md\<lparr>md_rows := md_rows md @ [(bid, ?row)]\<rparr>" by (auto simp: blob_reserve_def)
  from res have pos: "0 < sz" and new: "bid \<notin> set (dkeys (md_rows md))"
    and own: "bytes_of (\<lambda>r. br_owner r = owner) (md_rows md) + sz \<le> owner_quota_bytes md"
    and glob: "bytes_of (\<lambda>_. True) (md_rows md) + sz \<le> global_quota_bytes md"
    by (simp_all add: blob_reserve_def rbind_eq_Inr_iff owner_total global_total blob_get_def dget_None_iff)
  have "bytes_of (\<lambda>r. br_owner r = o') (md_rows md') \<le> owner_quota_bytes md" for o'
  proof (cases "o' = owner")
    case True
    then show ?thesis using own by (simp add: md' bytes_of_append) (simp add: bytes_of_def row_bytes_def new_row_def counted_def)
  next
    case False
    then show ?thesis using inv unfolding md_inv_def owner_total
      by (simp add: md' bytes_of_append) (simp add: bytes_of_def row_bytes_def new_row_def)
  qed
  moreover have "bytes_of (\<lambda>_. True) (md_rows md') \<le> global_quota_bytes md"
    using glob by (simp add: md' bytes_of_append) (simp add: bytes_of_def row_bytes_def new_row_def counted_def)
  moreover have "row_ok (bid, ?row)" using pos by (simp add: row_ok_def new_row_def)
  ultimately show ?thesis using inv new unfolding md_inv_def owner_total global_total md' by simp
qed

lemma shrinks_dead: "br_state r' = DELETED \<or> br_state r' = CORRUPT \<Longrightarrow> br_blob_id r' = br_blob_id r \<Longrightarrow> br_owner r' = br_owner r
   \<Longrightarrow> 0 \<le> br_size_bytes r' \<Longrightarrow> shrinks r r'"
  by (auto simp: shrinks_def counted_def)

lemma md_inv_row: "md_inv md \<Longrightarrow> blob_get md bid = Some r \<Longrightarrow> row_ok (bid, r)"
  by (auto simp: md_inv_def blob_get_def list_all_iff dest!: dget_in_set)

lemma md_inv_tombstone: "md_inv md \<Longrightarrow> md_inv (tombstone md now bid)"
  unfolding tombstone_def
  by (rule md_inv_upd_row) (auto intro!: shrinks_dead dest: md_inv_row simp: row_ok_def)

lemma md_inv_expire_loop: "md_inv md \<Longrightarrow> md_inv (fst (expire_loop md now rs))"
  by (induction md now rs rule: expire_loop.induct) (auto simp: md_inv_tombstone split: prod.splits)

lemma begin_staging_Inr:
  "begin_staging md bid = Inr (md', r) \<Longrightarrow> md' = upd_row bid (\<lambda>r. br_state r = RESERVED) (\<lambda>r. r\<lparr>br_state := STAGING\<rparr>) md
     \<and> blob_get md' bid = Some r"
  by (auto simp: begin_staging_def Let_def require_row_def split: option.splits)

lemma blob_publish_Inr:
  "blob_publish md bid sha sz now ret = Inr (md', r) \<Longrightarrow>
     md' = upd_row bid (\<lambda>r. br_state r = RESERVED \<or> br_state r = STAGING)
       (\<lambda>r. r\<lparr>br_state := PUBLISHED, br_sha256 := Some sha, br_size_bytes := sz,
             br_expires_at := Some (now + (case ret of None \<Rightarrow> retention_seconds md | Some s \<Rightarrow> s))\<rparr>) md
     \<and> blob_get md' bid = Some r \<and> br_state r = PUBLISHED"
  by (auto simp: blob_publish_def Let_def require_row_def split: option.splits)

lemma md_inv_fold_lease: "md_inv md \<Longrightarrow> md_inv (fold (\<lambda>b. add_lease b holder) bs md)"
  by (induction bs arbitrary: md) (simp_all add: md_inv_add_lease)

lemma md_invD:
  assumes "md_inv md"
  shows "distinct (dkeys (md_rows md))" "list_all row_ok (md_rows md)" "distinct (md_leases md)" "distinct (dkeys (md_journal md))"
  using assms by (auto simp: md_inv_def)

lemma md_step_inv: "md_step md md' \<Longrightarrow> md_inv md \<Longrightarrow> md_inv md'"
proof (induction rule: md_step.induct)
  case (md_begin md bid md' r)
  then show ?case
    by (auto dest!: begin_staging_Inr intro!: md_inv_upd_row dest: md_inv_row simp: shrinks_def counted_def row_ok_def)
next
  case (md_publish md bid sha sz now ret md' r)
  then show ?case
    by (auto dest!: blob_publish_Inr intro!: md_inv_upd_row simp: shrinks_def counted_def)
next
  case (md_acquire md bid holder)
  then show ?case by (auto simp: acquire_lease_def md_inv_add_lease split: option.splits)
next
  case (md_release md bid holder)
  then show ?case unfolding release_lease_def by (auto intro!: md_inv_leases simp: md_invD)
next
  case (md_delete md bid owner now)
  then show ?case by (auto simp: blob_delete_def md_inv_tombstone split: option.splits)
next
  case (md_corrupt md bid)
  then show ?case unfolding mark_corrupt_def
    by (auto intro!: md_inv_upd_row shrinks_dead dest: md_inv_row simp: row_ok_def)
next
  case (md_journal md bid owner step sha sz now)
  then show ?case unfolding blob_journal_def
    by (auto intro!: md_inv_journal simp: md_invD dget_None_iff split: option.splits)
next
  case (md_clear md bid)
  then show ?case unfolding clear_journal_def by (auto intro!: md_inv_journal simp: md_invD distinct_delete)
next
  case (md_missing md bid now keep)
  then show ?case unfolding release_missing_def by (auto intro!: md_inv_upd_row shrinks_dead)
next
  case (md_unprotect md holder)
  then show ?case unfolding release_protection_def by (auto intro!: md_inv_leases simp: md_invD)
qed (auto simp: md_inv_reserve blob_abort_def purge_tombstones_def blob_expire_def protect_all_published_def
    intro: md_inv_filter md_inv_expire_loop md_inv_fold_lease)

lemma md_start_inv: "md_start md \<Longrightarrow> md_inv md"
  by (auto simp: md_start_def metadata_init_def md_inv_def owner_total global_total bytes_of_def)

interpretation mdm: machine md_start md_step md_inv
  by unfold_locales (rule md_start_inv, assumption, rule md_step_inv, assumption+)


definition demo_md :: BlobMetadata where
  "demo_md = \<lparr>owner_quota_bytes = 10, global_quota_bytes = 12, min_free_bytes = 1, retention_seconds = 5,
     tombstone_seconds = 5, md_rows = [], md_leases = [], md_journal = []\<rparr>"

definition demo_md1 :: BlobMetadata where
  "demo_md1 = demo_md\<lparr>md_rows := [(''b'', new_row ''b'' ''uid-1'' 7 ''image/png'' 0 ''uid-1/b'')]\<rparr>"

lemma demo_reserve:
  "blob_reserve demo_md ''b'' ''uid-1'' 7 ''image/png'' 0 ''uid-1/b'' (Some 100)
   = Inr (demo_md1, new_row ''b'' ''uid-1'' 7 ''image/png'' 0 ''uid-1/b'')"
  by (simp add: blob_reserve_def demo_md_def demo_md1_def blob_get_def usage_total_bytes_def usage_def state_bytes_def global_bytes_def)

lemma demo_md_start: "reaches md_start md_step demo_md"
proof -
  have "metadata_init 10 12 1 5 5 = Inr demo_md" by (simp add: metadata_init_def demo_md_def)
  then have "md_start demo_md" unfolding md_start_def by blast
  then show ?thesis by (rule reaches_start)
qed

lemma demo_md1_reachable: "reaches md_start md_step demo_md1"
  by (rule reaches_step [OF demo_md_start]) (rule md_reserve [OF demo_reserve])


section \<open>Leases protect published blobs\<close>

lemma leases_iff: "blob_leases md bid = [] \<longleftrightarrow> (\<forall>h. (bid, h) \<notin> set (md_leases md))"
proof -
  have "blob_leases md bid = [] \<longleftrightarrow> set (blob_leases md bid) = {}" by simp
  also have "set (blob_leases md bid) = {h. (bid, h) \<in> set (md_leases md)}" by (force simp: blob_leases_def)
  finally show ?thesis by auto
qed

lemma blob_get_upd_row [simp]:
  "blob_get (upd_row bid cond f md) b = (if b = bid then map_option (\<lambda>r. if cond r then f r else r) (blob_get md b) else blob_get md b)"
  by (auto simp: blob_get_def upd_row_def)

lemma md_leases_upd_row [simp]: "md_leases (upd_row bid cond f md) = md_leases md"
  by (simp add: upd_row_def)

lemma blob_leases_upd_row [simp]: "blob_leases (upd_row bid cond f md) b = blob_leases md b"
  by (simp add: blob_leases_def)

lemma blob_get_filter:
  "distinct (dkeys (md_rows md)) \<Longrightarrow> blob_get (md\<lparr>md_rows := filter (\<lambda>(k, r). Q k r) (md_rows md)\<rparr>) bid
     = (case blob_get md bid of None \<Rightarrow> None | Some r \<Rightarrow> if Q bid r then Some r else None)"
proof -
  have "dget (filter (\<lambda>(k, r). Q k r) rows) bid = (case dget rows bid of None \<Rightarrow> None | Some r \<Rightarrow> if Q bid r then Some r else None)"
    if "distinct (dkeys rows)" for rows :: "(string, BlobRecord) dict"
    using that by (induction rows) (auto simp: dget_None_iff split: option.splits dest: dget_key)
  then show "distinct (dkeys (md_rows md)) \<Longrightarrow> ?thesis" by (simp add: blob_get_def)
qed

lemma expire_loop_held:
  "(bid, h) \<in> set (md_leases md) \<Longrightarrow> blob_get (fst (expire_loop md now rs)) bid = blob_get md bid
     \<and> md_leases (fst (expire_loop md now rs)) = md_leases md"
proof (induction md now rs rule: expire_loop.induct)
  case (2 md now r rs)
  show ?case
  proof (cases "blob_leases md (br_blob_id r) = []")
    case True
    with 2(3) have "br_blob_id r \<noteq> bid" by (auto simp: leases_iff)
    with 2(2) True 2(3) show ?thesis by (simp add: tombstone_def case_prod_beta Let_def)
  next
    case False
    with 2 show ?thesis by simp
  qed
qed simp

lemma fold_lease_rows [simp]: "md_rows (fold (\<lambda>b. add_lease b holder) bs md) = md_rows md"
  by (induction bs arbitrary: md) (simp_all add: add_lease_def)

text \<open>The row under a lease: unchanged, or found to be corrupt.\<close>

definition same_or_corrupt :: "BlobRecord \<Rightarrow> BlobRecord \<Rightarrow> bool" where
  "same_or_corrupt r r' \<longleftrightarrow> r' = r \<or> r' = r\<lparr>br_state := CORRUPT\<rparr>"

definition recovery_step :: "BlobMetadata \<Rightarrow> string \<Rightarrow> BlobMetadata \<Rightarrow> bool" where
  "recovery_step md bid md' \<longleftrightarrow> (\<exists>now keep. md' = release_missing md bid now keep)"

lemma upd_row_kept:
  "blob_get md bid = Some r \<Longrightarrow> \<not> cond r \<Longrightarrow> \<exists>r'. blob_get (upd_row bid' cond f md) bid = Some r' \<and> same_or_corrupt r r'"
  by (rule exI [of _ r], cases "bid = bid'") (simp_all add: same_or_corrupt_def del: map_option_eq_Some)

lemma held_row_kept:
  assumes "md_step md md'" and "md_inv md" and "blob_get md bid = Some r" and "br_state r = PUBLISHED"
    and "(bid, h) \<in> set (md_leases md)" and "\<not> recovery_step md bid md'"
  shows "\<exists>r'. blob_get md' bid = Some r' \<and> same_or_corrupt r r'"
  using assms
proof (induction rule: md_step.induct)
  case (md_reserve md bid' owner sz media now path free md' r')
  then show ?case by (auto simp: blob_reserve_def blob_get_def same_or_corrupt_def map_add_Some_iff)
next
  case (md_begin md bid' md' r')
  then show ?case using begin_staging_Inr [OF md_begin.hyps] upd_row_kept by fastforce
next
  case (md_publish md bid' sha sz now ret md' r')
  then show ?case using blob_publish_Inr [OF md_publish.hyps(1)] upd_row_kept by fastforce
next
  case (md_abort md bid')
  then show ?case unfolding blob_abort_def
    by (subst blob_get_filter) (auto simp: md_invD same_or_corrupt_def)
next
  case (md_delete md bid' owner now)
  then show ?case by (auto simp: blob_delete_def tombstone_def leases_iff same_or_corrupt_def split: option.splits)
next
  case (md_expire md now)
  then show ?case using expire_loop_held [of bid h md now "due_rows md now"] by (auto simp: blob_expire_def same_or_corrupt_def)
next
  case (md_purge md now)
  then show ?case unfolding purge_tombstones_def fst_conv
    by (subst blob_get_filter) (auto simp: md_invD same_or_corrupt_def purgeable_def)
next
  case (md_missing md bid' now keep)
  then show ?case by (auto simp: release_missing_def recovery_step_def same_or_corrupt_def)
next
  case (md_acquire md bid' holder)
  then show ?case by (auto simp: acquire_lease_def add_lease_def blob_get_def same_or_corrupt_def split: option.splits)
qed (auto simp: release_lease_def mark_corrupt_def blob_journal_def clear_journal_def protect_all_published_def
    release_protection_def same_or_corrupt_def blob_get_def upd_row_def)

text \<open>
  C25. A held blob is never removed: while a reader holds a lease on a published blob, no
  transaction but the recovery's own verdict on a missing file deletes its row or changes its owner,
  digest, size or path; at most it is marked corrupt.  A deletion answers \<^verbatim>\<open>held\<close> and changes nothing.
\<close>

theorem held_blob_never_deleted:
  assumes "reaches md_start md_step md" and "blob_get md bid = Some r" and "br_state r = PUBLISHED"
    and "(bid, h) \<in> set (md_leases md)"
  shows "(md_step md md' \<longrightarrow> \<not> recovery_step md bid md' \<longrightarrow> (\<exists>r'. blob_get md' bid = Some r' \<and> same_or_corrupt r r'))
     \<and> blob_delete md bid (br_owner r) now = (md, ''held'')"
proof -
  have "blob_leases md bid \<noteq> []" using assms(4) leases_iff by blast
  then have "blob_delete md bid (br_owner r) now = (md, ''held'')" using assms(2,3) by (simp add: blob_delete_def)
  then show ?thesis using held_row_kept [OF _ mdm.reaches_inv [OF assms(1)] assms(2-4)] by blast
qed

definition demo_published :: BlobRecord where
  "demo_published = (new_row ''b'' ''uid-1'' 7 ''image/png'' 0 ''uid-1/b'')
     \<lparr>br_state := PUBLISHED, br_sha256 := Some ''d'', br_size_bytes := 6, br_expires_at := Some 6\<rparr>"

definition demo_md2 :: BlobMetadata where
  "demo_md2 = demo_md1\<lparr>md_rows := [(''b'', demo_published)]\<rparr>"

definition demo_md3 :: BlobMetadata where
  "demo_md3 = demo_md2\<lparr>md_leases := [(''b'', ''e1'')]\<rparr>"

lemma demo_publish: "blob_publish demo_md1 ''b'' ''d'' 6 1 None = Inr (demo_md2, demo_published)"
  by (simp add: blob_publish_def demo_md1_def demo_md2_def demo_md_def demo_published_def upd_row_def dmodify_def
      require_row_def blob_get_def new_row_def)

lemma demo_md3_reachable: "reaches md_start md_step demo_md3"
proof -
  have "md_step demo_md1 demo_md2"
    by (rule md_publish [OF demo_publish]) (simp_all add: blob_get_def demo_md1_def new_row_def)
  moreover have "md_step demo_md2 demo_md3"
    using md_acquire [of demo_md2 "''b''" "''e1''"]
    by (simp add: acquire_lease_def blob_get_def demo_md3_def demo_md2_def demo_published_def add_lease_def demo_md1_def demo_md_def)
  ultimately show ?thesis using demo_md1_reachable by (blast intro: reaches_step)
qed

theorem held_blob_never_deleted_witness:
  "blob_delete demo_md3 ''b'' ''uid-1'' 9 = (demo_md3, ''held'')
   \<and> (\<exists>r'. blob_get (fst (blob_expire demo_md3 9)) ''b'' = Some r' \<and> same_or_corrupt demo_published r')"
proof -
  have row: "blob_get demo_md3 ''b'' = Some demo_published" "br_state demo_published = PUBLISHED"
    "(''b'', ''e1'') \<in> set (md_leases demo_md3)" "br_owner demo_published = ''uid-1''"
    by (simp_all add: blob_get_def demo_md3_def demo_md2_def demo_published_def new_row_def)
  have "fst (blob_expire demo_md3 9) = demo_md3"
    by (simp add: blob_expire_def due_rows_def demo_md3_def demo_md2_def demo_published_def new_row_def blob_leases_def)
  moreover have "\<not> recovery_step demo_md3 ''b'' demo_md3"
  proof
    assume "recovery_step demo_md3 ''b'' demo_md3"
    then obtain now keep where e: "demo_md3 = release_missing demo_md3 ''b'' now keep" unfolding recovery_step_def by blast
    have "map_option br_size_bytes (blob_get (release_missing demo_md3 ''b'' now keep) ''b'') = Some 0"
      unfolding release_missing_def blob_get_upd_row by (simp add: row)
    moreover have "map_option br_size_bytes (blob_get demo_md3 ''b'') = Some 6" by (simp add: row demo_published_def)
    ultimately show False unfolding e [symmetric] by simp
  qed
  moreover have "md_step demo_md3 (fst (blob_expire demo_md3 9))" by (rule md_expire)
  ultimately show ?thesis
    using held_blob_never_deleted [OF demo_md3_reachable row(1-3), of "fst (blob_expire demo_md3 9)" 9] row(4) by simp
qed

end
