(* ===== verification/Blob_Store.thy ===== *)
theory Blob_Store
  imports Blob_Metadata Control_Protocol
begin

text \<open>
  The blob store of \<^verbatim>\<open>model_scheduler/blob_store.py\<close>: staging, publication, execution outputs, verified
  reads and restart recovery over the metadata database and the files on disk.  The staging directory
  and the owner directories are dictionaries from names to the bytes of regular files.  SHA-256 is the
  argument \<open>sha\<close>; \<open>io\<close> says which system call fails; a stream of chunks may raise at any point.  An
  operation that raises after it changed the disk returns the changed store with the exception.
\<close>

section \<open>State\<close>

record OutputReservation =
  or_blob_id :: string
  or_owner :: string
  or_media_type :: string
  or_limit_bytes :: int
  or_fence :: Fence
  or_reserved_at :: time
  or_cancelled_fence :: "Fence option"

definition cancelled_by :: "OutputReservation \<Rightarrow> Fence \<Rightarrow> bool" where
  "cancelled_by res fence \<longleftrightarrow> or_cancelled_fence res \<noteq> None \<and> wd_accepted (writeback_decision (or_fence res) fence)"

record RecoveryReport =
  rr_verified :: "string list"
  rr_unreadable :: "string list"
  rr_purged :: "string list"
  rr_protected :: "string list"

record BlobStore =
  bs_md :: BlobMetadata
  bs_staging :: "(string, string) dict"
  bs_files :: "(string \<times> string, string) dict"
  bs_media_types :: "string list"
  bs_chunked_reserve_bytes :: int
  bs_chunk_size :: nat

type_synonym io = "string \<Rightarrow> exn option"
type_synonym stream = "(exn + string) list"

definition MEDIA_TYPES :: "string list" where
  "MEDIA_TYPES = [''application/json'', ''image/png'', ''image/jpeg'']"

section \<open>Files\<close>

definition checked_id :: "string \<Rightarrow> string \<Rightarrow> unit result" where
  "checked_id v code = raise_if (\<not> id_ok v) (BlobStoreError code)"

text \<open>\<^verbatim>\<open>O_CREAT | O_EXCL\<close>: an existing staging file is an error.\<close>

definition open_staging :: "io \<Rightarrow> BlobStore \<Rightarrow> string \<Rightarrow> BlobStore result" where
  "open_staging io s bid =
     (case io ''open'' of
        Some e \<Rightarrow> Inl e
      | None \<Rightarrow> if dget (bs_staging s) bid \<noteq> None then Inl (OSError ''File exists'')
                else Inr (s\<lparr>bs_staging := dput bid [] (bs_staging s)\<rparr>))"

text \<open>\<^verbatim>\<open>os.replace\<close>, then \<^verbatim>\<open>os.fsync\<close> of the owner directory, which may fail after the rename.\<close>

definition publish_file :: "io \<Rightarrow> BlobStore \<Rightarrow> string \<Rightarrow> string \<Rightarrow> BlobStore \<times> exn option" where
  "publish_file io s owner bid =
     (case io ''replace'' of
        Some e \<Rightarrow> (s, Some e)
      | None \<Rightarrow>
          (case dget (bs_staging s) bid of
             None \<Rightarrow> (s, Some (OSError ''No such file''))
           | Some body \<Rightarrow>
               (s\<lparr>bs_staging := ddel bid (bs_staging s), bs_files := dput (owner, bid) body (bs_files s)\<rparr>, io ''fsync_dir'')))"

definition remove_staging :: "BlobStore \<Rightarrow> string \<Rightarrow> BlobStore" where
  "remove_staging s bid = s\<lparr>bs_staging := ddel bid (bs_staging s)\<rparr>"

definition remove_published :: "BlobStore \<Rightarrow> string \<Rightarrow> string \<Rightarrow> BlobStore" where
  "remove_published s owner bid = s\<lparr>bs_files := ddel (owner, bid) (bs_files s)\<rparr>"

definition open_verified :: "(string \<Rightarrow> string) \<Rightarrow> BlobStore \<Rightarrow> BlobRecord \<Rightarrow> BlobStore \<times> string result" where
  "open_verified sha s r =
     (case dget (bs_files s) (br_owner r, br_blob_id r) of
        None \<Rightarrow> (s, Inl (BlobStoreError ''unreadable''))
      | Some body \<Rightarrow>
          if int (length body) \<noteq> br_size_bytes r \<or> Some (sha body) \<noteq> br_sha256 r
          then (s\<lparr>bs_md := mark_corrupt (bs_md s) (br_blob_id r)\<rparr>, Inl (BlobStoreError ''unreadable''))
          else (s, Inr body))"

section \<open>Uploads\<close>

text \<open>The receiving loop: empty chunks are skipped, and the first chunk past the limit stops it.\<close>

fun receive :: "int \<Rightarrow> stream \<Rightarrow> string \<Rightarrow> string result" where
  "receive limit [] acc = Inr acc"
| "receive limit (Inl e # cs) acc = Inl e"
| "receive limit (Inr c # cs) acc =
     (if c = [] then receive limit cs acc
      else if int (length acc + length c) > limit then Inl (BlobStoreError ''too_large'')
      else receive limit cs (acc @ c))"

definition check_received :: "(string \<Rightarrow> string) \<Rightarrow> io \<Rightarrow> string \<Rightarrow> int option \<Rightarrow> string option \<Rightarrow> unit result" where
  "check_received sha io body declared expected =
     rbind (case io ''fsync'' of Some e \<Rightarrow> Inl e | None \<Rightarrow> Inr ()) (\<lambda>_.
     rbind (raise_if (case declared of None \<Rightarrow> False | Some n \<Rightarrow> int (length body) \<noteq> n) (BlobStoreError ''checksum_mismatch'')) (\<lambda>_.
     raise_if (case expected of None \<Rightarrow> False | Some h \<Rightarrow> sha body \<noteq> h) (BlobStoreError ''checksum_mismatch'')))"

definition with_md :: "(BlobMetadata \<Rightarrow> BlobMetadata) \<Rightarrow> BlobStore \<Rightarrow> BlobStore" where
  "with_md f s = s\<lparr>bs_md := f (bs_md s)\<rparr>"

definition abort_row :: "string \<Rightarrow> BlobStore \<Rightarrow> BlobStore" where
  "abort_row bid = with_md (\<lambda>md. blob_abort md bid)"

definition clear_row_journal :: "string \<Rightarrow> BlobStore \<Rightarrow> BlobStore" where
  "clear_row_journal bid = with_md (\<lambda>md. clear_journal md bid)"

definition put_journal :: "string \<Rightarrow> string \<Rightarrow> JournalStep \<Rightarrow> string option \<Rightarrow> int \<Rightarrow> time \<Rightarrow> BlobStore \<Rightarrow> BlobStore" where
  "put_journal bid owner step h n now = with_md (\<lambda>md. blob_journal md bid owner step h n now)"

text \<open>
  The publication of a received body: journal, rename, metadata transaction, journal.  The first
  component lists the stores that are on disk between the steps, where a crash may happen.
\<close>

definition publish_body ::
  "(string \<Rightarrow> string) \<Rightarrow> io \<Rightarrow> BlobStore \<Rightarrow> string \<Rightarrow> string \<Rightarrow> string \<Rightarrow> time option \<Rightarrow> time \<Rightarrow> time
     \<Rightarrow> BlobStore list \<times> BlobStore \<times> BlobRecord result" where
  "publish_body sha io s bid owner body retention moment now =
     (let n = int (length body);
          s4 = put_journal bid owner STEP_PENDING (Some (sha body)) n now s;
          (s5, err) = publish_file io s4 owner bid
      in case err of
           Some e \<Rightarrow> ([s4, s5, remove_staging s5 bid, abort_row bid (remove_staging s5 bid)],
                      clear_row_journal bid (abort_row bid (remove_staging s5 bid)), Inl e)
         | None \<Rightarrow>
             (case blob_publish (bs_md s5) bid (sha body) n moment retention of
                Inl e \<Rightarrow> ([s4, s5, remove_published s5 owner bid, abort_row bid (remove_published s5 owner bid)],
                          clear_row_journal bid (abort_row bid (remove_published s5 owner bid)), Inl e)
              | Inr (md', r) \<Rightarrow>
                  let s6 = s5\<lparr>bs_md := md'\<rparr>; s7 = put_journal bid owner STEP_PUBLISHED (Some (sha body)) n now s6
                  in ([s4, s5, s6, s7], clear_row_journal bid s7, Inr r)))"

definition receive_and_publish ::
  "(string \<Rightarrow> string) \<Rightarrow> io \<Rightarrow> BlobStore \<Rightarrow> string \<Rightarrow> string \<Rightarrow> stream \<Rightarrow> string option \<Rightarrow> int \<Rightarrow> int option
     \<Rightarrow> time option \<Rightarrow> time \<Rightarrow> time \<Rightarrow> BlobStore list \<times> BlobStore \<times> BlobRecord result" where
  "receive_and_publish sha io s bid owner chunks expected limit declared retention moment now =
     (let s1 = put_journal bid owner STEP_STAGING expected limit now s in
      case open_staging io s1 bid of
        Inl e \<Rightarrow> ([s], s1, Inl e)
      | Inr s2 \<Rightarrow>
          (case begin_staging (bs_md s2) bid of
             Inl e \<Rightarrow> ([s, s1, s2, remove_staging s2 bid], abort_row bid (remove_staging s2 bid), Inl e)
           | Inr (md3, row) \<Rightarrow>
               let s3 = s2\<lparr>bs_md := md3\<rparr> in
               case rbind (receive limit chunks []) (\<lambda>body.
                    rbind (check_received sha io body declared expected) (\<lambda>_. Inr body)) of
                 Inl e \<Rightarrow> ([s, s1, s2, s3, remove_staging s3 bid], abort_row bid (remove_staging s3 bid), Inl e)
               | Inr body \<Rightarrow>
                   let s3b = s3\<lparr>bs_staging := dput bid body (bs_staging s3)\<rparr>;
                       (tr, s', res) = publish_body sha io s3b bid owner body retention moment now
                   in ([s, s1, s2, s3, s3b] @ tr, s', res)))"

definition quota_error :: "'a result \<Rightarrow> 'a result" where
  "quota_error r = (case r of Inl e \<Rightarrow> Inl (if is_QuotaExceeded e then BlobStoreError ''quota_exceeded'' else e) | Inr x \<Rightarrow> Inr x)"

definition blob_path :: "string \<Rightarrow> string \<Rightarrow> string" where
  "blob_path owner bid = owner @ ''/'' @ bid"

definition reserve_checked ::
  "BlobStore \<Rightarrow> string \<Rightarrow> string \<Rightarrow> string \<Rightarrow> int \<Rightarrow> time \<Rightarrow> int option \<Rightarrow> BlobStore result" where
  "reserve_checked s bid owner media limit now free =
     rbind (checked_id bid ''not_found'') (\<lambda>_.
     rbind (checked_id owner ''forbidden'') (\<lambda>_.
     rbind (raise_if (media \<notin> set (bs_media_types s)) (BlobStoreError ''unsupported_media_type'')) (\<lambda>_.
     rbind (raise_if (limit \<le> 0 \<or> limit > MAX_BLOB_BYTES) (BlobStoreError ''too_large'')) (\<lambda>_.
     rbind (quota_error (blob_reserve (bs_md s) bid owner limit media now (blob_path owner bid) free)) (\<lambda>(md', r).
     Inr (s\<lparr>bs_md := md'\<rparr>))))))"

definition upload ::
  "(string \<Rightarrow> string) \<Rightarrow> io \<Rightarrow> BlobStore \<Rightarrow> string \<Rightarrow> string \<Rightarrow> string \<Rightarrow> stream \<Rightarrow> string option \<Rightarrow> int option \<Rightarrow> time
     \<Rightarrow> int option \<Rightarrow> BlobStore list \<times> BlobStore \<times> BlobRecord result" where
  "upload sha io s bid owner media chunks expected declared now free =
     (let limit = (case declared of None \<Rightarrow> bs_chunked_reserve_bytes s | Some n \<Rightarrow> n) in
      case reserve_checked s bid owner media limit now free of
        Inl e \<Rightarrow> ([], s, Inl e)
      | Inr s0 \<Rightarrow> receive_and_publish sha io s0 bid owner chunks expected limit declared None now now)"

section \<open>Execution outputs\<close>

definition reserve_output ::
  "BlobStore \<Rightarrow> string \<Rightarrow> string \<Rightarrow> string \<Rightarrow> int \<Rightarrow> Fence \<Rightarrow> time \<Rightarrow> int option \<Rightarrow> (BlobStore \<times> OutputReservation) result" where
  "reserve_output s bid owner media limit fence now free =
     rbind (reserve_checked s bid owner media limit now free) (\<lambda>s'.
     Inr (s', \<lparr>or_blob_id = bid, or_owner = owner, or_media_type = media, or_limit_bytes = limit, or_fence = fence,
               or_reserved_at = now, or_cancelled_fence = None\<rparr>))"

definition cancel_output :: "OutputReservation \<Rightarrow> Fence \<Rightarrow> OutputReservation \<times> bool" where
  "cancel_output res fence =
     (if \<not> wd_accepted (writeback_decision (or_fence res) fence) then (res, False)
      else (res\<lparr>or_cancelled_fence := Some fence\<rparr>, True))"

definition abandon_output :: "BlobStore \<Rightarrow> OutputReservation \<Rightarrow> BlobStore" where
  "abandon_output s res =
     (let bid = or_blob_id res in
      clear_row_journal bid (abort_row bid (remove_published (remove_staging s bid) (or_owner res) bid)))"

definition write_output ::
  "(string \<Rightarrow> string) \<Rightarrow> io \<Rightarrow> BlobStore \<Rightarrow> OutputReservation \<Rightarrow> stream \<Rightarrow> string option \<Rightarrow> time
     \<Rightarrow> BlobStore list \<times> BlobStore \<times> BlobRecord result" where
  "write_output sha io s res chunks expected now =
     (if or_cancelled_fence res \<noteq> None then ([], abandon_output s res, Inl (BlobStoreError ''cancelled''))
      else receive_and_publish sha io s (or_blob_id res) (or_owner res) chunks expected (or_limit_bytes res) None None now now)"

section \<open>Restart recovery\<close>

definition drop_unreadable :: "string \<Rightarrow> time \<Rightarrow> BlobStore \<Rightarrow> BlobStore" where
  "drop_unreadable bid now s = clear_row_journal bid (with_md (\<lambda>md. release_missing md bid now True) s)"

fun recover_published ::
  "(string \<Rightarrow> string) \<Rightarrow> time \<Rightarrow> string list \<Rightarrow> BlobStore \<Rightarrow> BlobStore \<times> string list \<times> string list" where
  "recover_published sha now [] s = (s, [], [])"
| "recover_published sha now (bid # bids) s =
     (case blob_get (bs_md s) bid of
        None \<Rightarrow> recover_published sha now bids s
      | Some r \<Rightarrow>
          (case open_verified sha s r of
             (s1, Inl e) \<Rightarrow>
               let (s', ok, bad) = recover_published sha now bids (drop_unreadable bid now s1) in (s', ok, bid # bad)
           | (s1, Inr body) \<Rightarrow>
               let (s', ok, bad) = recover_published sha now bids (clear_row_journal bid s1) in (s', bid # ok, bad)))"

definition complete_pending_publish ::
  "(string \<Rightarrow> string) \<Rightarrow> BlobStore \<Rightarrow> BlobRecord \<Rightarrow> JournalEntry \<Rightarrow> time \<Rightarrow> BlobStore option result" where
  "complete_pending_publish sha s r e now =
     (case dget (bs_files s) (br_owner r, br_blob_id r) of
        None \<Rightarrow> Inr None
      | Some body \<Rightarrow>
          if Some (sha body) \<noteq> je_sha256 e \<or> int (length body) \<noteq> je_size_bytes e then Inr None
          else rbind (blob_publish (bs_md s) (br_blob_id r) (sha body) (int (length body)) now None) (\<lambda>(md', r').
               Inr (Some (remove_staging (s\<lparr>bs_md := md'\<rparr>) (br_blob_id r)))))"

text \<open>\<^verbatim>\<open>entry is not None and entry["step"] == STEP_PENDING and entry["sha256"]\<close>\<close>

definition pending_entry :: "BlobStore \<Rightarrow> string \<Rightarrow> JournalEntry option" where
  "pending_entry s bid =
     (case journal_entry (bs_md s) bid of
        None \<Rightarrow> None
      | Some e \<Rightarrow> if je_step e = STEP_PENDING \<and> truthy (je_sha256 e) then Some e else None)"

definition purge_unfinished :: "BlobRecord \<Rightarrow> BlobStore \<Rightarrow> BlobStore" where
  "purge_unfinished r s =
     (let bid = br_blob_id r in
      clear_row_journal bid (abort_row bid (remove_published (remove_staging s bid) (br_owner r) bid)))"

fun recover_unfinished ::
  "(string \<Rightarrow> string) \<Rightarrow> time \<Rightarrow> BlobRecord list \<Rightarrow> BlobStore \<Rightarrow> (BlobStore \<times> string list \<times> string list) result" where
  "recover_unfinished sha now [] s = Inr (s, [], [])"
| "recover_unfinished sha now (r # rs) s =
     rbind (case pending_entry s (br_blob_id r) of
              None \<Rightarrow> Inr None
            | Some e \<Rightarrow> complete_pending_publish sha s r e now) (\<lambda>completed.
     case completed of
       Some s1 \<Rightarrow>
         rbind (recover_unfinished sha now rs (clear_row_journal (br_blob_id r) s1)) (\<lambda>(s', ok, gone).
         Inr (s', br_blob_id r # ok, gone))
     | None \<Rightarrow>
         rbind (recover_unfinished sha now rs (purge_unfinished r s)) (\<lambda>(s', ok, gone).
         Inr (s', ok, br_blob_id r # gone)))"

text \<open>Every staging file is named \<^verbatim>\<open><blob_id>.part\<close>, so the sweep removes all that are left.\<close>

definition sweep_orphan_staging :: "BlobStore \<Rightarrow> BlobStore \<times> string list" where
  "sweep_orphan_staging s = (fold (\<lambda>bid s. remove_staging s bid) (dkeys (bs_staging s)) s, dkeys (bs_staging s))"

definition restart_holder :: "string \<Rightarrow> string" where
  "restart_holder boot_id = ''restart:'' @ boot_id"

definition recover_store ::
  "(string \<Rightarrow> string) \<Rightarrow> BlobStore \<Rightarrow> bool \<Rightarrow> string \<Rightarrow> time \<Rightarrow> (BlobStore \<times> RecoveryReport) result" where
  "recover_store sha s instances_running boot_id now =
     (let (s1, ok1, bad) = recover_published sha now (verify_all (bs_md s)) s in
      rbind (recover_unfinished sha now (unfinished_rows (bs_md s1)) s1) (\<lambda>(s2, ok2, gone).
      let (s3, orphans) = sweep_orphan_staging s2;
          (md4, protected) = (if instances_running then protect_all_published (bs_md s3) (restart_holder boot_id) else (bs_md s3, []))
      in Inr (s3\<lparr>bs_md := md4\<rparr>, \<lparr>rr_verified = ok1 @ ok2, rr_unreadable = bad, rr_purged = gone @ orphans, rr_protected = protected\<rparr>)))"

definition release_restart_protection :: "BlobStore \<Rightarrow> string \<Rightarrow> BlobStore \<times> string list" where
  "release_restart_protection s boot_id =
     (let (md', bids) = release_protection (bs_md s) (restart_holder boot_id) in (s\<lparr>bs_md := md'\<rparr>, bids))"

section \<open>Reads, leases and deletion\<close>

definition lease_open ::
  "(string \<Rightarrow> string) \<Rightarrow> BlobStore \<Rightarrow> string \<Rightarrow> string \<Rightarrow> string \<Rightarrow> time \<Rightarrow> BlobStore \<times> (BlobRecord \<times> string) result" where
  "lease_open sha s bid owner holder now =
     (case rbind (checked_id bid ''not_found'') (\<lambda>_. checked_id owner ''forbidden'') of
        Inl e \<Rightarrow> (s, Inl e)
      | Inr _ \<Rightarrow>
          (case blob_get (bs_md s) bid of
             None \<Rightarrow> (s, Inl (BlobStoreError ''not_found''))
           | Some r \<Rightarrow>
               if br_owner r \<noteq> owner \<or> br_state r \<noteq> PUBLISHED then (s, Inl (BlobStoreError ''not_found''))
               else if (case br_expires_at r of None \<Rightarrow> False | Some t \<Rightarrow> now \<ge> t) then (s, Inl (BlobStoreError ''expired''))
               else (case open_verified sha s r of
                       (s1, Inl e) \<Rightarrow> (s1, Inl e)
                     | (s1, Inr body) \<Rightarrow>
                         let (md', got) = acquire_lease (bs_md s1) bid holder
                         in if got then (s1\<lparr>bs_md := md'\<rparr>, Inr (r, body)) else (s1, Inl (BlobStoreError ''not_found'')))))"

definition lease_close :: "BlobStore \<Rightarrow> string \<Rightarrow> string \<Rightarrow> BlobStore" where
  "lease_close s bid holder = with_md (\<lambda>md. release_lease md bid holder) s"

text \<open>
  The reading loop: \<^verbatim>\<open>os.pread\<close> returns at most a chunk from the offset, the offset advances by what was
  read, and an empty block ends the loop.
\<close>

definition pread :: "string \<Rightarrow> nat \<Rightarrow> nat \<Rightarrow> string" where
  "pread body chunk offset = take chunk (drop offset body)"

function read_blocks :: "string \<Rightarrow> nat \<Rightarrow> nat \<Rightarrow> string list" where
  "read_blocks body chunk offset =
     (let block = pread body chunk offset
      in if block = [] then [] else block # read_blocks body chunk (offset + length block))"
  by pat_completeness auto

termination
  by (relation "measure (\<lambda>(body, chunk, offset). length body - offset)") (auto simp: pread_def)

definition read_all ::
  "(string \<Rightarrow> string) \<Rightarrow> BlobStore \<Rightarrow> string \<Rightarrow> string \<Rightarrow> string \<Rightarrow> time \<Rightarrow> BlobStore \<times> string result" where
  "read_all sha s bid owner holder now =
     (case lease_open sha s bid owner holder now of
        (s1, Inl e) \<Rightarrow> (s1, Inl e)
      | (s1, Inr (r, body)) \<Rightarrow> (lease_close s1 bid holder, Inr (concat (read_blocks body (bs_chunk_size s) 0))))"

definition store_delete :: "BlobStore \<Rightarrow> string \<Rightarrow> string \<Rightarrow> time \<Rightarrow> (BlobStore \<times> string) result" where
  "store_delete s bid owner now =
     rbind (checked_id bid ''not_found'') (\<lambda>_.
     rbind (checked_id owner ''forbidden'') (\<lambda>_.
     let (md', outcome) = blob_delete (bs_md s) bid owner now; s1 = s\<lparr>bs_md := md'\<rparr>
     in Inr (if outcome = ''deleted''
             then (case blob_get md' bid of None \<Rightarrow> (s1, outcome) | Some r \<Rightarrow> (remove_published s1 (br_owner r) bid, outcome))
             else (s1, outcome))))"

definition store_expire :: "BlobStore \<Rightarrow> time \<Rightarrow> BlobStore \<times> string list" where
  "store_expire s now =
     (let (md', expired) = blob_expire (bs_md s) now
      in (fold (\<lambda>r s. remove_published s (br_owner r) (br_blob_id r)) expired (s\<lparr>bs_md := md'\<rparr>), map br_blob_id expired))"

fun verify_published :: "(string \<Rightarrow> string) \<Rightarrow> string list \<Rightarrow> BlobStore \<Rightarrow> BlobStore \<times> string list \<times> string list" where
  "verify_published sha [] s = (s, [], [])"
| "verify_published sha (bid # bids) s =
     (case blob_get (bs_md s) bid of
        None \<Rightarrow> verify_published sha bids s
      | Some r \<Rightarrow>
          (case open_verified sha s r of
             (s1, Inl e) \<Rightarrow> let (s', ok, bad) = verify_published sha bids s1 in (s', ok, bid # bad)
           | (s1, Inr body) \<Rightarrow> let (s', ok, bad) = verify_published sha bids s1 in (s', bid # ok, bad)))"

section \<open>Verified reads\<close>

declare read_blocks.simps [simp del]

lemma read_blocks_all: "0 < chunk \<Longrightarrow> concat (read_blocks body chunk offset) = drop offset body"
proof (induction body chunk offset rule: read_blocks.induct)
  case (1 body chunk offset)
  have split: "drop offset body = pread body chunk offset @ drop (offset + length (pread body chunk offset)) body"
    unfolding pread_def by (metis append_take_drop_id drop_drop length_take min_def drop_eq_Nil add.commute drop_all take_all
        length_drop linorder_le_cases)
  show ?case
  proof (cases "pread body chunk offset = []")
    case True
    then have "drop offset body = []" using 1(2) by (auto simp: pread_def)
    then show ?thesis using True by (subst read_blocks.simps) (simp add: Let_def)
  next
    case False
    have "concat (read_blocks body chunk offset)
        = pread body chunk offset @ concat (read_blocks body chunk (offset + length (pread body chunk offset)))"
      by (subst read_blocks.simps) (simp add: Let_def False)
    also have "\<dots> = drop offset body" using 1(1) [OF refl False 1(2)] split by simp
    finally show ?thesis .
  qed
qed

definition verified :: "(string \<Rightarrow> string) \<Rightarrow> BlobStore \<Rightarrow> BlobRecord \<Rightarrow> bool" where
  "verified sha s r \<longleftrightarrow> (\<exists>body. dget (bs_files s) (br_owner r, br_blob_id r) = Some body \<and> int (length body) = br_size_bytes r
     \<and> br_sha256 r = Some (sha body))"

lemma open_verified_Inr:
  "open_verified sha s r = (s', Inr body) \<longleftrightarrow> s' = s \<and> dget (bs_files s) (br_owner r, br_blob_id r) = Some body
     \<and> int (length body) = br_size_bytes r \<and> br_sha256 r = Some (sha body)"
  by (auto simp: open_verified_def split: option.splits)

text \<open>
  C26. The reading loop ends for every chunk size and returns the whole file, and a read serves
  exactly published bytes: it succeeds only for the owner of a published, unexpired blob whose file has the recorded
  size and digest, and it leaves no lease that was not there before.
\<close>

theorem read_all_correct:
  assumes "read_all sha s bid owner holder now = (s', Inr bytes)" and "0 < bs_chunk_size s"
  shows "\<exists>r. blob_get (bs_md s) bid = Some r \<and> br_owner r = owner \<and> br_state r = PUBLISHED
     \<and> (\<forall>t. br_expires_at r = Some t \<longrightarrow> now < t) \<and> int (length bytes) = br_size_bytes r \<and> br_sha256 r = Some (sha bytes)
     \<and> dget (bs_files s) (owner, br_blob_id r) = Some bytes
     \<and> set (md_leases (bs_md s')) = set (md_leases (bs_md s)) - {(bid, holder)}"
proof -
  from assms(1) obtain s1 r body where o: "lease_open sha s bid owner holder now = (s1, Inr (r, body))"
    and s': "s' = lease_close s1 bid holder" and b: "bytes = concat (read_blocks body (bs_chunk_size s) 0)"
    by (auto simp: read_all_def split: prod.splits sum.splits)
  have bytes: "bytes = body" using b read_blocks_all [OF assms(2), of body 0] by simp
  from o have r: "blob_get (bs_md s) bid = Some r" "br_owner r = owner" "br_state r = PUBLISHED"
    "\<not> (case br_expires_at r of None \<Rightarrow> False | Some t \<Rightarrow> now \<ge> t)" "open_verified sha s r = (s, Inr body)"
    "s1 = s\<lparr>bs_md := fst (acquire_lease (bs_md s) bid holder)\<rparr>"
    by (auto simp: lease_open_def open_verified_Inr split: sum.splits option.splits if_splits prod.splits)
  have "set (md_leases (bs_md s')) = set (md_leases (bs_md s)) - {(bid, holder)}"
    using r by (auto simp: s' lease_close_def with_md_def release_lease_def acquire_lease_def add_lease_def)
  with r bytes show ?thesis by (auto simp: open_verified_Inr split: option.splits)
qed

section \<open>Recovery resolves every store\<close>

definition rows_wf :: "BlobStore \<Rightarrow> bool" where
  "rows_wf s \<longleftrightarrow> distinct (dkeys (md_rows (bs_md s))) \<and> list_all row_ok (md_rows (bs_md s))"

abbreviation row_of :: "BlobStore \<Rightarrow> string \<Rightarrow> BlobRecord option" where
  "row_of s bid \<equiv> blob_get (bs_md s) bid"

definition unfinished :: "BlobRecord \<Rightarrow> bool" where
  "unfinished r \<longleftrightarrow> br_state r = RESERVED \<or> br_state r = STAGING"

named_theorems store_simps "how the helpers of the store act on rows and files"

lemma with_md_simps [simp, store_simps]:
  "bs_md (with_md f s) = f (bs_md s)" "bs_files (with_md f s) = bs_files s" "bs_staging (with_md f s) = bs_staging s"
  by (simp_all add: with_md_def)

lemma remove_simps [simp, store_simps]:
  "bs_md (remove_staging s bid) = bs_md s" "bs_files (remove_staging s bid) = bs_files s"
  "bs_staging (remove_staging s bid) = ddel bid (bs_staging s)"
  "bs_md (remove_published s owner bid) = bs_md s" "bs_files (remove_published s owner bid) = ddel (owner, bid) (bs_files s)"
  "bs_staging (remove_published s owner bid) = bs_staging s"
  by (simp_all add: remove_staging_def remove_published_def)

lemma clear_simps [simp, store_simps]:
  "row_of (clear_row_journal bid s) b = row_of s b" "bs_files (clear_row_journal bid s) = bs_files s"
  "bs_staging (clear_row_journal bid s) = bs_staging s" "rows_wf (clear_row_journal bid s) = rows_wf s"
  "md_rows (bs_md (clear_row_journal bid s)) = md_rows (bs_md s)"
  "journal_entry (bs_md (clear_row_journal bid s)) b = (if b = bid then None else journal_entry (bs_md s) b)"
  by (simp_all add: clear_row_journal_def clear_journal_def blob_get_def rows_wf_def journal_entry_def)

lemma row_of_id: "rows_wf s \<Longrightarrow> row_of s bid = Some r \<Longrightarrow> br_blob_id r = bid"
  by (auto simp: rows_wf_def blob_get_def list_all_iff row_ok_def dest!: dget_in_set)

lemma rows_wf_upd:
  assumes "rows_wf s" and "\<And>r. row_of s bid = Some r \<Longrightarrow> row_ok (bid, r) \<Longrightarrow> cond r \<Longrightarrow> row_ok (bid, f r)"
  shows "rows_wf (s\<lparr>bs_md := upd_row bid cond f (bs_md s)\<rparr>)"
proof -
  have "row_ok (bid, f r)" if "(bid, r) \<in> set (md_rows (bs_md s))" "cond r" for r
    using that assms by (auto simp: rows_wf_def blob_get_def list_all_iff)
  then show ?thesis using assms(1) by (auto simp: rows_wf_def upd_row_def dmodify_def list_all_iff split_def comp_def)
qed

lemma open_verified_Inl:
  assumes "open_verified sha s r = (s', Inl e)"
  shows "\<not> verified sha s r" "s' = s \<or> s' = s\<lparr>bs_md := mark_corrupt (bs_md s) (br_blob_id r)\<rparr>"
  using assms by (auto simp: open_verified_def verified_def split: option.splits if_splits)

lemma drop_unreadable_simps:
  assumes "s' = s \<or> s' = s\<lparr>bs_md := mark_corrupt (bs_md s) bid\<rparr>" and "rows_wf s"
  shows "rows_wf (drop_unreadable bid now s')" "bs_files (drop_unreadable bid now s') = bs_files s"
    "bs_staging (drop_unreadable bid now s') = bs_staging s"
    "b \<noteq> bid \<Longrightarrow> row_of (drop_unreadable bid now s') b = row_of s b"
    "row_of (drop_unreadable bid now s') bid = Some r \<Longrightarrow> br_state r = DELETED"
proof -
  have wf: "rows_wf s'"
    using assms rows_wf_upd [of s bid "\<lambda>r. br_state r = PUBLISHED" "\<lambda>r. r\<lparr>br_state := CORRUPT\<rparr>"]
    by (auto simp: mark_corrupt_def row_ok_def)
  have "rows_wf (s'\<lparr>bs_md := release_missing (bs_md s') bid now True\<rparr>)"
    unfolding release_missing_def by (rule rows_wf_upd [OF wf]) (simp add: row_ok_def)
  then show "rows_wf (drop_unreadable bid now s')" by (simp add: drop_unreadable_def with_md_def)
qed (use assms in \<open>auto simp: drop_unreadable_def release_missing_def mark_corrupt_def\<close>)

text \<open>One turn of the first loop.\<close>

definition recover_one :: "(string \<Rightarrow> string) \<Rightarrow> time \<Rightarrow> string \<Rightarrow> BlobStore \<Rightarrow> BlobStore" where
  "recover_one sha now bid s =
     (case row_of s bid of
        None \<Rightarrow> s
      | Some r \<Rightarrow> (case open_verified sha s r of
            (s1, Inl e) \<Rightarrow> drop_unreadable bid now s1 | (s1, Inr body) \<Rightarrow> clear_row_journal bid s1))"

lemma recover_published_fold: "fst (recover_published sha now bids s) = fold (recover_one sha now) bids s"
proof (induction bids arbitrary: s)
  case (Cons bid bids)
  show ?case
  proof (cases "row_of s bid")
    case None
    then show ?thesis using Cons.IH [of s] by (simp add: recover_one_def)
  next
    case (Some r)
    obtain s1 res where ov: "open_verified sha s r = (s1, res)" by fastforce
    have "recover_one sha now bid s = (case res of Inl e \<Rightarrow> drop_unreadable bid now s1 | Inr body \<Rightarrow> clear_row_journal bid s1)"
      by (simp add: recover_one_def Some ov)
    then show ?thesis using Cons.IH by (cases res) (simp_all add: Some ov case_prod_beta Let_def)
  qed
qed simp

lemma recover_one_wf: "rows_wf s \<Longrightarrow> rows_wf (recover_one sha now bid s)"
  and recover_one_files: "rows_wf s \<Longrightarrow> bs_files (recover_one sha now bid s) = bs_files s"
  and recover_one_staging: "rows_wf s \<Longrightarrow> bs_staging (recover_one sha now bid s) = bs_staging s"
  and recover_one_other: "rows_wf s \<Longrightarrow> b \<noteq> bid \<Longrightarrow> row_of (recover_one sha now bid s) b = row_of s b"
  and recover_one_verified: "rows_wf s \<Longrightarrow> row_of s bid = Some r \<Longrightarrow> verified sha s r \<Longrightarrow> row_of (recover_one sha now bid s) bid = Some r"
  and recover_one_broken: "rows_wf s \<Longrightarrow> row_of (recover_one sha now bid s) bid = Some r' \<Longrightarrow>
     br_state r' = DELETED \<or> row_of s bid = Some r' \<and> verified sha s r'"
proof -
  assume wf: "rows_wf s"
  have "rows_wf (recover_one sha now bid s) \<and> bs_files (recover_one sha now bid s) = bs_files s
    \<and> bs_staging (recover_one sha now bid s) = bs_staging s
    \<and> (\<forall>b. b \<noteq> bid \<longrightarrow> row_of (recover_one sha now bid s) b = row_of s b)
    \<and> (\<forall>r. row_of s bid = Some r \<longrightarrow> verified sha s r \<longrightarrow> row_of (recover_one sha now bid s) bid = Some r)
    \<and> (\<forall>r'. row_of (recover_one sha now bid s) bid = Some r' \<longrightarrow> br_state r' = DELETED \<or> row_of s bid = Some r' \<and> verified sha s r')"
  proof (cases "row_of s bid")
    case None
    then show ?thesis using wf by (simp add: recover_one_def)
  next
    case (Some r)
    have rid: "br_blob_id r = bid" using wf Some by (rule row_of_id)
    obtain s1 res where ov: "open_verified sha s r = (s1, res)" by fastforce
    show ?thesis
    proof (cases res)
      case (Inl e)
      have c: "s1 = s \<or> s1 = s\<lparr>bs_md := mark_corrupt (bs_md s) bid\<rparr>" and nv: "\<not> verified sha s r"
        using open_verified_Inl [of sha s r s1 e] ov Inl rid by auto
      have one: "recover_one sha now bid s = drop_unreadable bid now s1" by (simp add: recover_one_def Some ov Inl)
      show ?thesis unfolding one using drop_unreadable_simps [OF c wf] nv Some by simp
    next
      case (Inr body)
      have "s1 = s" and v: "verified sha s r" using ov Inr by (auto simp: open_verified_Inr verified_def)
      then have one: "recover_one sha now bid s = clear_row_journal bid s" by (simp add: recover_one_def Some ov Inr)
      show ?thesis unfolding one using v Some wf by simp
    qed
  qed
  then show "rows_wf (recover_one sha now bid s)" "bs_files (recover_one sha now bid s) = bs_files s"
    "bs_staging (recover_one sha now bid s) = bs_staging s" "b \<noteq> bid \<Longrightarrow> row_of (recover_one sha now bid s) b = row_of s b"
    "row_of s bid = Some r \<Longrightarrow> verified sha s r \<Longrightarrow> row_of (recover_one sha now bid s) bid = Some r"
    "row_of (recover_one sha now bid s) bid = Some r' \<Longrightarrow> br_state r' = DELETED \<or> row_of s bid = Some r' \<and> verified sha s r'"
    by blast+
qed

lemma verified_cong: "bs_files s' = bs_files s \<Longrightarrow> verified sha s' r = verified sha s r"
  by (simp add: verified_def)

lemma recover_fold_frame:
  "rows_wf s \<Longrightarrow> rows_wf (fold (recover_one sha now) bids s) \<and> bs_files (fold (recover_one sha now) bids s) = bs_files s
     \<and> bs_staging (fold (recover_one sha now) bids s) = bs_staging s"
  by (induction bids arbitrary: s) (simp_all add: recover_one_wf recover_one_files recover_one_staging)

lemma recover_fold_verified:
  "rows_wf s \<Longrightarrow> row_of s b = Some r \<Longrightarrow> b \<in> set bids \<longrightarrow> verified sha s r \<Longrightarrow> row_of (fold (recover_one sha now) bids s) b = Some r"
proof (induction bids arbitrary: s)
  case (Cons bid bids)
  let ?s = "recover_one sha now bid s"
  have "row_of ?s b = Some r"
    using Cons.prems by (cases "b = bid") (simp_all add: recover_one_other recover_one_verified)
  moreover have "verified sha ?s r = verified sha s r" by (rule verified_cong) (rule recover_one_files [OF Cons.prems(1)])
  ultimately show ?case using Cons.IH [OF recover_one_wf [OF Cons.prems(1)]] Cons.prems(3) by simp
qed simp

lemma recover_fold_broken:
  "rows_wf s \<Longrightarrow> row_of (fold (recover_one sha now) bids s) b = Some r' \<Longrightarrow>
     br_state r' = DELETED \<or> row_of s b = Some r' \<and> (b \<in> set bids \<longrightarrow> verified sha s r')"
proof (induction bids arbitrary: s)
  case (Cons bid bids)
  let ?s = "recover_one sha now bid s"
  have wf: "rows_wf ?s" by (rule recover_one_wf [OF Cons.prems(1)])
  have "br_state r' = DELETED \<or> row_of ?s b = Some r' \<and> (b \<in> set bids \<longrightarrow> verified sha ?s r')"
    using Cons.IH [OF wf] Cons.prems(2) by simp
  moreover have "verified sha ?s r' = verified sha s r'" by (rule verified_cong) (rule recover_one_files [OF Cons.prems(1)])
  ultimately show ?case
    using recover_one_other [OF Cons.prems(1), of b bid sha now] recover_one_broken [OF Cons.prems(1), of sha now bid r']
    by (cases "b = bid") auto
qed simp

text \<open>One turn of the second loop, and what it decides.\<close>

definition resolve_one :: "(string \<Rightarrow> string) \<Rightarrow> time \<Rightarrow> BlobRecord \<Rightarrow> BlobStore \<Rightarrow> BlobStore result" where
  "resolve_one sha now r s =
     rbind (case pending_entry s (br_blob_id r) of None \<Rightarrow> Inr None | Some e \<Rightarrow> complete_pending_publish sha s r e now) (\<lambda>c.
     Inr (case c of Some s1 \<Rightarrow> clear_row_journal (br_blob_id r) s1 | None \<Rightarrow> purge_unfinished r s))"

definition completes :: "(string \<Rightarrow> string) \<Rightarrow> BlobStore \<Rightarrow> BlobRecord \<Rightarrow> bool" where
  "completes sha s r \<longleftrightarrow> (\<exists>e body. pending_entry s (br_blob_id r) = Some e
     \<and> dget (bs_files s) (br_owner r, br_blob_id r) = Some body \<and> je_sha256 e = Some (sha body) \<and> int (length body) = je_size_bytes e)"

text \<open>A resolved row: gone with its file, or published over a file that matches it.\<close>

definition resolved :: "(string \<Rightarrow> string) \<Rightarrow> BlobStore \<Rightarrow> BlobRecord \<Rightarrow> bool \<Rightarrow> bool" where
  "resolved sha s r c \<longleftrightarrow>
     (if c then \<exists>r'. row_of s (br_blob_id r) = Some r' \<and> br_state r' = PUBLISHED \<and> br_owner r' = br_owner r \<and> verified sha s r'
      else row_of s (br_blob_id r) = None \<and> dget (bs_files s) (br_owner r, br_blob_id r) = None)"

definition shrunk :: "('k, 'v) dict \<Rightarrow> ('k, 'v) dict \<Rightarrow> bool" where
  "shrunk d d' \<longleftrightarrow> dget d' \<subseteq>\<^sub>m dget d"

lemma shrunk_simps [simp]: "shrunk d d" "shrunk d (ddel k d)"
  by (auto simp: shrunk_def map_le_def dom_def)

lemma shrunk_trans: "shrunk d d' \<Longrightarrow> shrunk d' d'' \<Longrightarrow> shrunk d d''"
  unfolding shrunk_def by (rule map_le_trans)

lemma shrunkD: "shrunk d d' \<Longrightarrow> dget d' k = Some v \<Longrightarrow> dget d k = Some v"
  unfolding shrunk_def map_le_def by (metis domI)

definition frame :: "BlobStore \<Rightarrow> string set \<Rightarrow> BlobStore \<Rightarrow> bool" where
  "frame s bids s' \<longleftrightarrow> (\<forall>b. b \<notin> bids \<longrightarrow> row_of s' b = row_of s b \<and> journal_entry (bs_md s') b = journal_entry (bs_md s) b
     \<and> (\<forall>owner. dget (bs_files s') (owner, b) = dget (bs_files s) (owner, b)))
     \<and> shrunk (bs_files s) (bs_files s')"

lemma row_of_abort:
  "rows_wf s \<Longrightarrow> row_of (abort_row bid s) b = (if b = bid then (case row_of s b of None \<Rightarrow> None | Some r \<Rightarrow> if unfinished r then None else Some r)
     else row_of s b)"
  unfolding abort_row_def with_md_simps blob_abort_def
  by (subst blob_get_filter) (auto simp: rows_wf_def unfinished_def split: option.splits)

lemma abort_row_simps [simp, store_simps]:
  "bs_files (abort_row bid s) = bs_files s" "bs_staging (abort_row bid s) = bs_staging s"
  "journal_entry (bs_md (abort_row bid s)) b = journal_entry (bs_md s) b" "rows_wf s \<Longrightarrow> rows_wf (abort_row bid s)"
  by (auto simp: abort_row_def blob_abort_def journal_entry_def rows_wf_def distinct_map_filter list_all_iff)

lemma rows_wf_remove [simp, store_simps]:
  "rows_wf (remove_staging s bid) = rows_wf s" "rows_wf (remove_published s owner bid) = rows_wf s"
  by (simp_all add: rows_wf_def)

lemma purge_unfinished_spec:
  assumes wf: "rows_wf s" and r: "row_of s (br_blob_id r) = Some r" "unfinished r"
  shows "rows_wf (purge_unfinished r s)" "frame s {br_blob_id r} (purge_unfinished r s)" "resolved sha (purge_unfinished r s) r False"
  using assms
  by (simp_all add: purge_unfinished_def Let_def frame_def resolved_def row_of_abort)

definition as_published :: "string \<Rightarrow> int \<Rightarrow> time \<Rightarrow> BlobRecord \<Rightarrow> BlobRecord" where
  "as_published h n t r = r\<lparr>br_state := PUBLISHED, br_sha256 := Some h, br_size_bytes := n, br_expires_at := Some t\<rparr>"

lemma blob_publish_unfinished:
  assumes "blob_get md bid = Some r" and "unfinished r"
  shows "blob_publish md bid h n now ret =
    Inr (upd_row bid unfinished (as_published h n (now + (case ret of None \<Rightarrow> retention_seconds md | Some t \<Rightarrow> t))) md,
         as_published h n (now + (case ret of None \<Rightarrow> retention_seconds md | Some t \<Rightarrow> t)) r)"
  using assms
  by (simp add: blob_publish_def require_row_def Let_def as_published_def [abs_def] unfinished_def [abs_def])

lemma complete_publish_spec:
  assumes wf: "rows_wf s" and r: "row_of s (br_blob_id r) = Some r" "unfinished r" and c: "completes sha s r"
  obtains s1 e where "pending_entry s (br_blob_id r) = Some e" "complete_pending_publish sha s r e now = Inr (Some s1)"
    "rows_wf s1" "frame s {br_blob_id r} s1" "resolved sha s1 r True" "bs_files s1 = bs_files s"
proof -
  let ?bid = "br_blob_id r"
  from c obtain e body where e: "pending_entry s ?bid = Some e" and f: "dget (bs_files s) (br_owner r, ?bid) = Some body"
    and m: "je_sha256 e = Some (sha body)" "int (length body) = je_size_bytes e" unfolding completes_def by blast
  let ?g = "as_published (sha body) (int (length body)) (now + retention_seconds (bs_md s))"
  let ?md = "upd_row ?bid unfinished ?g (bs_md s)"
  have row: "blob_get ?md ?bid = Some (?g r)" using r by simp
  have "complete_pending_publish sha s r e now = Inr (Some (remove_staging (s\<lparr>bs_md := ?md\<rparr>) ?bid))"
    using f m by (simp add: complete_pending_publish_def blob_publish_unfinished [OF r])
  moreover have "rows_wf (remove_staging (s\<lparr>bs_md := ?md\<rparr>) ?bid)"
    unfolding rows_wf_remove by (rule rows_wf_upd [OF wf]) (simp add: row_ok_def as_published_def)
  moreover have "frame s {?bid} (remove_staging (s\<lparr>bs_md := ?md\<rparr>) ?bid)" by (auto simp: frame_def journal_entry_def upd_row_def blob_get_def)
  moreover have "resolved sha (remove_staging (s\<lparr>bs_md := ?md\<rparr>) ?bid) r True"
    using row f by (simp add: resolved_def verified_def del: blob_get_upd_row) (simp add: as_published_def)
  ultimately show ?thesis using e that by simp
qed

lemma resolve_one_spec:
  assumes wf: "rows_wf s" and r: "row_of s (br_blob_id r) = Some r" "unfinished r"
  obtains s' where "resolve_one sha now r s = Inr s'" "rows_wf s'" "frame s {br_blob_id r} s'" "resolved sha s' r (completes sha s r)"
proof (cases "completes sha s r")
  case True
  from complete_publish_spec [OF wf r True, of now] obtain s1 e where s1: "pending_entry s (br_blob_id r) = Some e"
    "complete_pending_publish sha s r e now = Inr (Some s1)" "rows_wf s1" "frame s {br_blob_id r} s1" "resolved sha s1 r True"
    "bs_files s1 = bs_files s" by metis
  have "resolve_one sha now r s = Inr (clear_row_journal (br_blob_id r) s1)" by (simp add: resolve_one_def s1)
  moreover have "frame s {br_blob_id r} (clear_row_journal (br_blob_id r) s1)" using s1(4) by (simp add: frame_def)
  moreover have "resolved sha (clear_row_journal (br_blob_id r) s1) r True" using s1(5) by (simp add: resolved_def verified_def)
  ultimately show ?thesis using that s1(3) True by simp
next
  case False
  have "(case pending_entry s (br_blob_id r) of None \<Rightarrow> Inr None | Some e \<Rightarrow> complete_pending_publish sha s r e now) = Inr None"
    using False by (auto simp: completes_def complete_pending_publish_def split: option.splits)
  then have "resolve_one sha now r s = Inr (purge_unfinished r s)" by (simp add: resolve_one_def)
  with that purge_unfinished_spec [OF assms] False show ?thesis by simp
qed

lemma recover_unfinished_each:
  "each (resolve_one sha now) rs s = Inr s' \<Longrightarrow> \<exists>ok gone. recover_unfinished sha now rs s = Inr (s', ok, gone)"
proof (induction rs arbitrary: s)
  case (Cons r rs)
  then obtain s1 where s1: "resolve_one sha now r s = Inr s1" "each (resolve_one sha now) rs s1 = Inr s'" by auto
  from Cons.IH [OF s1(2)] obtain ok gone where rest: "recover_unfinished sha now rs s1 = Inr (s', ok, gone)" by blast
  from s1(1) obtain c where c: "(case pending_entry s (br_blob_id r) of None \<Rightarrow> Inr None | Some e \<Rightarrow> complete_pending_publish sha s r e now) = Inr c"
    and "s1 = (case c of Some s2 \<Rightarrow> clear_row_journal (br_blob_id r) s2 | None \<Rightarrow> purge_unfinished r s)"
    by (auto simp: resolve_one_def)
  with rest show ?case by (cases c) simp_all
qed simp

lemma frame_completes: "frame s {bid} s1 \<Longrightarrow> br_blob_id r \<noteq> bid \<Longrightarrow> completes sha s1 r = completes sha s r"
  by (simp add: frame_def completes_def pending_entry_def)

lemma frame_resolved:
  assumes "frame s bids s'" and "br_blob_id r \<notin> bids" and "rows_wf s" and "resolved sha s r c"
  shows "resolved sha s' r c"
proof -
  have same: "row_of s' (br_blob_id r) = row_of s (br_blob_id r)"
    "dget (bs_files s') (owner, br_blob_id r) = dget (bs_files s) (owner, br_blob_id r)" for owner
    using assms(1,2) by (auto simp: frame_def)
  show ?thesis using assms(4) row_of_id [OF assms(3)] unfolding resolved_def by (auto simp: same verified_def split: if_splits)
qed

lemma frame_trans: "frame s a t \<Longrightarrow> frame t b u \<Longrightarrow> frame s (a \<union> b) u"
  using shrunk_trans by (auto simp: frame_def)

lemma resolve_all_spec:
  "rows_wf s \<Longrightarrow> \<forall>r \<in> set rs. row_of s (br_blob_id r) = Some r \<and> unfinished r \<Longrightarrow> distinct (map br_blob_id rs) \<Longrightarrow>
   \<exists>s'. each (resolve_one sha now) rs s = Inr s' \<and> rows_wf s' \<and> frame s (br_blob_id ` set rs) s'
     \<and> (\<forall>r \<in> set rs. resolved sha s' r (completes sha s r))"
proof (induction rs arbitrary: s)
  case Nil
  then show ?case by (simp add: frame_def)
next
  case (Cons r rs)
  from Cons.prems(2) have r: "row_of s (br_blob_id r) = Some r" "unfinished r" by auto
  from resolve_one_spec [OF Cons.prems(1) r, of sha now] obtain s1 where s1: "resolve_one sha now r s = Inr s1" "rows_wf s1"
    "frame s {br_blob_id r} s1" "resolved sha s1 r (completes sha s r)" by metis
  have other: "br_blob_id q \<noteq> br_blob_id r" if "q \<in> set rs" for q
    using Cons.prems(3) imageI [OF that, of br_blob_id] by auto
  have rows: "\<forall>q \<in> set rs. row_of s1 (br_blob_id q) = Some q \<and> unfinished q"
    using Cons.prems(2) other s1(3) by (simp add: frame_def)
  from Cons.IH [OF s1(2) rows] Cons.prems(3) obtain s' where s': "each (resolve_one sha now) rs s1 = Inr s'" "rows_wf s'"
    "frame s1 (br_blob_id ` set rs) s'" "\<forall>q \<in> set rs. resolved sha s' q (completes sha s1 q)" by auto
  have "resolved sha s' r (completes sha s r)"
    by (rule frame_resolved [OF s'(3) _ s1(2,4)]) (use Cons.prems(3) in simp)
  moreover have "\<forall>q \<in> set rs. resolved sha s' q (completes sha s q)"
    using s'(4) frame_completes [OF s1(3)] other by simp
  moreover have "frame s (br_blob_id ` set (r # rs)) s'" using frame_trans [OF s1(3) s'(3)] by simp
  ultimately show ?case using s1(1) s'(1,2) by simp
qed

lemma unfinished_rows_spec:
  assumes "rows_wf s"
  shows "r \<in> set (unfinished_rows (bs_md s)) \<longleftrightarrow> row_of s (br_blob_id r) = Some r \<and> unfinished r"
    and "distinct (map br_blob_id (unfinished_rows (bs_md s)))"
proof -
  let ?rows = "md_rows (bs_md s)"
  have ids: "k = br_blob_id r" if "(k, r) \<in> set ?rows" for k r
    using that assms by (auto simp: rows_wf_def list_all_iff row_ok_def)
  have mem: "(k, r) \<in> set ?rows \<longleftrightarrow> row_of s k = Some r" for k r
    using assms by (simp add: rows_wf_def blob_get_def dget_iff_mem)
  show "r \<in> set (unfinished_rows (bs_md s)) \<longleftrightarrow> row_of s (br_blob_id r) = Some r \<and> unfinished r"
  proof -
    have "r \<in> set (dvals ?rows) \<longleftrightarrow> (\<exists>k. (k, r) \<in> set ?rows)" by (auto intro: rev_image_eqI)
    also have "\<dots> \<longleftrightarrow> (br_blob_id r, r) \<in> set ?rows" using ids by blast
    finally show ?thesis by (simp add: unfinished_rows_def unfinished_def mem)
  qed
  have "map br_blob_id (dvals ?rows) = dkeys ?rows" using ids by (auto intro!: map_cong)
  moreover have "distinct (dkeys ?rows)" using assms by (simp add: rows_wf_def)
  ultimately have "distinct (map br_blob_id (dvals ?rows))" by metis
  then show "distinct (map br_blob_id (unfinished_rows (bs_md s)))"
    unfolding unfinished_rows_def by (rule distinct_map_filter)
qed

lemma sweep_spec:
  "fold (\<lambda>bid s. remove_staging s bid) bids s = s\<lparr>bs_staging := fold ddel bids (bs_staging s)\<rparr>"
  by (induction bids arbitrary: s) (simp_all add: remove_staging_def)

lemma fold_ddel_keys: "set (dkeys (fold ddel bids d)) = set (dkeys d) - set bids"
  by (induction bids arbitrary: d) auto

lemma sweep_staging: "bs_staging (fst (sweep_orphan_staging s)) = []"
proof -
  have "set (dkeys (fold ddel (dkeys (bs_staging s)) (bs_staging s))) = {}" unfolding fold_ddel_keys by simp
  then have "fold ddel (dkeys (bs_staging s)) (bs_staging s) = []" by (simp only: set_empty map_is_Nil_conv)
  then show ?thesis by (simp add: sweep_orphan_staging_def sweep_spec)
qed

text \<open>What recovery does, row by row: \<open>s1\<close> is the store after the first loop.\<close>

lemma recover_store_spec:
  assumes wf: "rows_wf s"
  obtains s1 s' rep where "recover_store sha s run boot now = Inr (s', rep)"
    "s1 = fold (recover_one sha now) (verify_all (bs_md s)) s" "rows_wf s1" "bs_files s1 = bs_files s"
    "bs_staging s' = []" "rows_wf s'" "frame s1 (br_blob_id ` set (unfinished_rows (bs_md s1))) s'"
    "\<forall>r \<in> set (unfinished_rows (bs_md s1)). resolved sha s' r (completes sha s1 r)"
proof -
  define s1 where "s1 = fold (recover_one sha now) (verify_all (bs_md s)) s"
  obtain ok1 bad where p1: "recover_published sha now (verify_all (bs_md s)) s = (s1, ok1, bad)"
    using recover_published_fold [of sha now "verify_all (bs_md s)" s] unfolding s1_def by (metis prod.collapse)
  have wf1: "rows_wf s1" "bs_files s1 = bs_files s" using recover_fold_frame [OF wf] by (simp_all add: s1_def)
  let ?rs = "unfinished_rows (bs_md s1)"
  obtain s2 where s2: "each (resolve_one sha now) ?rs s1 = Inr s2" "rows_wf s2" "frame s1 (br_blob_id ` set ?rs) s2"
    "\<forall>r \<in> set ?rs. resolved sha s2 r (completes sha s1 r)"
    using resolve_all_spec [OF wf1(1), of ?rs sha now] unfinished_rows_spec [OF wf1(1)] by blast
  from recover_unfinished_each [OF s2(1)] obtain ok2 gone where p2: "recover_unfinished sha now ?rs s1 = Inr (s2, ok2, gone)" by blast
  obtain s3 orphans where p3: "sweep_orphan_staging s2 = (s3, orphans)" by fastforce
  define md4 where "md4 = fst (if run then protect_all_published (bs_md s3) (restart_holder boot) else (bs_md s3, []))"
  obtain rep where rep: "recover_store sha s run boot now = Inr (s3\<lparr>bs_md := md4\<rparr>, rep)"
    by (simp add: recover_store_def p1 p2 p3 md4_def case_prod_beta)
  have s3: "s3 = s2\<lparr>bs_staging := []\<rparr>"
    using sweep_staging [of s2] p3 sweep_spec [of "dkeys (bs_staging s2)" s2] by (simp add: sweep_orphan_staging_def)
  have md4: "md_rows md4 = md_rows (bs_md s2)" "md_journal md4 = md_journal (bs_md s2)"
  proof -
    have "md_journal (fold (\<lambda>b. add_lease b h) bs md) = md_journal md" for bs h md
      by (induction bs arbitrary: md) (simp_all add: add_lease_def)
    then show "md_rows md4 = md_rows (bs_md s2)" "md_journal md4 = md_journal (bs_md s2)"
      by (simp_all add: md4_def s3 protect_all_published_def)
  qed
  have same: "row_of (s3\<lparr>bs_md := md4\<rparr>) b = row_of s2 b" "bs_files (s3\<lparr>bs_md := md4\<rparr>) = bs_files s2" for b
    by (simp_all add: blob_get_def md4(1) s3)
  have "rows_wf (s3\<lparr>bs_md := md4\<rparr>)" using s2(2) by (simp add: rows_wf_def md4(1))
  moreover have "frame s1 (br_blob_id ` set ?rs) (s3\<lparr>bs_md := md4\<rparr>)"
    using s2(3) unfolding frame_def same by (simp add: journal_entry_def md4(2))
  moreover have "\<forall>r \<in> set ?rs. resolved sha (s3\<lparr>bs_md := md4\<rparr>) r (completes sha s1 r)"
    using s2(4) unfolding resolved_def verified_def same .
  moreover have "bs_staging (s3\<lparr>bs_md := md4\<rparr>) = []" by (simp add: s3)
  ultimately show ?thesis using that [OF rep s1_def wf1] by simp
qed

lemma verify_all_iff: "rows_wf s \<Longrightarrow> b \<in> set (verify_all (bs_md s)) \<longleftrightarrow> (\<exists>r. row_of s b = Some r \<and> br_state r = PUBLISHED)"
  by (force simp: verify_all_def blob_get_def rows_wf_def dget_iff_mem)

text \<open>
  C23. Recovery resolves every store, whatever crash left it: it always completes, afterwards no row
  is reserved or staging, no staging file is left, and every published row has a file of the recorded
  size and digest.
\<close>

theorem recovery_resolves_every_store:
  assumes "rows_wf s"
  shows "\<exists>s' rep. recover_store sha s run boot now = Inr (s', rep) \<and> unfinished_rows (bs_md s') = [] \<and> bs_staging s' = []
     \<and> (\<forall>b r. row_of s' b = Some r \<longrightarrow> br_state r = PUBLISHED \<longrightarrow> verified sha s' r)"
proof -
  from recover_store_spec [OF assms, of sha run boot now] obtain s1 s' rep
    where r: "recover_store sha s run boot now = Inr (s', rep)" "s1 = fold (recover_one sha now) (verify_all (bs_md s)) s"
      "rows_wf s1" "bs_files s1 = bs_files s" "bs_staging s' = []" "rows_wf s'"
      "frame s1 (br_blob_id ` set (unfinished_rows (bs_md s1))) s'"
      "\<forall>r \<in> set (unfinished_rows (bs_md s1)). resolved sha s' r (completes sha s1 r)" .
  let ?ids = "br_blob_id ` set (unfinished_rows (bs_md s1))"
  have row: "\<not> unfinished x \<and> (br_state x = PUBLISHED \<longrightarrow> verified sha s' x)" if x: "row_of s' b = Some x" for b x
  proof (cases "b \<in> ?ids")
    case True
    then obtain q where q: "q \<in> set (unfinished_rows (bs_md s1))" "br_blob_id q = b" by blast
    with r(8) have "resolved sha s' q (completes sha s1 q)" by blast
    with q(2) x show ?thesis by (auto simp: resolved_def unfinished_def split: if_splits)
  next
    case False
    have same: "row_of s1 b = Some x" "\<And>owner. dget (bs_files s') (owner, b) = dget (bs_files s1) (owner, b)"
      using r(7) False x by (auto simp: frame_def)
    have xb: "br_blob_id x = b" using row_of_id [OF r(3) same(1)] .
    have "\<not> unfinished x"
    proof
      assume "unfinished x"
      then have "x \<in> set (unfinished_rows (bs_md s1))" using unfinished_rows_spec(1) [OF r(3), of x] same(1) xb by simp
      then show False using False xb by blast
    qed
    moreover have "verified sha s1 x" if "br_state x = PUBLISHED"
      using recover_fold_broken [OF assms same(1) [unfolded r(2)]] verify_all_iff [OF assms, of b] that verified_cong [OF r(4)] by auto
    ultimately show ?thesis using same(2) xb by (simp add: verified_def)
  qed
  have "unfinished_rows (bs_md s') = []"
  proof (rule ccontr)
    assume "unfinished_rows (bs_md s') \<noteq> []"
    then obtain x where "x \<in> set (unfinished_rows (bs_md s'))" by (cases "unfinished_rows (bs_md s')") auto
    then show False using unfinished_rows_spec(1) [OF r(6), of x] row by blast
  qed
  then show ?thesis using r(1,5) row by blast
qed

section \<open>Uploads are atomic under crashes\<close>

lemma recover_fold_other: "rows_wf s \<Longrightarrow> b \<notin> set bids \<Longrightarrow> row_of (fold (recover_one sha now) bids s) b = row_of s b"
  by (induction bids arbitrary: s) (simp_all add: recover_one_wf recover_one_other)

text \<open>The states of one blob that an upload of \<open>body\<close> passes through.\<close>

definition whole :: "(string \<Rightarrow> string) \<Rightarrow> BlobStore \<Rightarrow> string \<Rightarrow> string \<Rightarrow> string \<Rightarrow> bool" where
  "whole sha s bid owner body \<longleftrightarrow> (\<exists>r. row_of s bid = Some r \<and> br_state r = PUBLISHED \<and> br_owner r = owner \<and> verified sha s r
     \<and> dget (bs_files s) (owner, bid) = Some body)"

definition absent :: "BlobStore \<Rightarrow> string \<Rightarrow> string \<Rightarrow> bool" where
  "absent s bid owner \<longleftrightarrow> row_of s bid = None \<and> dget (bs_files s) (owner, bid) = None"

definition in_progress :: "BlobStore \<Rightarrow> string \<Rightarrow> string \<Rightarrow> string \<Rightarrow> bool" where
  "in_progress s bid owner body \<longleftrightarrow> (\<exists>r. row_of s bid = Some r \<and> unfinished r \<and> br_owner r = owner)
     \<and> (\<forall>b. dget (bs_files s) (owner, bid) = Some b \<longrightarrow> b = body)"

definition crash_ok :: "(string \<Rightarrow> string) \<Rightarrow> string \<Rightarrow> string \<Rightarrow> string \<Rightarrow> BlobStore \<Rightarrow> bool" where
  "crash_ok sha bid owner body s \<longleftrightarrow>
     rows_wf s \<and> (absent s bid owner \<or> in_progress s bid owner body \<or> whole sha s bid owner body)"

lemma recovery_of_crash:
  assumes c: "crash_ok sha bid owner body s" and rec: "recover_store sha s run boot now = Inr (t, rep)"
  shows "absent t bid owner \<or> whole sha t bid owner body"
proof -
  have wf: "rows_wf s" using c by (simp add: crash_ok_def)
  from recover_store_spec [OF wf, of sha run boot now] rec obtain s1
    where r: "s1 = fold (recover_one sha now) (verify_all (bs_md s)) s" "rows_wf s1" "bs_files s1 = bs_files s"
      "frame s1 (br_blob_id ` set (unfinished_rows (bs_md s1))) t"
      "\<forall>r \<in> set (unfinished_rows (bs_md s1)). resolved sha t r (completes sha s1 r)" by (metis Inr_inject prod.inject)
  have ids: "bid \<in> br_blob_id ` set (unfinished_rows (bs_md s1)) \<longleftrightarrow> (\<exists>x. row_of s1 bid = Some x \<and> unfinished x)"
    using unfinished_rows_spec(1) [OF r(2)] row_of_id [OF r(2)] by (metis (no_types, lifting) imageE image_eqI)
  have ver: "bid \<in> set (verify_all (bs_md s)) \<longleftrightarrow> (\<exists>x. row_of s bid = Some x \<and> br_state x = PUBLISHED)" by (rule verify_all_iff [OF wf])
  consider (a) "absent s bid owner" | (p) "in_progress s bid owner body" | (w) "whole sha s bid owner body"
    using c by (auto simp: crash_ok_def)
  then show ?thesis
  proof cases
    case a
    then have "row_of s1 bid = None" using ver recover_fold_other [OF wf] by (simp add: r(1) absent_def)
    then have "absent t bid owner" using ids r(3,4) a by (simp add: absent_def frame_def)
    then show ?thesis ..
  next
    case p
    then obtain x where x: "row_of s bid = Some x" "unfinished x" "br_owner x = owner" by (auto simp: in_progress_def)
    have x1: "row_of s1 bid = Some x" using ver x recover_fold_other [OF wf] by (auto simp: r(1) unfinished_def)
    have xb: "br_blob_id x = bid" using row_of_id [OF wf x(1)] .
    have res: "resolved sha t x (completes sha s1 x)"
      using r(5) unfinished_rows_spec(1) [OF r(2), of x] x1 x(2) xb by simp
    show ?thesis
    proof (cases "completes sha s1 x")
      case True
      then obtain x' where x': "row_of t bid = Some x'" "br_state x' = PUBLISHED" "br_owner x' = owner" "verified sha t x'"
        using res xb x(3) by (auto simp: resolved_def)
      obtain b where b: "dget (bs_files t) (br_owner x', br_blob_id x') = Some b" using x'(4) by (auto simp: verified_def)
      have "br_blob_id x' = bid"
        using recover_store_spec [OF wf, of sha run boot now] rec x'(1) row_of_id by (metis Inr_inject prod.inject)
      then have "dget (bs_files t) (owner, bid) = Some b" using b x'(3) by simp
      moreover from this have "b = body"
        using shrunkD [of "bs_files s1" "bs_files t"] r(3,4) p by (simp add: frame_def in_progress_def)
      ultimately show ?thesis using x' by (auto simp: whole_def)
    next
      case False
      then show ?thesis using res xb x(3) by (simp add: resolved_def absent_def)
    qed
  next
    case w
    then obtain x where x: "row_of s bid = Some x" "br_state x = PUBLISHED" "br_owner x = owner" "verified sha s x"
      "dget (bs_files s) (owner, bid) = Some body" by (auto simp: whole_def)
    have x1: "row_of s1 bid = Some x" unfolding r(1) by (rule recover_fold_verified [OF wf x(1)]) (simp add: x(4))
    have nid: "bid \<notin> br_blob_id ` set (unfinished_rows (bs_md s1))" using ids x1 x(2) by (auto simp: unfinished_def)
    have t: "row_of t bid = Some x" "dget (bs_files t) (owner, bid) = Some body"
      using r(3,4) nid x1 x(5) by (auto simp: frame_def)
    moreover have "verified sha t x" using x(3-5) t row_of_id [OF wf x(1)] by (auto simp: verified_def)
    ultimately show ?thesis using x(2,3) by (auto simp: whole_def)
  qed
qed

text \<open>A row that is being uploaded, and the file at its place.\<close>

definition staged :: "string \<Rightarrow> string \<Rightarrow> string option \<Rightarrow> BlobStore \<Rightarrow> bool" where
  "staged bid owner file s \<longleftrightarrow> rows_wf s \<and> (\<exists>r. row_of s bid = Some r \<and> unfinished r \<and> br_owner r = owner)
     \<and> dget (bs_files s) (owner, bid) = file"

lemma staged_crash_ok: "staged bid owner None s \<Longrightarrow> crash_ok sha bid owner body s" "staged bid owner (Some body) s \<Longrightarrow> crash_ok sha bid owner body s"
  by (auto simp: staged_def crash_ok_def in_progress_def)

lemma staged_put_journal [simp]: "staged bid owner f (put_journal b o' st h n now s) = staged bid owner f s"
  by (simp add: staged_def put_journal_def blob_journal_def rows_wf_def blob_get_def)

lemma put_journal_simps [simp, store_simps]:
  "bs_staging (put_journal b o' st h n now s) = bs_staging s" "bs_files (put_journal b o' st h n now s) = bs_files s"
  by (simp_all add: put_journal_def)

lemma staged_staging [simp]: "staged bid owner f (s\<lparr>bs_staging := d\<rparr>) = staged bid owner f s"
  by (simp add: staged_def rows_wf_def)

lemma staged_remove_staging [simp]: "staged bid owner f (remove_staging s b) = staged bid owner f s"
  by (simp add: remove_staging_def)

lemma staged_open: "open_staging io s bid = Inr s' \<Longrightarrow> staged bid owner f s \<Longrightarrow> staged bid owner f s'"
  by (auto simp: open_staging_def split: option.splits if_splits)

lemma staged_begin:
  assumes "begin_staging (bs_md s) bid = Inr (md', r)" and "staged bid owner f s"
  shows "staged bid owner f (s\<lparr>bs_md := md'\<rparr>)"
proof -
  note md' = conjunct1 [OF begin_staging_Inr [OF assms(1)]]
  have "rows_wf (s\<lparr>bs_md := md'\<rparr>)" unfolding md'
    by (rule rows_wf_upd) (use assms(2) in \<open>auto simp: staged_def row_ok_def\<close>)
  moreover from assms(2) obtain x where x: "row_of s bid = Some x" "unfinished x" "br_owner x = owner" "dget (bs_files s) (owner, bid) = f"
    by (auto simp: staged_def)
  have "blob_get md' bid = Some (if br_state x = RESERVED then x\<lparr>br_state := STAGING\<rparr> else x)" unfolding md' by (simp add: x(1))
  ultimately show ?thesis using x by (auto simp: staged_def unfinished_def)
qed

lemma staged_abort: "staged bid owner None s \<Longrightarrow> rows_wf (abort_row bid s) \<and> absent (abort_row bid s) bid owner"
  by (auto simp: staged_def absent_def row_of_abort)

lemma absent_crash_ok: "rows_wf s \<Longrightarrow> absent s bid owner \<Longrightarrow> crash_ok sha bid owner body s"
  by (simp add: crash_ok_def)

lemma absent_clear [simp]: "absent (clear_row_journal b s) bid owner = absent s bid owner"
  by (simp add: absent_def)

lemma staged_publish:
  assumes "staged bid owner (Some body) s"
  obtains md' r where "blob_publish (bs_md s) bid (sha body) (int (length body)) moment ret = Inr (md', r)"
    "rows_wf (s\<lparr>bs_md := md'\<rparr>)" "whole sha (s\<lparr>bs_md := md'\<rparr>) bid owner body"
proof -
  from assms obtain x where x: "row_of s bid = Some x" "unfinished x" "br_owner x = owner" "dget (bs_files s) (owner, bid) = Some body"
    and wf: "rows_wf s" by (auto simp: staged_def)
  let ?g = "as_published (sha body) (int (length body)) (moment + (case ret of None \<Rightarrow> retention_seconds (bs_md s) | Some t \<Rightarrow> t))"
  let ?s = "s\<lparr>bs_md := upd_row bid unfinished ?g (bs_md s)\<rparr>"
  have "rows_wf ?s" by (rule rows_wf_upd [OF wf]) (simp add: row_ok_def as_published_def)
  moreover have row: "row_of ?s bid = Some (?g x)" using x(1,2) by simp
  have "br_blob_id x = bid" using row_of_id [OF wf x(1)] .
  then have "verified sha ?s (?g x)" using x(3,4) by (simp add: verified_def as_published_def)
  then have "whole sha ?s bid owner body" using row x(3,4) by (simp add: whole_def del: blob_get_upd_row) (simp add: as_published_def)
  ultimately show ?thesis using that [OF blob_publish_unfinished [OF x(1,2)]] by blast
qed

lemma whole_put_journal: "whole sha (put_journal b o' st h n now s) bid owner body = whole sha s bid owner body"
  "rows_wf (put_journal b o' st h n now s) = rows_wf s"
  by (simp_all add: whole_def verified_def put_journal_def blob_journal_def rows_wf_def blob_get_def)

lemma whole_clear [simp]: "whole sha (clear_row_journal b s) bid owner body = whole sha s bid owner body"
  by (simp add: whole_def verified_def)

lemma publish_file_staged:
  assumes "staged bid owner None s" and "dget (bs_staging s) bid = Some body" and "io ''fsync_dir'' = None"
  shows "case publish_file io s owner bid of (t, Some e) \<Rightarrow> staged bid owner None t | (t, None) \<Rightarrow> staged bid owner (Some body) t"
  using assms by (auto simp: publish_file_def staged_def rows_wf_def split: option.splits)

lemma publish_body_crash_ok:
  assumes st: "staged bid owner None s" and body: "dget (bs_staging s) bid = Some body" and io: "io ''fsync_dir'' = None"
    and p: "publish_body sha io s bid owner body ret moment now = (tr, s', res)" and c: "c \<in> set tr \<union> {s'}"
  shows "crash_ok sha bid owner body c"
proof -
  define s4 where "s4 = put_journal bid owner STEP_PENDING (Some (sha body)) (int (length body)) now s"
  have s4: "staged bid owner None s4" "dget (bs_staging s4) bid = Some body" using st body by (simp_all add: s4_def)
  obtain s5 err where pf: "publish_file io s4 owner bid = (s5, err)" by fastforce
  note s5 = publish_file_staged [of bid owner s4 body io, OF s4 io, unfolded pf]
  show ?thesis
  proof (cases err)
    case (Some e)
    have st5: "staged bid owner None s5" using s5 Some by simp
    note ab = staged_abort [OF st5 [folded staged_remove_staging [of bid owner None s5 bid]]]
    have "c \<in> {s4, s5, remove_staging s5 bid, abort_row bid (remove_staging s5 bid),
        clear_row_journal bid (abort_row bid (remove_staging s5 bid))}"
      using p c by (auto simp: publish_body_def Let_def pf Some s4_def [symmetric])
    then show ?thesis using s4 st5 ab by (auto intro: staged_crash_ok(1) absent_crash_ok)
  next
    case None
    have st5: "staged bid owner (Some body) s5" using s5 None by simp
    from staged_publish [OF st5, of sha moment ret] obtain md' r
      where pub: "blob_publish (bs_md s5) bid (sha body) (int (length body)) moment ret = Inr (md', r)"
        and w: "rows_wf (s5\<lparr>bs_md := md'\<rparr>)" "whole sha (s5\<lparr>bs_md := md'\<rparr>) bid owner body" by metis
    let ?s7 = "put_journal bid owner STEP_PUBLISHED (Some (sha body)) (int (length body)) now (s5\<lparr>bs_md := md'\<rparr>)"
    have "c \<in> {s4, s5, s5\<lparr>bs_md := md'\<rparr>, ?s7, clear_row_journal bid ?s7}"
      using p c by (auto simp: publish_body_def Let_def pf None pub s4_def [symmetric])
    moreover have "crash_ok sha bid owner body s4" using s4(1) by (rule staged_crash_ok)
    moreover have "crash_ok sha bid owner body s5" using st5 by (rule staged_crash_ok)
    moreover have "crash_ok sha bid owner body (s5\<lparr>bs_md := md'\<rparr>)" "crash_ok sha bid owner body ?s7"
      "crash_ok sha bid owner body (clear_row_journal bid ?s7)"
      using w by (simp_all add: crash_ok_def whole_put_journal)
    ultimately show ?thesis by auto
  qed
qed


section \<open>Examples\<close>

definition demo_sha256 :: "string \<Rightarrow> string" where
  "demo_sha256 b = CHR ''h'' # b"

definition demo_store :: BlobStore where
  "demo_store = \<lparr>bs_md = demo_md1, bs_staging = [], bs_files = [], bs_media_types = MEDIA_TYPES,
     bs_chunked_reserve_bytes = 100, bs_chunk_size = 2\<rparr>"

lemma demo_staged: "staged ''b'' ''uid-1'' None demo_store"
  by (simp add: staged_def demo_store_def rows_wf_def demo_md1_def blob_get_def row_ok_def new_row_def unfinished_def)


definition demo_served :: BlobStore where
  "demo_served = demo_store\<lparr>bs_md := demo_md2\<lparr>md_rows := [(''b'', demo_published\<lparr>br_sha256 := Some ''hsecret''\<rparr>)]\<rparr>,
     bs_files := [((''uid-1'', ''b''), ''secret'')]\<rparr>"

lemma demo_lease:
  "lease_open demo_sha256 demo_served ''b'' ''uid-1'' ''e1'' 2 =
     (demo_served\<lparr>bs_md := add_lease ''b'' ''e1'' (bs_md demo_served)\<rparr>, Inr (demo_published\<lparr>br_sha256 := Some ''hsecret''\<rparr>, ''secret''))"
proof -
  have ids: "id_ok ''b''" "id_ok ''uid-1''" by (simp_all add: id_ok_def lower_def digit_def)
  show ?thesis
    by (simp add: lease_open_def checked_id_def ids blob_get_def demo_served_def demo_store_def demo_md2_def demo_published_def new_row_def
        open_verified_def demo_sha256_def acquire_lease_def)
qed

theorem read_all_correct_witness:
  "\<exists>bytes. snd (read_all demo_sha256 demo_served ''b'' ''uid-1'' ''e1'' 2) = Inr bytes \<and> int (length bytes) = 6"
proof -
  let ?bytes = "concat (read_blocks ''secret'' 2 0)"
  have r: "read_all demo_sha256 demo_served ''b'' ''uid-1'' ''e1'' 2
      = (lease_close (demo_served\<lparr>bs_md := add_lease ''b'' ''e1'' (bs_md demo_served)\<rparr>) ''b'' ''e1'', Inr ?bytes)"
    unfolding read_all_def demo_lease by (simp add: demo_served_def demo_store_def)
  have "0 < bs_chunk_size demo_served" by (simp add: demo_served_def demo_store_def)
  from read_all_correct [OF r this] have "int (length ?bytes) = 6"
    by (auto simp: blob_get_def demo_served_def demo_published_def)
  then show ?thesis using r by simp
qed

theorem recovery_resolves_every_store_witness:
  "\<exists>s' rep. recover_store demo_sha256 demo_store False ''boot'' 9 = Inr (s', rep) \<and> unfinished_rows (bs_md s') = []"
proof -
  have "rows_wf demo_store" using demo_staged by (simp add: staged_def)
  from recovery_resolves_every_store [OF this, of demo_sha256 False "''boot''" 9] show ?thesis by blast
qed

text \<open>
  When the staging file cannot be opened, the upload raises and its reservation stays on the books:
  nothing aborts it before a restart.
\<close>

lemma failed_open_keeps_reservation:
  "io ''open'' = Some e \<Longrightarrow> blob_get (bs_md s) bid = Some r \<Longrightarrow>
   (case receive_and_publish sha io s bid owner chunks expected limit declared ret moment now of
      (tr, s', res) \<Rightarrow> res = Inl e \<and> blob_get (bs_md s') bid = Some r)"
  by (simp add: receive_and_publish_def open_staging_def put_journal_def blob_journal_def blob_get_def)

text \<open>
  When the directory sync fails after the rename, the row is aborted and the renamed file stays:
  an absent row with a file, which no recovery removes.
\<close>

lemma failed_sync_leaves_file:
  assumes "io ''replace'' = None" and "io ''fsync_dir'' = Some e" and "dget (bs_staging s) bid = Some body"
  shows "case publish_body sha io s bid owner body ret moment now of
     (tr, s', res) \<Rightarrow> res = Inl e \<and> dget (bs_files s') (owner, bid) = Some body"
  using assms by (simp add: publish_body_def publish_file_def Let_def)

end
