(* ===== verification/Execution_Service.thy ===== *)
theory Execution_Service
  imports Session_Manager Model_Registry Idempotency Blob_Store
begin

text \<open>
  The execution service of \<^verbatim>\<open>model_scheduler/execution_service.py\<close> and the termination evidence of
  \<^verbatim>\<open>model_scheduler/ports_v3.py\<close>.  Each section that runs under the service lock, and each call of the
  teardown, is one function on the service state; an awaited call to the scheduler, the blob store or the
  backend is either a value that the section receives, or an entry of the call log that the section
  appends.  Records are never removed, so a record is named by its execution id.  Events are not modelled.
\<close>

section \<open>Termination evidence\<close>

record TerminationEvidence =
  te_fence :: Fence
  te_dispatch_state :: string
  te_compute_quiescent :: bool
  te_device_synchronized :: bool
  te_reason :: "string option"
  te_instance :: "InstanceIdentity option"

text \<open>\<^verbatim>\<open>TerminationEvidence.__post_init__\<close>\<close>

definition check_evidence :: "TerminationEvidence \<Rightarrow> TerminationEvidence result" where
  "check_evidence e =
     rbind (raise_if (te_dispatch_state e \<notin> set DISPATCH_STATES) (ContractError ''must be one of the allowed values'')) (\<lambda>_.
     rbind (raise_if (\<not> te_compute_quiescent e) (ContractError ''terminal evidence must state compute_quiescent=true'')) (\<lambda>_.
     rbind (if te_dispatch_state e = ''dispatched''
            then rbind (raise_if (f_execution_id (te_fence e) = None \<or> f_attempt (te_fence e) = None)
                         (ContractError ''a dispatched execution requires an execution fence'')) (\<lambda>_.
                 rbind (raise_if (te_instance e = None) (ContractError ''a dispatched execution requires the full instance identity'')) (\<lambda>_.
                 raise_if (\<not> truthy (te_reason e)) (ContractError ''must be a non-empty string'')))
            else rbind (raise_if (te_instance e \<noteq> None) (ContractError ''a not_started termination must not carry a container identity'')) (\<lambda>_.
                 raise_if (te_reason e = Some []) (ContractError ''must be a non-empty string''))) (\<lambda>_.
     Inr e)))"

definition local_evidence :: "Fence \<Rightarrow> string \<Rightarrow> TerminationEvidence" where
  "local_evidence fence code = \<lparr>te_fence = fence, te_dispatch_state = ''not_started'', te_compute_quiescent = True,
     te_device_synchronized = False, te_reason = Some code, te_instance = None\<rparr>"

definition dispatched_evidence :: "Fence \<Rightarrow> string \<Rightarrow> InstanceIdentity \<Rightarrow> TerminationEvidence" where
  "dispatched_evidence fence reason inst = \<lparr>te_fence = fence, te_dispatch_state = ''dispatched'', te_compute_quiescent = True,
     te_device_synchronized = True, te_reason = Some reason, te_instance = Some inst\<rparr>"

section \<open>State\<close>

definition EXECUTION_QUEUE_CAPACITY :: int where "EXECUTION_QUEUE_CAPACITY = 128"
definition EXECUTION_WAIT_SECONDS :: time where "EXECUTION_WAIT_SECONDS = 1800"

definition CANCEL_CODES :: "string list" where
  "CANCEL_CODES = [''queue_timeout'', ''session_expired'', ''session_not_active'']"

definition BLOB_CODES :: "(string, string) dict" where
  "BLOB_CODES = [(''not_found'', ''not_found''), (''expired'', ''reference_expired''), (''too_large'', ''payload_too_large''),
     (''quota_exceeded'', ''quota_exceeded''), (''storage'', ''storage_unavailable''), (''forbidden'', ''contract_violation''),
     (''unsupported_media_type'', ''unsupported_media_type'')]"

definition blob_code :: "string \<Rightarrow> string \<Rightarrow> string" where
  "blob_code code otherwise = (case dget BLOB_CODES code of None \<Rightarrow> otherwise | Some c \<Rightarrow> c)"

definition blob_owner_for :: "string \<Rightarrow> string" where
  "blob_owner_for owner = map (\<lambda>c. if c = CHR '':'' then CHR ''-'' else c) owner"

record ExecutionRecord =
  x_execution_id :: string
  x_session_id :: string
  x_model_id :: string
  x_owner :: string
  x_operation :: string
  x_input :: ExecutionInput
  x_parameters :: "(string, json) dict"
  x_deadline :: time
  x_fence :: Fence
  x_output_blob_id :: string
  x_state :: string
  x_error :: "ErrorDetail option"
  x_terminal_code :: "string option"
  x_terminal_message :: string
  x_result :: "BlobRef option"
  x_evidence :: "TerminationEvidence option"
  x_output_pending :: "string option"
  x_publishing :: bool
  x_dispatch_state :: string
  x_dispatch_started :: bool
  x_dispatch_claimed :: bool
  x_instance :: "InstanceIdentity option"
  x_lease :: "Lease option"
  x_lease_released :: bool
  x_reservation :: "OutputReservation option"
  x_input_ctx :: bool
  x_input_closed :: bool
  x_cancel_pending :: bool
  x_settled :: bool
  x_awaiting_quiescence :: bool
  x_expected_instance :: "InstanceIdentity option"
  x_idempotency :: "nat option"

datatype ExtCall = ReleaseLease Lease Outcome | CancelLease Lease | CloseInput string | AbandonOutput string | CancelBackend string

record ExecutionService =
  es_boot_id :: string
  es_queue_capacity :: int
  es_wait_seconds :: time
  es_managed :: bool
  es_idempotency :: "IdempotencyStore option"
  es_records :: "(string, ExecutionRecord) dict"
  es_pending_cleanup :: "string list"
  es_quiescing :: "string list"
  es_publish_inflight :: "string list"
  es_calls :: "ExtCall list"

text \<open>The injected collaborators: the timestamp reader, the float printer, the keyed hash, and the token authority if there is one.\<close>

record ExecEnv =
  xe_utc :: "string \<Rightarrow> bool"
  xe_flt :: "real \<Rightarrow> string"
  xe_mac :: "string \<Rightarrow> string \<Rightarrow> string"
  xe_verify :: "(string \<Rightarrow> string \<Rightarrow> string \<Rightarrow> string \<Rightarrow> unit result) option"
  xe_token_fingerprint :: "string \<Rightarrow> string"

definition service_init :: "int \<Rightarrow> time \<Rightarrow> time \<Rightarrow> int \<Rightarrow> time \<Rightarrow> string \<Rightarrow> bool \<Rightarrow> IdempotencyStore option \<Rightarrow> ExecutionService result" where
  "service_init cap wait poll olimit grace boot managed idem =
     rbind (raise_if (cap < 1 \<or> wait \<le> 0 \<or> poll \<le> 0 \<or> olimit \<le> 0 \<or> grace \<le> 0)
             (ValueError ''execution policy values must be positive'')) (\<lambda>_.
     Inr \<lparr>es_boot_id = boot, es_queue_capacity = cap, es_wait_seconds = wait, es_managed = managed, es_idempotency = idem,
          es_records = [], es_pending_cleanup = [], es_quiescing = [], es_publish_inflight = [], es_calls = []\<rparr>)"

definition error_detail :: "string \<Rightarrow> string \<Rightarrow> ErrorDetail" where
  "error_detail code message = \<lparr>e_code = code, e_message = message, e_retryable = retryable_code code\<rparr>"

definition terminal :: "ExecutionRecord \<Rightarrow> bool" where
  "terminal r \<longleftrightarrow> x_state r \<in> set EXECUTION_TERMINAL_STATES"

text \<open>\<^verbatim>\<open>ExecutionRecord.view\<close>: the document is checked by the protocol parser before it is returned.\<close>

definition view_of :: "ExecutionRecord \<Rightarrow> ExecutionView" where
  "view_of r = \<lparr>ev_execution_id = x_execution_id r, ev_state = x_state r, ev_dispatch_state = x_dispatch_state r,
     ev_compute_quiescent = (if terminal r then Some True else None), ev_result = x_result r, ev_error = x_error r,
     ev_instance = x_instance r, ev_fence = x_fence r\<rparr>"

definition record_view :: "ExecEnv \<Rightarrow> ExecutionRecord \<Rightarrow> json result" where
  "record_view env r = rbind (parse_execution_view (xe_utc env) (view_json (view_of r))) (\<lambda>_. Inr (view_json (view_of r)))"

definition get_record :: "ExecutionService \<Rightarrow> string \<Rightarrow> ExecutionRecord result" where
  "get_record svc eid = (case dget (es_records svc) eid of None \<Rightarrow> Inl (ExecutionError ''not_found'') | Some r \<Rightarrow> Inr r)"

text \<open>The outputs that ended executions still have to abandon, in order.\<close>

definition pending_cleanup :: "ExecutionService \<Rightarrow> string list" where
  "pending_cleanup svc = sort (es_pending_cleanup svc)"

definition put_record :: "ExecutionRecord \<Rightarrow> ExecutionService \<Rightarrow> ExecutionService" where
  "put_record r svc = svc\<lparr>es_records := dput (x_execution_id r) r (es_records svc)\<rparr>"

definition call :: "ExtCall \<Rightarrow> ExecutionService \<Rightarrow> ExecutionService" where
  "call c svc = svc\<lparr>es_calls := es_calls svc @ [c]\<rparr>"

definition add_cleanup :: "string \<Rightarrow> ExecutionService \<Rightarrow> ExecutionService" where
  "add_cleanup bid svc = svc\<lparr>es_pending_cleanup := List.insert bid (es_pending_cleanup svc)\<rparr>"

section \<open>Settling decisions\<close>

definition mark_reason :: "string \<Rightarrow> string \<Rightarrow> ExecutionRecord \<Rightarrow> ExecutionRecord" where
  "mark_reason code message r =
     (if x_terminal_code r = None then r\<lparr>x_terminal_code := Some code, x_terminal_message := message\<rparr> else r)"

definition finish_idempotency :: "ExecEnv \<Rightarrow> time \<Rightarrow> ExecutionRecord \<Rightarrow> ExecutionService \<Rightarrow> ExecutionService" where
  "finish_idempotency env now r svc =
     (case (x_idempotency r, es_idempotency svc) of
        (Some n, Some st) \<Rightarrow>
          (case record_view env r of
             Inl e \<Rightarrow> svc
           | Inr v \<Rightarrow> svc\<lparr>es_idempotency := Some (idem_complete st n 200 (Some (x_execution_id r)) (Some v) None None now)\<rparr>)
      | _ \<Rightarrow> svc)"

text \<open>\<^verbatim>\<open>_mark_settled\<close>, on a record that already carries its error or result.\<close>

definition settled_as :: "string \<Rightarrow> ExecutionRecord \<Rightarrow> ExecutionRecord" where
  "settled_as st r = r\<lparr>x_state := st, x_settled := True\<rparr>"

definition mark_settled :: "ExecEnv \<Rightarrow> time \<Rightarrow> string \<Rightarrow> ExecutionRecord \<Rightarrow> ExecutionService \<Rightarrow> ExecutionService" where
  "mark_settled env now st r svc = finish_idempotency env now (settled_as st r) (put_record (settled_as st r) svc)"

definition or_default :: "string option \<Rightarrow> string \<Rightarrow> string" where
  "or_default x d = (if truthy x then (case x of Some s \<Rightarrow> s | None \<Rightarrow> d) else d)"

definition end_error :: "ExecutionRecord \<Rightarrow> ErrorDetail" where
  "end_error r = error_detail (or_default (x_terminal_code r) ''backend_failed'')
     (or_default (Some (x_terminal_message r)) ''the execution ended without a result'')"

definition evaluate :: "ExecEnv \<Rightarrow> time \<Rightarrow> ExecutionRecord \<Rightarrow> ExecutionService \<Rightarrow> ExecutionService \<times> bool" where
  "evaluate env now r svc =
     (if x_settled r \<or> x_evidence r = None then (put_record r svc, False)
      else if x_cancel_pending r \<or> x_terminal_code r \<noteq> None
      then (mark_settled env now (if x_cancel_pending r then ''cancelled'' else ''failed'') (r\<lparr>x_error := Some (end_error r)\<rparr>) svc, True)
      else if x_output_pending r \<noteq> None
      then (if x_reservation r = None
            then (mark_settled env now ''failed''
                    (r\<lparr>x_error := Some (error_detail ''backend_failed'' ''a result cannot publish without dispatch'')\<rparr>) svc, True)
            else (put_record (r\<lparr>x_publishing := True\<rparr>) svc, False))
      else (put_record r svc, False))"

text \<open>The evidence of a local termination is refused for an empty code only, which no caller but \<open>after_execute\<close> can pass.\<close>

definition terminate_local :: "ExecEnv \<Rightarrow> time \<Rightarrow> string \<Rightarrow> string \<Rightarrow> ExecutionRecord \<Rightarrow> ExecutionService \<Rightarrow> ExecutionService" where
  "terminate_local env now code message r svc =
     mark_settled env now (if code \<in> set CANCEL_CODES then ''cancelled'' else ''failed'')
       (r\<lparr>x_evidence := Some (local_evidence (x_fence r) code), x_error := Some (error_detail code message)\<rparr>) svc"

section \<open>Teardown and cancellation\<close>

definition release_record_lease :: "Outcome \<Rightarrow> ExecutionRecord \<Rightarrow> ExecutionService \<Rightarrow> ExecutionService" where
  "release_record_lease outcome r svc =
     (case x_lease r of
        Some l \<Rightarrow> if x_lease_released r then svc
                  else call (ReleaseLease l outcome) (put_record (r\<lparr>x_lease_released := True\<rparr>) svc)
      | None \<Rightarrow> svc)"

definition close_input :: "ExecutionRecord \<Rightarrow> ExecutionService \<Rightarrow> ExecutionService" where
  "close_input r svc =
     (if x_input_ctx r \<and> \<not> x_input_closed r
      then call (CloseInput (x_execution_id r)) (put_record (r\<lparr>x_input_closed := True\<rparr>) svc) else svc)"

text \<open>\<^verbatim>\<open>cancel_output\<close> then \<^verbatim>\<open>abandon_output\<close>; \<open>ok\<close> says whether the abandon raised.\<close>

definition drop_output :: "bool \<Rightarrow> ExecutionRecord \<Rightarrow> ExecutionService \<Rightarrow> ExecutionService" where
  "drop_output ok r svc =
     (case x_reservation r of
        None \<Rightarrow> svc
      | Some res \<Rightarrow>
          if x_state r = ''succeeded'' then svc
          else let svc1 = put_record (r\<lparr>x_reservation := Some (fst (cancel_output res (x_fence r)))\<rparr>) svc
               in if ok then call (AbandonOutput (x_output_blob_id r))
                          (svc1\<lparr>es_pending_cleanup := removeAll (x_output_blob_id r) (es_pending_cleanup svc1)\<rparr>)
                  else add_cleanup (x_output_blob_id r) svc1)"

definition with_record :: "string \<Rightarrow> (ExecutionRecord \<Rightarrow> ExecutionService \<Rightarrow> ExecutionService) \<Rightarrow> ExecutionService \<Rightarrow> ExecutionService" where
  "with_record eid f svc = (case dget (es_records svc) eid of None \<Rightarrow> svc | Some r \<Rightarrow> f r svc)"

definition teardown :: "bool \<Rightarrow> string \<Rightarrow> ExecutionService \<Rightarrow> ExecutionService" where
  "teardown ok eid svc =
     with_record eid (drop_output ok)
       (with_record eid close_input
         (with_record eid (\<lambda>r. release_record_lease (if x_state r = ''succeeded'' then SUCCESS else REJECTED) r) svc))"

definition cancel_reservation :: "ExecutionRecord \<Rightarrow> ExecutionRecord \<times> bool" where
  "cancel_reservation r =
     (case x_reservation r of
        None \<Rightarrow> (r, False)
      | Some res \<Rightarrow>
          if x_result r \<noteq> None then (r, False)
          else let (res', marked) = cancel_output res (x_fence r) in (r\<lparr>x_reservation := Some res'\<rparr>, marked))"

definition note_cancelled :: "ExecutionRecord \<Rightarrow> ExecutionService \<Rightarrow> ExecutionService" where
  "note_cancelled r svc = (if snd (cancel_reservation r) then add_cleanup (x_output_blob_id r) svc else svc)"

definition cancel_side_effects :: "ExecutionRecord \<Rightarrow> ExecutionService \<Rightarrow> ExecutionService" where
  "cancel_side_effects r svc =
     note_cancelled r (case x_lease r of None \<Rightarrow> svc | Some l \<Rightarrow> call (CancelLease l) svc)"

text \<open>Ask a running execution to end: first reason, CANCELLING, side effects, then the decision.\<close>

definition cancelling :: "ExecutionRecord \<Rightarrow> ExecutionRecord" where
  "cancelling r = (if terminal r then r else r\<lparr>x_state := ''cancelling''\<rparr>)"

definition begin_end :: "ExecEnv \<Rightarrow> time \<Rightarrow> ExecutionRecord \<Rightarrow> ExecutionService \<Rightarrow> ExecutionService \<times> bool" where
  "begin_end env now r svc = evaluate env now (fst (cancel_reservation (cancelling r))) (cancel_side_effects (cancelling r) svc)"

definition request_cancel :: "ExecEnv \<Rightarrow> time \<Rightarrow> string \<Rightarrow> string \<Rightarrow> ExecutionRecord \<Rightarrow> ExecutionService \<Rightarrow> ExecutionService \<times> bool" where
  "request_cancel env now code message r svc =
     begin_end env now (mark_reason code message (r\<lparr>x_cancel_pending := True\<rparr>)) svc"

section \<open>Public calls\<close>

fun registered_capabilities :: "Registration \<Rightarrow> string list result" where
  "registered_capabilities (RegV1 s) = Inr (map Capability_value (ms_capabilities s))"
| "registered_capabilities (RegV2 s) = Inr (rm_capabilities s)"
| "registered_capabilities (RegOther m) = Inl (AttributeError ''capabilities'')"

definition new_execution ::
  "ExecutionService \<Rightarrow> SessionRecord \<Rightarrow> string \<Rightarrow> ExecutionCreateRequest \<Rightarrow> int \<Rightarrow> time \<Rightarrow> string \<Rightarrow> string \<Rightarrow> nat option \<Rightarrow> ExecutionRecord" where
  "new_execution svc session owner parsed generation now eid opid idem =
     \<lparr>x_execution_id = eid, x_session_id = s_session_id session, x_model_id = s_model_id session, x_owner = owner,
      x_operation = ex_operation parsed, x_input = ex_input parsed, x_parameters = ex_parameters parsed,
      x_deadline = min (now + es_wait_seconds svc) (s_hard_deadline session),
      x_fence = \<lparr>f_boot_id = es_boot_id svc, f_model_id = s_model_id session, f_generation = generation, f_operation_id = opid,
                 f_execution_id = Some eid, f_attempt = Some 1\<rparr>,
      x_output_blob_id = ''o-'' @ eid, x_state = ''queued'', x_error = None, x_terminal_code = None, x_terminal_message = [],
      x_result = None, x_evidence = None, x_output_pending = None, x_publishing = False, x_dispatch_state = ''not_started'',
      x_dispatch_started = False, x_dispatch_claimed = False, x_instance = None, x_lease = None, x_lease_released = False,
      x_reservation = None, x_input_ctx = False, x_input_closed = False, x_cancel_pending = False, x_settled = False,
      x_awaiting_quiescence = False, x_expected_instance = None, x_idempotency = idem\<rparr>"

definition queued_count :: "ExecutionService \<Rightarrow> string \<Rightarrow> int" where
  "queued_count svc sid = int (length (filter (\<lambda>r. x_session_id r = sid \<and> x_state r = ''queued'') (dvals (es_records svc))))"

text \<open>The checks of \<^verbatim>\<open>submit\<close> after the key was claimed.\<close>

definition admit_submission ::
  "ExecutionService \<Rightarrow> SessionManager \<Rightarrow> Book \<Rightarrow> SessionRecord \<Rightarrow> string \<Rightarrow> ExecutionCreateRequest \<Rightarrow> time \<Rightarrow> int result" where
  "admit_submission svc sm b session sid parsed now =
     rbind (raise_if (s_phase session \<noteq> ACTIVE) (ExecutionError ''session_not_active'')) (\<lambda>_.
     rbind (raise_if (\<not> is_live sm sid now) (ExecutionError ''session_expired'')) (\<lambda>_.
     rbind (rbind (dlookup (specs b) (s_model_id session)) registered_capabilities) (\<lambda>caps.
     rbind (raise_if (ex_operation parsed \<notin> set caps) (ExecutionError ''capability_mismatch'')) (\<lambda>_.
     rbind (raise_if (queued_count svc sid \<ge> es_queue_capacity svc) (ExecutionError ''queue_full'')) (\<lambda>_.
     rbind (dlookup (runtime b) (s_model_id session)) (\<lambda>rt.
     rbind (raise_if (rt_generation rt < 1) (ExecutionError ''session_not_active'')) (\<lambda>_.
     Inr (rt_generation rt))))))))"

definition as_execution_error :: "'a result \<Rightarrow> 'a result" where
  "as_execution_error r = (case r of Inl (IdentityError c) \<Rightarrow> Inl (ExecutionError c) | _ \<Rightarrow> r)"

definition check_token :: "ExecEnv \<Rightarrow> string \<Rightarrow> string \<Rightarrow> string \<Rightarrow> string \<Rightarrow> unit result" where
  "check_token env token owner mid sid = (case xe_verify env of None \<Rightarrow> Inr () | Some v \<Rightarrow> as_execution_error (v token owner mid sid))"

definition claim_submission ::
  "ExecEnv \<Rightarrow> ExecutionService \<Rightarrow> (string, json) dict \<Rightarrow> ExecutionCreateRequest \<Rightarrow> string \<Rightarrow> string \<Rightarrow> time \<Rightarrow> (ExecutionService \<times> nat option) result" where
  "claim_submission env svc document parsed sid owner now =
     (case es_idempotency svc of
        None \<Rightarrow> Inr (svc, None)
      | Some st \<Rightarrow>
          let payload = JObj [(''session_id'', JStr sid), (''operation'', JStr (ex_operation parsed)),
                              (''input'', jget document ''input''), (''parameters'', jget document ''parameters'')];
              token_fp = (case xe_verify env of None \<Rightarrow> None | Some _ \<Rightarrow> Some (xe_token_fingerprint env (ex_session_token parsed)))
          in rbind (as_execution_error (idem_begin (xe_mac env) (xe_flt env) st (''execution.create'', owner, ex_idempotency_key parsed)
                payload token_fp None now)) (\<lambda>(st', n). Inr (svc\<lparr>es_idempotency := Some st'\<rparr>, Some n)))"

definition idem_state_of :: "ExecutionService \<Rightarrow> nat option \<Rightarrow> IdempotencyRecord option" where
  "idem_state_of svc idem = (case (idem, es_idempotency svc) of (Some n, Some st) \<Rightarrow> Some (is_heap st ! n) | _ \<Rightarrow> None)"

definition fail_claim :: "nat option \<Rightarrow> ExecutionService \<Rightarrow> ExecutionService" where
  "fail_claim idem svc =
     (case (idem, es_idempotency svc) of
        (Some n, Some st) \<Rightarrow> if ir_state (is_heap st ! n) = PENDING then svc\<lparr>es_idempotency := Some (idem_fail st n)\<rparr> else svc
      | _ \<Rightarrow> svc)"

text \<open>The new record is stored before its first view, which may raise; the key is completed with that view.\<close>

definition queue_execution :: "ExecEnv \<Rightarrow> time \<Rightarrow> ExecutionRecord \<Rightarrow> ExecutionService \<Rightarrow> ExecutionService \<times> json result" where
  "queue_execution env now r svc =
     (let svc1 = put_record r svc in
      case record_view env r of
        Inl e \<Rightarrow> (svc1, Inl e)
      | Inr v \<Rightarrow>
          (case (x_idempotency r, es_idempotency svc1) of
             (Some n, Some st) \<Rightarrow>
               (svc1\<lparr>es_idempotency := Some (idem_complete st n 202 (Some (x_execution_id r)) (Some v) (Some (x_deadline r)) None now)\<rparr>, Inr v)
           | _ \<Rightarrow> (svc1, Inr v)))"

text \<open>After the claim: replay of a completed key, or the checks and the new record.\<close>

definition submit_claimed ::
  "ExecEnv \<Rightarrow> ExecutionService \<Rightarrow> nat option \<Rightarrow> SessionManager \<Rightarrow> Book \<Rightarrow> SessionRecord \<Rightarrow> string \<Rightarrow> string \<Rightarrow> ExecutionCreateRequest
     \<Rightarrow> time \<Rightarrow> string \<Rightarrow> string \<Rightarrow> ExecutionService \<times> json result" where
  "submit_claimed env svc idem sm b session sid owner parsed now eid opid =
     (case idem_state_of svc idem of
        Some ir \<Rightarrow>
          if ir_state ir = COMPLETED
          then (svc, case dget (es_records svc) (or_default (ir_resource_id ir) []) of
                       Some original \<Rightarrow> record_view env original
                     | None \<Rightarrow> Inl (ExecutionError ''not_found''))
          else (case admit_submission svc sm b session sid parsed now of
                  Inl e \<Rightarrow> (if is_ExecutionError e then fail_claim idem svc else svc, Inl e)
                | Inr gen \<Rightarrow> queue_execution env now (new_execution svc session owner parsed gen now eid opid idem) svc)
      | None \<Rightarrow>
          (case admit_submission svc sm b session sid parsed now of
             Inl e \<Rightarrow> (svc, Inl e)
           | Inr gen \<Rightarrow> queue_execution env now (new_execution svc session owner parsed gen now eid opid idem) svc))"

definition submit ::
  "ExecEnv \<Rightarrow> ExecutionService \<Rightarrow> SessionManager \<Rightarrow> Book \<Rightarrow> string \<Rightarrow> string \<Rightarrow> json \<Rightarrow> time \<Rightarrow> string \<Rightarrow> string \<Rightarrow> ExecutionService \<times> json result" where
  "submit env svc sm b sid owner document now eid opid =
     (case parse_execution_create_request (xe_flt env) document of
        Inl e \<Rightarrow> (svc, Inl e)
      | Inr parsed \<Rightarrow>
          (case session_get sm sid of
             Inl e \<Rightarrow> (svc, Inl (ExecutionError ''not_found''))
           | Inr session \<Rightarrow>
               (case check_token env (ex_session_token parsed) owner (s_model_id session) sid of
                  Inl e \<Rightarrow> (svc, Inl e)
                | Inr _ \<Rightarrow>
                    if (case ex_input parsed of Blob bref \<Rightarrow> b_owner bref \<noteq> blob_owner_for owner | Inline _ \<Rightarrow> False)
                    then (svc, Inl (ExecutionError ''not_found''))
                    else (case rbind (as_mapping document) (\<lambda>d. claim_submission env svc d parsed sid owner now) of
                            Inl e \<Rightarrow> (svc, Inl e)
                          | Inr (svc1, idem) \<Rightarrow> submit_claimed env svc1 idem sm b session sid owner parsed now eid opid))))"

definition execution_view :: "ExecEnv \<Rightarrow> ExecutionService \<Rightarrow> string \<Rightarrow> string \<Rightarrow> json result" where
  "execution_view env svc eid owner =
     rbind (get_record svc eid) (\<lambda>r.
     rbind (raise_if (x_owner r \<noteq> owner) (ExecutionError ''not_found'')) (\<lambda>_. record_view env r))"

text \<open>The locked section of \<^verbatim>\<open>cancel\<close>; the flag says that the record must be torn down.\<close>

definition cancel_locked ::
  "ExecEnv \<Rightarrow> ExecutionService \<Rightarrow> string \<Rightarrow> string \<Rightarrow> string option \<Rightarrow> time \<Rightarrow> (ExecutionService \<times> bool) result" where
  "cancel_locked env svc eid owner token now =
     rbind (get_record svc eid) (\<lambda>r.
     rbind (raise_if (x_owner r \<noteq> owner) (ExecutionError ''not_found'')) (\<lambda>_.
     rbind (case token of None \<Rightarrow> Inr () | Some t \<Rightarrow> check_token env t owner (x_model_id r) (x_session_id r)) (\<lambda>_.
     Inr (if x_settled r then (svc, False)
          else if \<not> x_dispatch_started r then (terminate_local env now ''queue_timeout'' ''cancelled before dispatch'' r svc, True)
          else request_cancel env now ''execution_timeout'' ''cancelled'' r svc))))"

definition report_output_locked :: "ExecEnv \<Rightarrow> ExecutionService \<Rightarrow> string \<Rightarrow> string \<Rightarrow> time \<Rightarrow> (ExecutionService \<times> bool) result" where
  "report_output_locked env svc eid body now =
     rbind (get_record svc eid) (\<lambda>r.
     if x_settled r then Inr (svc, False)
     else if x_cancel_pending r
     then Inr (note_cancelled r (put_record (fst (cancel_reservation (r\<lparr>x_output_pending := None\<rparr>))) svc), False)
     else rbind (raise_if (x_publishing r) (ExecutionError ''busy'')) (\<lambda>_.
          Inr (evaluate env now (r\<lparr>x_output_pending := Some body\<rparr>) svc)))"

definition with_terminal :: "TerminationEvidence \<Rightarrow> ExecutionRecord \<Rightarrow> ExecutionRecord" where
  "with_terminal e r =
     (let r1 = r\<lparr>x_evidence := Some e\<rparr>
      in if te_dispatch_state e = ''dispatched'' then r1\<lparr>x_dispatch_state := ''dispatched'', x_instance := te_instance e\<rparr> else r1)"

text \<open>\<^verbatim>\<open>None\<close>: the report was rejected.\<close>

definition report_terminal_locked ::
  "ExecEnv \<Rightarrow> ExecutionService \<Rightarrow> string \<Rightarrow> TerminationEvidence \<Rightarrow> time \<Rightarrow> (ExecutionService \<times> bool) option result" where
  "report_terminal_locked env svc eid e now =
     rbind (get_record svc eid) (\<lambda>r.
     Inr (if \<not> wd_accepted (writeback_decision (x_fence r) (te_fence e)) then None
          else if te_dispatch_state e = ''not_started'' \<and> x_dispatch_state r = ''dispatched'' then None
          else if x_evidence r \<noteq> None then Some (svc, False)
          else Some (evaluate env now (with_terminal e r) svc)))"

section \<open>Publication\<close>

text \<open>
  \<^verbatim>\<open>_advance\<close> starts at most one publication per record.  The flag says that the body and the reservation are
  there when it starts.
\<close>

definition publish_begin :: "string \<Rightarrow> ExecutionService \<Rightarrow> (ExecutionService \<times> bool) option" where
  "publish_begin eid svc =
     (case dget (es_records svc) eid of
        None \<Rightarrow> None
      | Some r \<Rightarrow> if x_publishing r \<and> eid \<notin> set (es_publish_inflight svc)
                  then Some (svc\<lparr>es_publish_inflight := eid # es_publish_inflight svc\<rparr>,
                             x_output_pending r \<noteq> None \<and> x_reservation r \<noteq> None) else None)"

definition publish_outcome :: "bool \<Rightarrow> BlobRecord result \<Rightarrow> string + BlobRecord" where
  "publish_outcome there answer =
     (if \<not> there then Inl ''backend_failed''
      else case answer of
             Inl (BlobStoreError c) \<Rightarrow> Inl (if c = ''cancelled'' then ''cancelled'' else blob_code c ''backend_failed'')
           | Inl _ \<Rightarrow> Inl ''storage_unavailable''
           | Inr p \<Rightarrow> Inr p)"

definition blob_ref_of :: "BlobRecord \<Rightarrow> BlobRef" where
  "blob_ref_of p = \<lparr>b_blob_id = br_blob_id p, b_owner = br_owner p, b_sha256 = (case br_sha256 p of None \<Rightarrow> [] | Some h \<Rightarrow> h),
     b_size_bytes = br_size_bytes p, b_media_type = br_media_type p\<rparr>"

definition settle_published :: "ExecEnv \<Rightarrow> time \<Rightarrow> string + BlobRecord \<Rightarrow> ExecutionRecord \<Rightarrow> ExecutionService \<Rightarrow> ExecutionService" where
  "settle_published env now outcome r svc =
     (let r1 = r\<lparr>x_publishing := False, x_output_pending := None\<rparr> in
      if x_settled r then put_record r1 svc
      else case outcome of
             Inl failure \<Rightarrow>
               if failure = ''cancelled''
               then mark_settled env now ''cancelled''
                      (r1\<lparr>x_cancel_pending := True,
                          x_error := (case x_error r1 of Some d \<Rightarrow> Some d
                             | None \<Rightarrow> Some (error_detail ''execution_timeout'' ''a late result is never published''))\<rparr>)
                      (add_cleanup (x_output_blob_id r) svc)
               else mark_settled env now ''failed''
                      (r1\<lparr>x_error := Some (error_detail failure ''the result could not be published'')\<rparr>)
                      (add_cleanup (x_output_blob_id r) svc)
           | Inr p \<Rightarrow> mark_settled env now ''succeeded'' (r1\<lparr>x_result := Some (blob_ref_of p)\<rparr>) svc)"

text \<open>
  The end of a publication: \<open>answer\<close> is what the store returned or raised.  The inner teardown runs unless the record
  was settled meanwhile; the outer one runs after the record left the in-flight set.
\<close>

definition is_settled :: "string \<Rightarrow> ExecutionService \<Rightarrow> bool" where
  "is_settled eid svc = (case dget (es_records svc) eid of None \<Rightarrow> False | Some r \<Rightarrow> x_settled r)"

definition publish_end :: "ExecEnv \<Rightarrow> time \<Rightarrow> bool \<Rightarrow> bool \<Rightarrow> bool \<Rightarrow> BlobRecord result \<Rightarrow> string \<Rightarrow> ExecutionService \<Rightarrow> ExecutionService" where
  "publish_end env now ok1 ok2 there answer eid svc =
     (let svc1 = with_record eid (settle_published env now (publish_outcome there answer)) svc;
          svc2 = (if is_settled eid svc then svc1 else teardown ok1 eid svc1);
          svc3 = svc2\<lparr>es_publish_inflight := removeAll eid (es_publish_inflight svc2)\<rparr>
      in if is_settled eid svc3 then teardown ok2 eid svc3 else svc3)"

section \<open>Dispatch\<close>

definition dispatchable :: "ExecutionService \<Rightarrow> string \<Rightarrow> ExecutionRecord \<Rightarrow> bool" where
  "dispatchable svc sid r \<longleftrightarrow> x_session_id r = sid \<and> \<not> x_settled r \<and> \<not> x_dispatch_started r \<and> \<not> x_dispatch_claimed r
     \<and> x_state r = ''queued'' \<and> x_model_id r \<notin> set (es_quiescing svc)"

text \<open>One scan of the dispatch loop: expired entries end, the others are claimed and a run is started for each.\<close>

definition dispatch_scan :: "ExecEnv \<Rightarrow> time \<Rightarrow> string \<Rightarrow> ExecutionService \<Rightarrow> ExecutionService \<times> string list" where
  "dispatch_scan env now sid svc =
     (let ready = filter (dispatchable svc sid) (dvals (es_records svc));
          expired = filter (\<lambda>r. now \<ge> x_deadline r) ready; heads = filter (\<lambda>r. \<not> now \<ge> x_deadline r) ready;
          svc1 = fold (\<lambda>r. terminate_local env now ''queue_timeout'' ''queue deadline elapsed'' r) expired svc;
          svc2 = fold (\<lambda>r. put_record (r\<lparr>x_dispatch_claimed := True\<rparr>)) heads svc1
      in (svc2, map x_execution_id heads))"

datatype Guard = Proceed | Refuse string string

definition refenced :: "ExecutionService \<Rightarrow> int \<Rightarrow> ExecutionRecord \<Rightarrow> ExecutionRecord" where
  "refenced svc gen r =
     r\<lparr>x_fence := \<lparr>f_boot_id = es_boot_id svc, f_model_id = x_model_id r, f_generation = gen,
        f_operation_id = f_operation_id (x_fence r), f_execution_id = Some (x_execution_id r), f_attempt = f_attempt (x_fence r)\<rparr>\<rparr>"

definition pre_dispatch_guard ::
  "ExecEnv \<Rightarrow> ExecutionService \<Rightarrow> SessionManager \<Rightarrow> Book \<Rightarrow> ExecutionRecord \<Rightarrow> time \<Rightarrow> (ExecutionService \<times> Guard) result" where
  "pre_dispatch_guard env svc sm b r now =
     (if x_settled r then Inr (svc, Proceed)
      else case session_get sm (x_session_id r) of
             Inl _ \<Rightarrow> Inr (svc, Refuse ''session_not_active'' ''the session is gone'')
           | Inr session \<Rightarrow>
               if s_phase session \<noteq> ACTIVE \<or> \<not> is_live sm (x_session_id r) now
               then Inr (svc, Refuse ''session_expired'' ''the session is no longer live'')
               else rbind (rbind (dlookup (specs b) (x_model_id r)) registered_capabilities) (\<lambda>caps.
                    if x_operation r \<notin> set caps then Inr (svc, Refuse ''capability_mismatch'' ''the model no longer registers this operation'')
                    else if (case x_input r of Inline d \<Rightarrow> length (canonical_json_bytes (xe_flt env) (JObj d)) > MAX_INLINE_INPUT_BYTES | Blob _ \<Rightarrow> False)
                    then Inr (svc, Refuse ''payload_too_large'' ''the inline input exceeds the protocol limit'')
                    else rbind (dlookup (runtime b) (x_model_id r)) (\<lambda>rt.
                         Inr (if rt_generation rt \<noteq> f_generation (x_fence r) then put_record (refenced svc (rt_generation rt) r) svc else svc,
                              Proceed))))"

text \<open>A failed input lease or admission ends the record unless it is settled already, and tears it down in both cases.\<close>

definition end_unsettled :: "ExecEnv \<Rightarrow> time \<Rightarrow> bool \<Rightarrow> string \<Rightarrow> string \<Rightarrow> string \<Rightarrow> ExecutionService \<Rightarrow> ExecutionService" where
  "end_unsettled env now ok code message eid svc =
     teardown ok eid (with_record eid (\<lambda>r svc. if x_settled r then svc else terminate_local env now code message r svc) svc)"

definition input_opened :: "string \<Rightarrow> ExecutionService \<Rightarrow> ExecutionService" where
  "input_opened eid = with_record eid (\<lambda>r. put_record (r\<lparr>x_input_ctx := True\<rparr>))"

text \<open>\<^verbatim>\<open>str(exc.args[0])\<close> of the exception that \<^verbatim>\<open>scheduler.acquire\<close> raised.\<close>

fun exn_arg :: "exn \<Rightarrow> string" where
  "exn_arg (Conflict s) = s" | "exn_arg (StaleOperation s) = s" | "exn_arg (ValueError s) = s" | "exn_arg (KeyError s) = s"
| "exn_arg (OverflowError s) = s" | "exn_arg (TimeoutError s) = s" | "exn_arg (AttributeError s) = s"
| "exn_arg (ModelUnavailable s) = s" | "exn_arg (QueueFull s) = s" | "exn_arg (SessionConflict s) = s"
| "exn_arg (SessionNotFound s) = s" | "exn_arg (ContractError s) = s" | "exn_arg (IdentityError s) = s"
| "exn_arg (QuotaExceeded s) = s" | "exn_arg (BlobStoreError s) = s" | "exn_arg (ExecutionError s) = s" | "exn_arg (OSError s) = s"
| "exn_arg (TypeError s) = s" | "exn_arg (SubprocessError s) = s" | "exn_arg (ObservationError s) = s"
| "exn_arg (AssetFault s) = s" | "exn_arg (AssetTimeout s) = s" | "exn_arg (LaunchRenderError s) = s"

fun contains :: "string \<Rightarrow> string \<Rightarrow> bool" where
  "contains pat [] = (pat = [])"
| "contains pat (c # cs) = (take (length pat) (c # cs) = pat \<or> contains pat cs)"

datatype Admission = Retry | End string string

definition admit_failure :: "exn \<Rightarrow> Admission" where
  "admit_failure e =
     (if is_TimeoutError e then End ''queue_timeout'' ''queue deadline elapsed''
      else if is_SessionConflict e
      then End (if error_known (exn_arg e) then exn_arg e else ''session_not_active'') ''the session is no longer active''
      else if exn_arg e = ''session_slots_exhausted'' then Retry
      else End (if error_known (exn_arg e) then exn_arg e
                else if contains ''storage'' (exn_arg e) then ''storage_unavailable'' else ''temporarily_unavailable'')
             ''admission refused the execution'')"

definition unclaim :: "string \<Rightarrow> ExecutionService \<Rightarrow> ExecutionService" where
  "unclaim eid = with_record eid (\<lambda>r. put_record (r\<lparr>x_dispatch_claimed := False\<rparr>))"

text \<open>The granted lease is stored in the record, unless the record was settled meanwhile.\<close>

definition admitted :: "Lease \<Rightarrow> ExecutionRecord \<Rightarrow> ExecutionService \<Rightarrow> ExecutionService" where
  "admitted lease r svc =
     (if x_settled r then svc
      else let r1 = r\<lparr>x_lease := Some lease\<rparr>
           in put_record (if lease_generation lease \<noteq> f_generation (x_fence r) then refenced svc (lease_generation lease) r1 else r1) svc)"

definition run_admitted :: "bool \<Rightarrow> Lease \<Rightarrow> string \<Rightarrow> ExecutionService \<Rightarrow> ExecutionService" where
  "run_admitted ok lease eid svc =
     (case dget (es_records svc) eid of
        None \<Rightarrow> svc
      | Some r \<Rightarrow> if x_settled r then teardown ok eid svc else admitted lease r svc)"

definition started :: "OutputReservation \<Rightarrow> ExecutionRecord \<Rightarrow> ExecutionRecord" where
  "started res r =
     (let r1 = r\<lparr>x_reservation := Some res, x_dispatch_started := True\<rparr> in if terminal r1 then r1 else r1\<lparr>x_state := ''running''\<rparr>)"

text \<open>After the output was reserved under \<open>fence\<close>: start, or give the reservation back.\<close>

definition run_reserved :: "bool \<Rightarrow> bool \<Rightarrow> Fence \<Rightarrow> OutputReservation \<Rightarrow> string \<Rightarrow> ExecutionService \<Rightarrow> ExecutionService \<times> bool" where
  "run_reserved ok abandon_ok fence res eid svc =
     (case dget (es_records svc) eid of
        None \<Rightarrow> (svc, False)
      | Some r \<Rightarrow>
          if x_settled r \<or> x_fence r \<noteq> fence
          then (teardown ok eid (if abandon_ok then call (AbandonOutput (or_blob_id res)) svc else svc), False)
          else (put_record (started res r) svc, True))"

section \<open>The end of a dispatched execution\<close>

definition offer_body :: "string option \<Rightarrow> ExecutionRecord \<Rightarrow> ExecutionRecord" where
  "offer_body body r =
     (case body of
        None \<Rightarrow> r
      | Some b \<Rightarrow> if x_cancel_pending r then fst (cancel_reservation (r\<lparr>x_output_pending := None\<rparr>))
                  else if x_publishing r then r else r\<lparr>x_output_pending := Some b\<rparr>)"

definition with_handle :: "bool \<Rightarrow> bool \<Rightarrow> InstanceIdentity \<Rightarrow> ExecutionRecord \<Rightarrow> ExecutionRecord" where
  "with_handle managed claims inst r =
     (if managed
      then if claims
           then if x_evidence r = None then r\<lparr>x_evidence := Some (dispatched_evidence (x_fence r) ''request_protocol_terminated'' inst)\<rparr> else r
           else r\<lparr>x_awaiting_quiescence := True\<rparr>
      else r)"

text \<open>The backend returned a handle, and a body if it has one.\<close>

definition after_handle ::
  "ExecEnv \<Rightarrow> time \<Rightarrow> InstanceIdentity \<Rightarrow> string option \<Rightarrow> bool \<Rightarrow> ExecutionRecord \<Rightarrow> ExecutionService \<Rightarrow> ExecutionService \<times> bool" where
  "after_handle env now inst body claims r svc =
     (let r1 = r\<lparr>x_instance := Some inst, x_dispatch_state := ''dispatched''\<rparr>;
          svc1 = (if body \<noteq> None \<and> x_cancel_pending r then note_cancelled r1 svc else svc)
      in evaluate env now (with_handle (es_managed svc) claims inst (offer_body body r1)) svc1)"

definition terminate_uncertain ::
  "ExecEnv \<Rightarrow> time \<Rightarrow> string \<Rightarrow> InstanceIdentity option \<Rightarrow> ExecutionRecord \<Rightarrow> ExecutionService \<Rightarrow> ExecutionService \<times> bool" where
  "terminate_uncertain env now message current r svc =
     (let r1 = cancelling (mark_reason ''backend_failed'' message r);
          r2 = (if es_managed svc \<and> x_dispatch_started r
                then r1\<lparr>x_awaiting_quiescence := True,
                       x_expected_instance := (if x_instance r = None then current else x_expected_instance r)\<rparr>
                else r1)
      in begin_end env now r2 svc)"

definition on_timeout :: "ExecEnv \<Rightarrow> time \<Rightarrow> ExecutionRecord \<Rightarrow> ExecutionService \<Rightarrow> ExecutionService \<times> bool" where
  "on_timeout env now r svc = request_cancel env now ''execution_timeout'' ''execution deadline elapsed'' r svc"

text \<open>
  Sections that do nothing for a settled record and tear it down when they settled it: a refusal of the guard, a request
  that was never sent, an expired deadline, an unproven failure, and a handle.
\<close>

definition unless_settled ::
  "bool \<Rightarrow> string \<Rightarrow> (ExecutionRecord \<Rightarrow> ExecutionService \<Rightarrow> ExecutionService \<times> bool) \<Rightarrow> ExecutionService \<Rightarrow> ExecutionService" where
  "unless_settled ok eid f svc =
     (case dget (es_records svc) eid of
        None \<Rightarrow> svc
      | Some r \<Rightarrow> if x_settled r then svc else let (svc1, settled) = f r svc in if settled then teardown ok eid svc1 else svc1)"

text \<open>The whole section after the backend returned: a cancelled record that is still open also asks the backend to cancel.\<close>

definition take_handle ::
  "ExecEnv \<Rightarrow> time \<Rightarrow> bool \<Rightarrow> InstanceIdentity \<Rightarrow> string option \<Rightarrow> bool \<Rightarrow> string \<Rightarrow> ExecutionService \<Rightarrow> ExecutionService" where
  "take_handle env now ok inst body claims eid svc =
     (let svc1 = unless_settled ok eid (after_handle env now inst body claims) svc
      in if \<not> is_settled eid svc1 \<and> (case dget (es_records svc1) eid of None \<Rightarrow> False | Some r \<Rightarrow> x_cancel_pending r)
         then call (CancelBackend eid) svc1 else svc1)"

section \<open>Managed termination\<close>

definition inflight :: "string \<Rightarrow> ExecutionRecord \<Rightarrow> bool" where
  "inflight mid r \<longleftrightarrow> x_model_id r = mid \<and> \<not> x_settled r \<and> \<not> x_awaiting_quiescence r
     \<and> (x_dispatch_started r \<or> x_dispatch_claimed r \<or> x_lease r \<noteq> None)"

definition awaiting :: "string \<Rightarrow> ExecutionRecord \<Rightarrow> bool" where
  "awaiting mid r \<longleftrightarrow> x_model_id r = mid \<and> \<not> x_settled r \<and> x_dispatch_started r \<and> x_awaiting_quiescence r"

text \<open>One scan of \<^verbatim>\<open>_quiesce_model\<close>: whether it ends, and the records that the stop will settle.\<close>

definition quiesce_scan :: "string \<Rightarrow> ExecutionService \<Rightarrow> ExecutionService \<times> bool \<times> string list" where
  "quiesce_scan mid svc =
     (let rs = dvals (es_records svc); batch = filter (awaiting mid) rs; busy = filter (inflight mid) rs
      in if batch = [] \<and> busy = [] then (svc\<lparr>es_quiescing := removeAll mid (es_quiescing svc)\<rparr>, True, [])
         else (svc\<lparr>es_quiescing := List.insert mid (es_quiescing svc)\<rparr>, False, if busy \<noteq> [] then [] else map x_execution_id batch))"

definition release_quiescence_lease :: "string \<Rightarrow> ExecutionService \<Rightarrow> ExecutionService" where
  "release_quiescence_lease eid =
     with_record eid (\<lambda>r. release_record_lease (if x_error r = None \<and> \<not> x_cancel_pending r then SUCCESS else REJECTED) r)"

definition settle_with_stopped_proof :: "ExecEnv \<Rightarrow> time \<Rightarrow> ExecutionRecord \<Rightarrow> ExecutionService \<Rightarrow> ExecutionService \<times> bool" where
  "settle_with_stopped_proof env now r svc =
     (if x_settled r \<or> x_evidence r \<noteq> None then (svc, False)
      else case (case x_instance r of Some i \<Rightarrow> Some i | None \<Rightarrow> x_expected_instance r) of
             None \<Rightarrow> (svc, False)
           | Some inst \<Rightarrow>
               let r1 = r\<lparr>x_evidence := Some (dispatched_evidence (x_fence r) ''independent_STOPPED'' inst)\<rparr>;
                   r2 = (if x_dispatch_state r1 \<noteq> ''dispatched'' then r1\<lparr>x_dispatch_state := ''dispatched'', x_instance := Some inst\<rparr> else r1)
               in evaluate env now r2 svc)"

section \<open>Session drain\<close>

definition drain_record :: "ExecEnv \<Rightarrow> time \<Rightarrow> string \<Rightarrow> string \<Rightarrow> ExecutionService \<times> string list \<Rightarrow> ExecutionService \<times> string list" where
  "drain_record env now sid eid acc =
     (case acc of (svc, settled) \<Rightarrow>
        (case dget (es_records svc) eid of
           None \<Rightarrow> (svc, settled)
         | Some r \<Rightarrow>
             if x_session_id r \<noteq> sid \<or> x_settled r then (svc, settled)
             else if \<not> x_dispatch_started r
             then (terminate_local env now ''queue_timeout'' ''the session closed before dispatch'' r svc, settled @ [eid])
             else let (svc1, ended) = request_cancel env now ''session_expired'' ''the session closed while the execution ran'' r svc
                  in (svc1, if ended then settled @ [eid] else settled)))"

definition on_session_draining :: "ExecEnv \<Rightarrow> time \<Rightarrow> bool \<Rightarrow> string \<Rightarrow> ExecutionService \<Rightarrow> ExecutionService" where
  "on_session_draining env now ok sid svc =
     (let (svc1, settled) = fold (drain_record env now sid) (dkeys (es_records svc)) (svc, []) in fold (teardown ok) settled svc1)"

end
