(* ===== verification/Execution_Machine.thy ===== *)
theory Execution_Machine
  imports Execution_Service
begin

text \<open>
  Runs of the execution service.  The locked sections of the service interleave freely: client calls,
  backend reports, publications, the scans of the dispatcher and of the quiescer, session drains, and
  the sections of the task that each dispatched record runs (\<^verbatim>\<open>_run\<close>).  A ghost program counter says
  which section of its task comes next.  The theory shows what every record keeps under all
  interleavings: a terminal state rests on evidence and is final, a cancelled execution never
  succeeds, and the lease of a record is released exactly once.
\<close>

section \<open>The step relation\<close>

datatype RunPc = AtGuard | AtRefuse string string | AtInput | AtAdmit | AtReserve Fence | AtExecute | AtUncertain string

type_synonym exec_state = "ExecutionService \<times> (string, RunPc) dict"

definition torn_down :: "bool \<Rightarrow> bool \<Rightarrow> string \<Rightarrow> ExecutionService \<Rightarrow> ExecutionService" where
  "torn_down ok t eid svc = (if t then teardown ok eid svc else svc)"

definition local_end :: "ExecEnv \<Rightarrow> time \<Rightarrow> string \<Rightarrow> string \<Rightarrow> ExecutionRecord \<Rightarrow> ExecutionService \<Rightarrow> ExecutionService \<times> bool" where
  "local_end env now code message r svc = (terminate_local env now code message r svc, True)"

definition after_guard :: "string \<Rightarrow> string \<Rightarrow> (ExecutionService \<times> Guard) result \<Rightarrow> exec_state \<Rightarrow> exec_state" where
  "after_guard eid msg g m =
     (case g of
        Inl e \<Rightarrow> (fst m, dput eid (AtUncertain msg) (snd m))
      | Inr (svc, Refuse code message) \<Rightarrow> (svc, dput eid (AtRefuse code message) (snd m))
      | Inr (svc, Proceed) \<Rightarrow> (svc, if is_settled eid svc then ddel eid (snd m) else dput eid AtInput (snd m)))"

definition after_admit :: "string \<Rightarrow> ExecutionService \<Rightarrow> (string, RunPc) dict \<Rightarrow> (string, RunPc) dict" where
  "after_admit eid svc runs =
     (case dget (es_records svc) eid of
        None \<Rightarrow> ddel eid runs
      | Some r \<Rightarrow> if x_settled r then ddel eid runs else dput eid (AtReserve (x_fence r)) runs)"

inductive exec_step :: "ExecEnv \<Rightarrow> exec_state \<Rightarrow> exec_state \<Rightarrow> bool" for env :: ExecEnv where
  x_submit: "dget (es_records svc) eid = None \<Longrightarrow> submit env svc sm b sid owner document now eid opid = (svc', out)
    \<Longrightarrow> exec_step env (svc, runs) (svc', runs)"
| x_cancel: "cancel_locked env svc eid owner token now = Inr (svc', t) \<Longrightarrow> exec_step env (svc, runs) (torn_down ok t eid svc', runs)"
| x_output: "report_output_locked env svc eid body now = Inr (svc', t) \<Longrightarrow> exec_step env (svc, runs) (torn_down ok t eid svc', runs)"
| x_terminal: "check_evidence e = Inr e \<Longrightarrow> report_terminal_locked env svc eid e now = Inr (Some (svc', t))
    \<Longrightarrow> exec_step env (svc, runs) (torn_down ok t eid svc', runs)"
| x_publish_begin: "publish_begin eid svc = Some (svc', there) \<Longrightarrow> exec_step env (svc, runs) (svc', runs)"
| x_publish_end: "eid \<in> set (es_publish_inflight svc)
    \<Longrightarrow> exec_step env (svc, runs) (publish_end env now ok1 ok2 there answer eid svc, runs)"
| x_scan: "dispatch_scan env now sid svc = (svc', heads)
    \<Longrightarrow> exec_step env (svc, runs) (svc', fold (\<lambda>eid. dput eid AtGuard) heads runs)"
| x_guard: "dget runs eid = Some AtGuard \<Longrightarrow> dget (es_records svc) eid = Some r
    \<Longrightarrow> exec_step env (svc, runs) (after_guard eid msg (pre_dispatch_guard env svc sm b r now) (svc, runs))"
| x_refuse: "dget runs eid = Some (AtRefuse code message)
    \<Longrightarrow> exec_step env (svc, runs) (unless_settled ok eid (local_end env now code message) svc, ddel eid runs)"
| x_input_inline: "dget runs eid = Some AtInput \<Longrightarrow> exec_step env (svc, runs) (svc, dput eid AtAdmit runs)"
| x_input_blob: "dget runs eid = Some AtInput \<Longrightarrow> exec_step env (svc, runs) (input_opened eid svc, dput eid AtAdmit runs)"
| x_input_failed: "dget runs eid = Some AtInput
    \<Longrightarrow> exec_step env (svc, runs) (end_unsettled env now ok (blob_code code ''not_found'') ''the blob input is not readable'' eid svc, ddel eid runs)"
| x_admit: "dget runs eid = Some AtAdmit \<Longrightarrow> lease_request_id lease = eid \<Longrightarrow> svc' = run_admitted ok lease eid svc
    \<Longrightarrow> exec_step env (svc, runs) (svc', after_admit eid svc' runs)"
| x_admit_retry: "dget runs eid = Some AtAdmit \<Longrightarrow> admit_failure e = Retry \<Longrightarrow> exec_step env (svc, runs) (unclaim eid svc, ddel eid runs)"
| x_admit_failed: "dget runs eid = Some AtAdmit \<Longrightarrow> admit_failure e = End code message
    \<Longrightarrow> exec_step env (svc, runs) (end_unsettled env now ok code message eid svc, ddel eid runs)"
| x_reserve: "dget runs eid = Some (AtReserve fence) \<Longrightarrow> run_reserved ok ok' fence res eid svc = (svc', go)
    \<Longrightarrow> exec_step env (svc, runs) (svc', if go then dput eid AtExecute runs else ddel eid runs)"
| x_raised: "dget runs eid \<in> {Some AtInput, Some (AtReserve fence), Some AtExecute}
    \<Longrightarrow> exec_step env (svc, runs) (svc, dput eid (AtUncertain msg) runs)"
| x_timeout: "dget runs eid = Some AtExecute \<Longrightarrow> exec_step env (svc, runs) (unless_settled ok eid (on_timeout env now) svc, runs)"
| x_not_dispatched: "dget runs eid = Some AtExecute \<Longrightarrow> code \<noteq> []
    \<Longrightarrow> exec_step env (svc, runs) (unless_settled ok eid (local_end env now code message) svc, ddel eid runs)"
| x_handle: "dget runs eid = Some AtExecute
    \<Longrightarrow> exec_step env (svc, runs) (take_handle env now ok inst body claims eid svc, ddel eid runs)"
| x_uncertain: "dget runs eid = Some (AtUncertain msg)
    \<Longrightarrow> exec_step env (svc, runs) (unless_settled ok eid (terminate_uncertain env now msg current) svc, ddel eid runs)"
| x_quiesce: "quiesce_scan mid svc = (svc', ended, todo) \<Longrightarrow> exec_step env (svc, runs) (svc', runs)"
| x_quiesce_release: "dget (es_records svc) eid = Some r \<Longrightarrow> x_dispatch_started r
    \<Longrightarrow> exec_step env (svc, runs) (release_quiescence_lease eid svc, runs)"
| x_stopped: "dget (es_records svc) eid = Some r \<Longrightarrow> settle_with_stopped_proof env now r svc = (svc', t)
    \<Longrightarrow> exec_step env (svc, runs) (torn_down ok t eid svc', runs)"
| x_drain: "exec_step env (svc, runs) (on_session_draining env now ok sid svc, runs)"

definition exec_start :: "exec_state \<Rightarrow> bool" where
  "exec_start m \<longleftrightarrow> snd m = [] \<and> (\<exists>cap wait poll olimit grace boot managed idem.
     service_init cap wait poll olimit grace boot managed idem = Inr (fst m))"

section \<open>The invariant of a record\<close>

text \<open>The order of the states: queued, running, cancelling, then the terminal states.\<close>

definition rank :: "string \<Rightarrow> nat" where
  "rank s = (if s = ''queued'' then 0 else if s = ''running'' then 1 else if s = ''cancelling'' then 2 else 3)"

definition life_ok :: "ExecutionRecord \<Rightarrow> bool" where
  "life_ok r \<longleftrightarrow> (x_settled r \<longleftrightarrow> terminal r) \<and> x_state r \<in> set EXECUTION_STATES
     \<and> (x_settled r \<longrightarrow> x_evidence r \<noteq> None)
     \<and> (x_state r = ''succeeded'' \<longrightarrow> x_result r \<noteq> None \<and> x_error r = None \<and> \<not> x_cancel_pending r)
     \<and> (x_settled r \<and> x_state r \<noteq> ''succeeded'' \<longrightarrow> x_error r \<noteq> None \<and> x_result r = None)
     \<and> (\<not> x_settled r \<longrightarrow> x_result r = None \<and> x_error r = None) \<and> (x_publishing r \<longrightarrow> x_evidence r \<noteq> None)"

definition ident_ok :: "ExecutionRecord \<Rightarrow> bool" where
  "ident_ok r \<longleftrightarrow> x_dispatch_state r \<in> set DISPATCH_STATES \<and> (x_instance r \<noteq> None \<longleftrightarrow> x_dispatch_state r = ''dispatched'')
     \<and> (\<forall>e. x_evidence r = Some e \<longrightarrow> check_evidence e = Inr e)
     \<and> f_execution_id (x_fence r) = Some (x_execution_id r) \<and> f_attempt (x_fence r) = Some 1
     \<and> (\<forall>l. x_lease r = Some l \<longrightarrow> lease_request_id l = x_execution_id r) \<and> (x_lease_released r \<longrightarrow> x_lease r \<noteq> None)"

text \<open>Evidence that did not settle the record waits for its result only: nobody asked the record to end.\<close>

definition open_ok :: "ExecutionRecord \<Rightarrow> bool" where
  "open_ok r \<longleftrightarrow> (x_evidence r \<noteq> None \<and> \<not> x_settled r \<longrightarrow> \<not> x_cancel_pending r \<and> x_terminal_code r = None)"

definition xrec_ok :: "ExecutionRecord \<Rightarrow> bool" where
  "xrec_ok r \<longleftrightarrow> life_ok r \<and> ident_ok r \<and> open_ok r"

definition lease_ok :: "ExecutionRecord \<Rightarrow> bool" where
  "lease_ok r \<longleftrightarrow> (x_settled r \<and> x_lease r \<noteq> None \<longrightarrow> x_lease_released r)"

definition run_ok :: "RunPc \<Rightarrow> ExecutionRecord \<Rightarrow> bool" where
  "run_ok pc r \<longleftrightarrow> x_dispatch_claimed r \<and>
     (case pc of
        AtReserve f \<Rightarrow> \<not> x_dispatch_started r \<and> x_fence r = f \<and> (x_settled r \<or> x_state r = ''queued'')
      | AtExecute \<Rightarrow> x_dispatch_started r
      | AtUncertain msg \<Rightarrow> True
      | AtRefuse code message \<Rightarrow> code \<noteq> [] \<and> x_lease r = None \<and> \<not> x_dispatch_started r \<and> (x_settled r \<or> x_state r = ''queued'')
      | _ \<Rightarrow> x_lease r = None \<and> \<not> x_dispatch_started r \<and> (x_settled r \<or> x_state r = ''queued''))"

text \<open>What no section changes: the identity, a terminal outcome, and the direction of the state.\<close>

definition outcome :: "ExecutionRecord \<Rightarrow> string \<times> BlobRef option \<times> ErrorDetail option \<times> TerminationEvidence option \<times> InstanceIdentity option \<times> string \<times> Fence" where
  "outcome r = (x_state r, x_result r, x_error r, x_evidence r, x_instance r, x_dispatch_state r, x_fence r)"

definition rec_le :: "ExecutionRecord \<Rightarrow> ExecutionRecord \<Rightarrow> bool" where
  "rec_le r r' \<longleftrightarrow> x_execution_id r' = x_execution_id r \<and> x_session_id r' = x_session_id r \<and> x_owner r' = x_owner r
     \<and> (x_settled r \<longrightarrow> x_settled r' \<and> outcome r' = outcome r)
     \<and> (x_cancel_pending r \<longrightarrow> x_cancel_pending r') \<and> (x_evidence r \<noteq> None \<longrightarrow> x_evidence r' \<noteq> None)
     \<and> rank (x_state r) \<le> rank (x_state r')"

text \<open>
  What a section of another task keeps of the dispatch of a record.  With \<open>q\<close> the task of the record
  may go on, so an undispatched record keeps its state unless it was settled.
\<close>

definition keeps :: "bool \<Rightarrow> ExecutionRecord \<Rightarrow> ExecutionRecord \<Rightarrow> bool" where
  "keeps q r r' \<longleftrightarrow> x_dispatch_claimed r' = x_dispatch_claimed r \<and> x_lease r' = x_lease r \<and> x_dispatch_started r' = x_dispatch_started r
     \<and> x_fence r' = x_fence r \<and> (q \<longrightarrow> x_settled r' \<or> x_dispatch_started r \<or> x_state r' = x_state r)"

definition freed :: "ExecutionRecord \<Rightarrow> Lease list" where
  "freed r = (if x_lease_released r then [the (x_lease r)] else [])"

definition moves :: "ExecutionRecord \<Rightarrow> Lease list \<Rightarrow> ExecutionRecord \<Rightarrow> bool" where
  "moves r ls r' \<longleftrightarrow> xrec_ok r' \<and> rec_le r r' \<and> freed r' = freed r @ ls"

lemma rec_le_refl [simp]: "rec_le r r"
  by (simp add: rec_le_def)

lemma rec_le_trans: "rec_le r s \<Longrightarrow> rec_le s t \<Longrightarrow> rec_le r t"
  by (simp add: rec_le_def)

lemma keeps_refl [simp]: "keeps q r r"
  by (simp add: keeps_def)

lemma keeps_trans: "keeps q r s \<Longrightarrow> keeps q s t \<Longrightarrow> x_settled s \<longrightarrow> x_settled t \<Longrightarrow> keeps q r t"
  by (auto simp: keeps_def)

lemma moves_refl: "xrec_ok r \<Longrightarrow> moves r [] r"
  by (simp add: moves_def)

lemma moves_trans: "moves r ls s \<Longrightarrow> moves s ks t \<Longrightarrow> moves r (ls @ ks) t"
  by (auto simp: moves_def intro: rec_le_trans)

lemma keeps_moves: "keeps q r s \<Longrightarrow> keeps q s t \<Longrightarrow> moves s ks t \<Longrightarrow> keeps q r t"
  by (rule keeps_trans) (auto simp: moves_def rec_le_def)

section \<open>The records after each decision\<close>

definition evaluated :: "ExecutionRecord \<Rightarrow> ExecutionRecord" where
  "evaluated r =
     (if x_settled r \<or> x_evidence r = None then r
      else if x_cancel_pending r \<or> x_terminal_code r \<noteq> None
      then settled_as (if x_cancel_pending r then ''cancelled'' else ''failed'') (r\<lparr>x_error := Some (end_error r)\<rparr>)
      else if x_output_pending r \<noteq> None
      then if x_reservation r = None
           then settled_as ''failed'' (r\<lparr>x_error := Some (error_detail ''backend_failed'' ''a result cannot publish without dispatch'')\<rparr>)
           else r\<lparr>x_publishing := True\<rparr>
      else r)"

definition lease_torn :: "ExecutionRecord \<Rightarrow> ExecutionRecord" where
  "lease_torn r = (if x_lease r \<noteq> None \<and> \<not> x_lease_released r then r\<lparr>x_lease_released := True\<rparr> else r)"

definition torn :: "ExecutionRecord \<Rightarrow> ExecutionRecord" where
  "torn r = (let r1 = lease_torn r; r2 = (if x_input_ctx r1 \<and> \<not> x_input_closed r1 then r1\<lparr>x_input_closed := True\<rparr> else r1)
     in case x_reservation r2 of
          None \<Rightarrow> r2
        | Some res \<Rightarrow> if x_state r2 = ''succeeded'' then r2 else r2\<lparr>x_reservation := Some (fst (cancel_output res (x_fence r2)))\<rparr>)"

definition torn_leases :: "ExecutionRecord \<Rightarrow> Lease list" where
  "torn_leases r = (case x_lease r of None \<Rightarrow> [] | Some l \<Rightarrow> if x_lease_released r then [] else [l])"

text \<open>The record before a decision: it may carry evidence and a reason to end at the same time.\<close>

definition pending :: "ExecutionRecord \<Rightarrow> ExecutionRecord \<Rightarrow> bool" where
  "pending r r' \<longleftrightarrow> life_ok r' \<and> ident_ok r' \<and> \<not> x_settled r' \<and> rec_le r r' \<and> freed r' = freed r"

lemmas state_sets = EXECUTION_STATES_def EXECUTION_TERMINAL_STATES_def DISPATCH_STATES_def terminal_def

lemma torn_fields [simp]:
  "x_execution_id (torn r) = x_execution_id r" "x_session_id (torn r) = x_session_id r" "x_owner (torn r) = x_owner r"
  "x_state (torn r) = x_state r" "x_settled (torn r) = x_settled r" "outcome (torn r) = outcome r"
  "x_cancel_pending (torn r) = x_cancel_pending r" "x_evidence (torn r) = x_evidence r" "x_dispatch_claimed (torn r) = x_dispatch_claimed r"
  "x_lease (torn r) = x_lease r" "x_dispatch_started (torn r) = x_dispatch_started r" "x_fence (torn r) = x_fence r"
  "x_lease_released (torn r) = (x_lease_released r \<or> x_lease r \<noteq> None)" "x_terminal_code (torn r) = x_terminal_code r"
  "x_publishing (torn r) = x_publishing r" "x_result (torn r) = x_result r" "x_error (torn r) = x_error r"
  "x_dispatch_state (torn r) = x_dispatch_state r" "x_instance (torn r) = x_instance r"
  by (simp_all add: torn_def lease_torn_def Let_def outcome_def split: option.split)

lemma torn_moves: "xrec_ok r \<Longrightarrow> moves r (torn_leases r) (torn r) \<and> keeps q r (torn r) \<and> lease_ok (torn r)"
  by (auto simp: moves_def xrec_ok_def life_ok_def ident_ok_def open_ok_def rec_le_def keeps_def freed_def torn_leases_def lease_ok_def
      terminal_def split: option.split)

lemma evaluated_fields [simp]:
  "x_execution_id (evaluated r) = x_execution_id r" "x_session_id (evaluated r) = x_session_id r" "x_owner (evaluated r) = x_owner r"
  "x_dispatch_claimed (evaluated r) = x_dispatch_claimed r" "x_lease (evaluated r) = x_lease r"
  "x_dispatch_started (evaluated r) = x_dispatch_started r" "x_fence (evaluated r) = x_fence r"
  "x_lease_released (evaluated r) = x_lease_released r" "x_cancel_pending (evaluated r) = x_cancel_pending r"
  "x_evidence (evaluated r) = x_evidence r" "x_dispatch_state (evaluated r) = x_dispatch_state r" "x_instance (evaluated r) = x_instance r"
  "freed (evaluated r) = freed r"
  by (simp_all add: evaluated_def settled_as_def freed_def)

lemma evaluated_ok: "life_ok r \<Longrightarrow> ident_ok r \<Longrightarrow> \<not> x_settled r \<Longrightarrow> xrec_ok (evaluated r)"
  unfolding xrec_ok_def
proof (intro conjI)
  assume ok: "life_ok r" "ident_ok r" "\<not> x_settled r"
  show "life_ok (evaluated r)" using ok by (auto simp: life_ok_def evaluated_def settled_as_def state_sets)
  show "ident_ok (evaluated r)" using ok by (simp add: ident_ok_def)
  show "open_ok (evaluated r)" using ok by (auto simp: open_ok_def evaluated_def settled_as_def)
qed

lemma evaluated_rank: "rank (x_state r) \<le> rank (x_state (evaluated r))"
  by (simp add: evaluated_def settled_as_def rank_def)

lemma evaluated_moves: "pending r r1 \<Longrightarrow> \<not> x_settled r \<Longrightarrow> moves r [] (evaluated r1)"
  using evaluated_ok [of r1] order_trans [OF _ evaluated_rank [of r1], of "rank (x_state r)"]
  by (auto simp: pending_def moves_def rec_le_def)

lemma evaluated_state: "x_settled (evaluated r) \<or> x_state (evaluated r) = x_state r" "x_settled r \<Longrightarrow> evaluated r = r"
  by (simp_all add: evaluated_def settled_as_def)

lemma evaluated_keeps: "keeps q r r1 \<Longrightarrow> keeps q r (evaluated r1)"
  using evaluated_state [of r1] by (cases "x_settled r1") (auto simp: keeps_def)

section \<open>What a section does to the books\<close>

fun released :: "string \<Rightarrow> ExtCall list \<Rightarrow> Lease list" where
  "released eid [] = []"
| "released eid (ReleaseLease l oc # cs) = (if lease_request_id l = eid then l # released eid cs else released eid cs)"
| "released eid (c # cs) = released eid cs"

lemma released_append [simp]: "released eid (cs @ ds) = released eid cs @ released eid ds"
  by (induction eid cs rule: released.induct) auto

abbreviation rec_at :: "ExecutionService \<Rightarrow> string \<Rightarrow> ExecutionRecord option" where
  "rec_at svc eid \<equiv> dget (es_records svc) eid"

text \<open>Only the record \<open>eid\<close> changes, to \<open>r\<close>, and the leases \<open>ls\<close> of that record are released.\<close>

definition changes :: "string \<Rightarrow> ExecutionRecord \<Rightarrow> Lease list \<Rightarrow> ExecutionService \<Rightarrow> ExecutionService \<Rightarrow> bool" where
  "changes eid r ls svc svc' \<longleftrightarrow> (\<forall>e. rec_at svc' e = (if e = eid then Some r else rec_at svc e))
     \<and> (\<forall>e. released e (es_calls svc') = released e (es_calls svc) @ (if e = eid then ls else []))
     \<and> es_publish_inflight svc' = es_publish_inflight svc
     \<and> (distinct (dkeys (es_records svc)) \<longrightarrow> distinct (dkeys (es_records svc')))"

lemma changes_trans: "changes eid r ls a b \<Longrightarrow> changes eid s ks b c \<Longrightarrow> changes eid s (ls @ ks) a c"
  by (simp add: changes_def)

lemma changes_at: "changes eid r ls svc svc' \<Longrightarrow> rec_at svc' eid = Some r"
  by (simp add: changes_def)

lemma changes_none: "rec_at svc eid = Some r \<Longrightarrow> changes eid r [] svc svc"
  by (simp add: changes_def)

lemma put_record_changes: "x_execution_id r = eid \<Longrightarrow> changes eid r [] svc (put_record r svc)"
  by (simp add: changes_def put_record_def distinct_dkeys_dput)

text \<open>Sections that touch neither records nor lease calls.\<close>

definition same_books :: "ExecutionService \<Rightarrow> ExecutionService \<Rightarrow> bool" where
  "same_books svc svc' \<longleftrightarrow> es_records svc' = es_records svc \<and> (\<forall>e. released e (es_calls svc') = released e (es_calls svc))
     \<and> es_publish_inflight svc' = es_publish_inflight svc"

lemma changes_same: "same_books a b \<Longrightarrow> changes eid r ls b c \<Longrightarrow> changes eid r ls a c"
  by (simp add: changes_def same_books_def)

lemma same_changes: "changes eid r ls a b \<Longrightarrow> same_books b c \<Longrightarrow> changes eid r ls a c"
  by (simp add: changes_def same_books_def)

lemma same_books_refl [simp]: "same_books svc svc"
  by (simp add: same_books_def)

lemma same_books_trans: "same_books a b \<Longrightarrow> same_books b c \<Longrightarrow> same_books a c"
  by (simp add: same_books_def)

lemma same_finish [simp]: "same_books svc (finish_idempotency env now r svc)"
  by (simp add: same_books_def finish_idempotency_def split: option.split sum.split)

lemma same_cleanup [simp]: "same_books svc (add_cleanup bid svc)"
  by (simp add: same_books_def add_cleanup_def)

lemma same_call [simp]: "\<not> (\<exists>l oc. c = ReleaseLease l oc) \<Longrightarrow> same_books svc (call c svc)"
  by (cases c) (simp_all add: same_books_def call_def)

lemma same_note [simp]: "same_books svc (note_cancelled r svc)"
  by (simp add: note_cancelled_def)

lemma same_side_effects [simp]: "same_books svc (cancel_side_effects r svc)"
  by (auto simp: cancel_side_effects_def split: option.split intro: same_books_trans [OF same_call same_note])

lemma mark_settled_changes: "x_execution_id r = eid \<Longrightarrow> changes eid (settled_as st r) [] svc (mark_settled env now st r svc)"
  unfolding mark_settled_def by (rule same_changes [OF put_record_changes]) (simp_all add: settled_as_def)

lemma evaluate_changes:
  assumes "x_execution_id r = eid"
  shows "changes eid (evaluated r) [] svc (fst (evaluate env now r svc))"
    and "\<not> x_settled r \<Longrightarrow> snd (evaluate env now r svc) = x_settled (evaluated r)"
proof -
  show "changes eid (evaluated r) [] svc (fst (evaluate env now r svc))" using assms
    by (simp add: evaluate_def evaluated_def put_record_changes mark_settled_changes)
  show "\<not> x_settled r \<Longrightarrow> snd (evaluate env now r svc) = x_settled (evaluated r)"
    by (simp add: evaluate_def evaluated_def settled_as_def)
qed

lemma put_release_changes:
  assumes "x_execution_id r = eid" and "lease_request_id l = eid"
  shows "changes eid r [l] svc (call (ReleaseLease l oc) (put_record r svc))"
  using assms by (simp add: changes_def call_def put_record_def distinct_dkeys_dput)

lemma release_changes:
  assumes at: "rec_at svc eid = Some r" and eid: "x_execution_id r = eid" and lease: "\<forall>l. x_lease r = Some l \<longrightarrow> lease_request_id l = eid"
  shows "changes eid (lease_torn r) (torn_leases r) svc (release_record_lease oc r svc)"
proof (cases "x_lease r")
  case None
  with at show ?thesis by (simp add: release_record_lease_def lease_torn_def torn_leases_def changes_none)
next
  case (Some l)
  with at eid lease show ?thesis
    by (cases "x_lease_released r") (simp_all add: release_record_lease_def lease_torn_def torn_leases_def changes_none put_release_changes)
qed

lemma close_changes:
  assumes "rec_at svc eid = Some r" and "x_execution_id r = eid"
  shows "changes eid (if x_input_ctx r \<and> \<not> x_input_closed r then r\<lparr>x_input_closed := True\<rparr> else r) [] svc (close_input r svc)"
  using assms by (simp add: close_input_def changes_none same_changes [OF put_record_changes same_call])

lemma drop_changes:
  assumes "rec_at svc eid = Some r" and "x_execution_id r = eid"
  shows "changes eid (case x_reservation r of None \<Rightarrow> r | Some res \<Rightarrow> if x_state r = ''succeeded'' then r
      else r\<lparr>x_reservation := Some (fst (cancel_output res (x_fence r)))\<rparr>) [] svc (drop_output ok r svc)"
proof (cases "x_reservation r")
  case None
  with assms show ?thesis by (simp add: drop_output_def changes_none)
next
  case (Some res)
  have drop: "same_books s (call (AbandonOutput bid) (s\<lparr>es_pending_cleanup := p\<rparr>))" for s bid p
    by (simp add: same_books_def call_def)
  from assms Some show ?thesis
    by (cases ok) (simp_all add: drop_output_def Let_def changes_none same_changes [OF put_record_changes drop]
        same_changes [OF put_record_changes same_cleanup])
qed

lemma teardown_changes:
  assumes at: "rec_at svc eid = Some r" and eid: "x_execution_id r = eid" and lease: "\<forall>l. x_lease r = Some l \<longrightarrow> lease_request_id l = eid"
  shows "changes eid (torn r) (torn_leases r) svc (teardown ok eid svc)"
proof -
  define s1 where "s1 = with_record eid (\<lambda>r. release_record_lease (if x_state r = ''succeeded'' then SUCCESS else REJECTED) r) svc"
  define r2 where "r2 = (let r1 = lease_torn r in if x_input_ctx r1 \<and> \<not> x_input_closed r1 then r1\<lparr>x_input_closed := True\<rparr> else r1)"
  define s2 where "s2 = with_record eid close_input s1"
  have c1: "changes eid (lease_torn r) (torn_leases r) svc s1"
    unfolding s1_def with_record_def using release_changes [OF at eid lease] at by simp
  have id1: "x_execution_id (lease_torn r) = eid" using eid by (simp add: lease_torn_def)
  have c2: "changes eid r2 [] s1 s2"
    using close_changes [OF changes_at [OF c1] id1] changes_at [OF c1] by (simp add: s2_def with_record_def r2_def Let_def)
  have id2: "x_execution_id r2 = eid" using eid by (simp add: r2_def lease_torn_def Let_def)
  have "torn r = (case x_reservation r2 of None \<Rightarrow> r2 | Some res \<Rightarrow> if x_state r2 = ''succeeded'' then r2
      else r2\<lparr>x_reservation := Some (fst (cancel_output res (x_fence r2)))\<rparr>)"
    by (simp only: torn_def r2_def Let_def)
  then have "changes eid (torn r) [] s2 (with_record eid (drop_output ok) s2)"
    using drop_changes [OF changes_at [OF c2] id2] changes_at [OF c2] by (simp add: with_record_def)
  from changes_trans [OF changes_trans [OF c1 c2] this] show ?thesis by (simp add: teardown_def s2_def s1_def)
qed

section \<open>The invariant of the service\<close>

text \<open>The records in \<open>D\<close> still have to be torn down.\<close>

definition slot_ok :: "string set \<Rightarrow> exec_state \<Rightarrow> string \<Rightarrow> bool" where
  "slot_ok D m eid \<longleftrightarrow>
     (case rec_at (fst m) eid of
        None \<Rightarrow> released eid (es_calls (fst m)) = [] \<and> dget (snd m) eid = None \<and> eid \<notin> set (es_publish_inflight (fst m))
      | Some r \<Rightarrow> x_execution_id r = eid \<and> xrec_ok r \<and> (eid \<notin> D \<longrightarrow> lease_ok r) \<and> released eid (es_calls (fst m)) = freed r
          \<and> (\<not> x_dispatch_claimed r \<longrightarrow> x_lease r = None \<and> \<not> x_dispatch_started r)
          \<and> pred_option (\<lambda>pc. run_ok pc r) (dget (snd m) eid)
          \<and> (eid \<in> set (es_publish_inflight (fst m)) \<longrightarrow> x_evidence r \<noteq> None))"

definition owed_inv :: "string set \<Rightarrow> exec_state \<Rightarrow> bool" where
  "owed_inv D m \<longleftrightarrow> distinct (dkeys (es_records (fst m))) \<and> (\<forall>eid. slot_ok D m eid)"

abbreviation exec_inv :: "exec_state \<Rightarrow> bool" where
  "exec_inv \<equiv> owed_inv {}"

definition grows :: "exec_state \<Rightarrow> exec_state \<Rightarrow> bool" where
  "grows m m' \<longleftrightarrow> (\<forall>eid r. rec_at (fst m) eid = Some r \<longrightarrow> (\<exists>r'. rec_at (fst m') eid = Some r' \<and> rec_le r r'))"

definition safe :: "exec_state \<Rightarrow> exec_state \<Rightarrow> bool" where
  "safe m m' \<longleftrightarrow> (exec_inv m \<longrightarrow> exec_inv m' \<and> grows m m')"

lemma grows_refl [simp]: "grows m m"
  by (auto simp: grows_def)

lemma grows_trans: "grows a b \<Longrightarrow> grows b c \<Longrightarrow> grows a c"
  unfolding grows_def by (meson rec_le_trans)

lemma safe_refl [simp]: "safe m m"
  by (simp add: safe_def)

lemma safe_trans: "safe a b \<Longrightarrow> safe b c \<Longrightarrow> safe a c"
  unfolding safe_def by (blast intro: grows_trans)

lemma owed_inv_at:
  assumes "owed_inv D m" and "rec_at (fst m) eid = Some r"
  shows "x_execution_id r = eid" "xrec_ok r" "eid \<notin> D \<Longrightarrow> lease_ok r" "released eid (es_calls (fst m)) = freed r"
    "\<not> x_dispatch_claimed r \<Longrightarrow> x_lease r = None \<and> \<not> x_dispatch_started r" "pred_option (\<lambda>pc. run_ok pc r) (dget (snd m) eid)"
    "eid \<in> set (es_publish_inflight (fst m)) \<Longrightarrow> x_evidence r \<noteq> None"
proof -
  have "slot_ok D m eid" using assms(1) by (simp add: owed_inv_def)
  with assms(2) show "x_execution_id r = eid" "xrec_ok r" "eid \<notin> D \<Longrightarrow> lease_ok r" "released eid (es_calls (fst m)) = freed r"
    "\<not> x_dispatch_claimed r \<Longrightarrow> x_lease r = None \<and> \<not> x_dispatch_started r" "pred_option (\<lambda>pc. run_ok pc r) (dget (snd m) eid)"
    "eid \<in> set (es_publish_inflight (fst m)) \<Longrightarrow> x_evidence r \<noteq> None"
    by (simp_all add: slot_ok_def)
qed

lemmas exec_inv_at = owed_inv_at [of "{}", simplified]

lemma run_has_record:
  assumes "exec_inv m" and "dget (snd m) eid = Some pc"
  obtains r where "rec_at (fst m) eid = Some r" "run_ok pc r"
proof -
  have "slot_ok {} m eid" using assms(1) by (simp add: owed_inv_def)
  with assms(2) that show ?thesis by (cases "rec_at (fst m) eid") (simp_all add: slot_ok_def)
qed

lemma xrec_lease: "xrec_ok r \<Longrightarrow> x_lease r = Some l \<Longrightarrow> lease_request_id l = x_execution_id r"
  by (simp add: xrec_ok_def ident_ok_def)

text \<open>A change of one record, with the new program counter of its task.\<close>

lemma owed_change:
  assumes inv: "owed_inv D (svc, runs)" and at: "rec_at svc eid = Some r" and ch: "changes eid r' ls svc svc'"
    and runs: "\<And>e. e \<noteq> eid \<Longrightarrow> dget runs' e = dget runs e" and D: "\<And>e. e \<noteq> eid \<Longrightarrow> e \<in> D \<Longrightarrow> e \<in> D'"
    and new: "moves r ls r'" "eid \<notin> D' \<longrightarrow> lease_ok r'" "\<not> x_dispatch_claimed r' \<longrightarrow> x_lease r' = None \<and> \<not> x_dispatch_started r'"
      "pred_option (\<lambda>pc. run_ok pc r') (dget runs' eid)"
  shows "owed_inv D' (svc', runs') \<and> grows (svc, runs) (svc', runs')"
proof -
  have slot: "slot_ok D (svc, runs) e" for e using inv by (simp add: owed_inv_def)
  note old = owed_inv_at [OF inv, unfolded fst_conv snd_conv, OF at]
  have le: "rec_le r r'" using new by (simp add: moves_def)
  have "slot_ok D' (svc', runs') e" for e
  proof (cases "e = eid")
    case True
    with new le ch old(1,4,7) show ?thesis by (auto simp: slot_ok_def changes_def moves_def rec_le_def)
  next
    case False
    with slot [of e] ch runs [OF False] D [OF False] show ?thesis by (cases "rec_at svc e") (auto simp: slot_ok_def changes_def)
  qed
  moreover have "grows (svc, runs) (svc', runs')"
    using ch at le by (auto simp: grows_def changes_def)
  ultimately show "owed_inv D' (svc', runs') \<and> grows (svc, runs) (svc', runs')"
    using inv ch by (simp add: owed_inv_def changes_def)
qed

lemma safe_change:
  assumes at: "rec_at svc eid = Some r" and ch: "changes eid r' ls svc svc'" and runs: "\<And>e. e \<noteq> eid \<Longrightarrow> dget runs' e = dget runs e"
    and new: "\<lbrakk>x_execution_id r = eid; xrec_ok r; lease_ok r; \<not> x_dispatch_claimed r \<longrightarrow> x_lease r = None \<and> \<not> x_dispatch_started r;
        pred_option (\<lambda>pc. run_ok pc r) (dget runs eid)\<rbrakk>
      \<Longrightarrow> moves r ls r' \<and> lease_ok r' \<and> (\<not> x_dispatch_claimed r' \<longrightarrow> x_lease r' = None \<and> \<not> x_dispatch_started r')
          \<and> pred_option (\<lambda>pc. run_ok pc r') (dget runs' eid)"
  shows "safe (svc, runs) (svc', runs')"
  unfolding safe_def
proof
  assume inv: "exec_inv (svc, runs)"
  note old = exec_inv_at [OF inv, unfolded fst_conv snd_conv, OF at]
  have n: "moves r ls r' \<and> lease_ok r' \<and> (\<not> x_dispatch_claimed r' \<longrightarrow> x_lease r' = None \<and> \<not> x_dispatch_started r')
          \<and> pred_option (\<lambda>pc. run_ok pc r') (dget runs' eid)"
    using old by (intro new) blast+
  show "exec_inv (svc', runs') \<and> grows (svc, runs) (svc', runs')"
    by (rule owed_change [OF inv at ch runs]) (use n in simp_all)
qed

lemma keeps_run: "run_ok pc r \<Longrightarrow> keeps True r r' \<Longrightarrow> rec_le r r' \<Longrightarrow> run_ok pc r'"
  by (cases pc) (auto simp: run_ok_def keeps_def rec_le_def)

text \<open>The task of the record goes on or ends.\<close>

definition run_kept :: "bool \<Rightarrow> string \<Rightarrow> (string, RunPc) dict \<Rightarrow> (string, RunPc) dict \<Rightarrow> bool" where
  "run_kept q eid runs runs' \<longleftrightarrow> runs' = ddel eid runs \<or> q \<and> runs' = runs"

lemma run_kept_intros [simp]: "run_kept True eid runs runs" "run_kept q eid runs (ddel eid runs)"
  by (simp_all add: run_kept_def)

lemma safe_keep:
  assumes at: "rec_at svc eid = Some r" and ch: "changes eid r' ls svc svc'" and runs: "run_kept q eid runs runs'"
    and new: "\<lbrakk>x_execution_id r = eid; xrec_ok r; lease_ok r; \<not> x_dispatch_claimed r \<longrightarrow> x_lease r = None\<rbrakk>
      \<Longrightarrow> moves r ls r' \<and> keeps q r r' \<and> lease_ok r'"
  shows "safe (svc, runs) (svc', runs')"
proof (rule safe_change [OF at ch])
  show "dget runs' e = dget runs e" if "e \<noteq> eid" for e using that runs by (auto simp: run_kept_def)
next
  assume old: "x_execution_id r = eid" "xrec_ok r" "lease_ok r" "\<not> x_dispatch_claimed r \<longrightarrow> x_lease r = None \<and> \<not> x_dispatch_started r"
    "pred_option (\<lambda>pc. run_ok pc r) (dget runs eid)"
  have n: "moves r ls r'" "keeps q r r'" "lease_ok r'" using new old by simp_all
  have "pred_option (\<lambda>pc. run_ok pc r') (dget runs' eid)"
    using old(5) n keeps_run [of _ r r'] runs by (cases "dget runs eid") (auto simp: run_kept_def moves_def)
  with n old(4) show "moves r ls r' \<and> lease_ok r' \<and> (\<not> x_dispatch_claimed r' \<longrightarrow> x_lease r' = None \<and> \<not> x_dispatch_started r')
      \<and> pred_option (\<lambda>pc. run_ok pc r') (dget runs' eid)"
    by (simp add: keeps_def)
qed

text \<open>A settled record that is torn down has released its lease; an open one may keep it.\<close>

lemma torn_after:
  assumes ch: "changes eid r' [] svc svc1" and id: "x_execution_id r' = eid" and mv: "moves r [] r'" and k: "keeps q r r'"
    and t: "t \<or> lease_ok r'"
  obtains r2 ls where "changes eid r2 ls svc (torn_down ok t eid svc1)" "moves r ls r2" "keeps q r r2" "lease_ok r2"
proof (cases t)
  case True
  have ok: "xrec_ok r'" using mv by (simp add: moves_def)
  have "changes eid (torn r') (torn_leases r') svc1 (teardown ok eid svc1)"
    using teardown_changes [OF changes_at [OF ch] id] xrec_lease [OF ok] id by simp
  from changes_trans [OF ch this] have "changes eid (torn r') (torn_leases r') svc (teardown ok eid svc1)" by simp
  moreover note torn_moves [OF ok]
  moreover have "moves r (torn_leases r') (torn r')" using moves_trans [OF mv, of "torn_leases r'"] torn_moves [OF ok] by simp
  ultimately show ?thesis using that [of "torn r'" "torn_leases r'"] True keeps_moves [OF k] by (auto simp: torn_down_def)
next
  case False
  with that [of r' "[]"] ch mv k t show ?thesis by (simp add: torn_down_def)
qed

lemma safe_torn:
  assumes at: "rec_at svc eid = Some r" and ch: "changes eid r' [] svc svc1" and runs: "run_kept q eid runs runs'"
    and new: "\<lbrakk>x_execution_id r = eid; xrec_ok r; lease_ok r; \<not> x_dispatch_claimed r \<longrightarrow> x_lease r = None\<rbrakk>
      \<Longrightarrow> moves r [] r' \<and> keeps q r r' \<and> (t \<or> lease_ok r')"
  shows "safe (svc, runs) (torn_down ok t eid svc1, runs')"
  unfolding safe_def
proof
  assume inv: "exec_inv (svc, runs)"
  note a = exec_inv_at [OF inv, unfolded fst_conv snd_conv, OF at]
  have n: "moves r [] r'" "keeps q r r'" "t \<or> lease_ok r'" using new [OF a(1-3)] a(5) by blast+
  then have id: "x_execution_id r' = eid" using a(1) by (simp add: moves_def rec_le_def)
  obtain r2 ls where "changes eid r2 ls svc (torn_down ok t eid svc1)" "moves r ls r2" "keeps q r r2" "lease_ok r2"
    using torn_after [OF ch id n] .
  then have "safe (svc, runs) (torn_down ok t eid svc1, runs')" using safe_keep [OF at _ runs] by blast
  with inv show "exec_inv (torn_down ok t eid svc1, runs') \<and> grows (svc, runs) (torn_down ok t eid svc1, runs')"
    by (simp add: safe_def)
qed

lemma lease_ok_open: "\<not> x_settled r \<Longrightarrow> lease_ok r"
  by (simp add: lease_ok_def)

lemma safe_decide:
  assumes at: "rec_at svc eid = Some r" and runs: "run_kept q eid runs runs'" and opn: "\<not> x_settled r"
    and same: "same_books svc s0" and ev: "evaluate env now r1 s0 = (svc1, t)"
    and new: "\<lbrakk>x_execution_id r = eid; xrec_ok r\<rbrakk> \<Longrightarrow> pending r r1 \<and> keeps q r r1"
  shows "safe (svc, runs) (torn_down ok t eid svc1, runs')"
  unfolding safe_def
proof
  assume inv: "exec_inv (svc, runs)"
  note a = exec_inv_at [OF inv, unfolded fst_conv snd_conv, OF at]
  have n: "pending r r1" "keeps q r r1" using new [OF a(1,2)] by simp_all
  then have id: "x_execution_id r1 = eid" and o1: "\<not> x_settled r1" using a(1) by (simp_all add: pending_def rec_le_def)
  have ch: "changes eid (evaluated r1) [] svc svc1" and t: "t = x_settled (evaluated r1)"
    using changes_same [OF same evaluate_changes(1) [OF id, of s0 env now]] evaluate_changes(2) [OF id o1, of env now s0] ev by simp_all
  have "moves r [] (evaluated r1)" "keeps q r (evaluated r1)" "t \<or> lease_ok (evaluated r1)"
    using evaluated_moves [OF n(1) opn] evaluated_keeps [OF n(2)] t lease_ok_open by blast+
  then have "safe (svc, runs) (torn_down ok t eid svc1, runs')" using safe_torn [OF at ch runs] by blast
  with inv show "exec_inv (torn_down ok t eid svc1, runs') \<and> grows (svc, runs) (torn_down ok t eid svc1, runs')"
    by (simp add: safe_def)
qed

subsection \<open>Local ends\<close>

definition local_ended :: "string \<Rightarrow> string \<Rightarrow> ExecutionRecord \<Rightarrow> ExecutionRecord" where
  "local_ended code message r = settled_as (if code \<in> set CANCEL_CODES then ''cancelled'' else ''failed'')
     (r\<lparr>x_evidence := Some (local_evidence (x_fence r) code), x_error := Some (error_detail code message)\<rparr>)"

lemma local_evidence_ok: "code \<noteq> [] \<Longrightarrow> check_evidence (local_evidence f code) = Inr (local_evidence f code)"
  by (simp add: check_evidence_def local_evidence_def DISPATCH_STATES_def)

lemma local_moves:
  assumes "xrec_ok r" and "\<not> x_settled r" and "code \<noteq> []"
  shows "moves r [] (local_ended code message r) \<and> keeps q r (local_ended code message r)"
proof -
  have "xrec_ok (local_ended code message r)" using assms local_evidence_ok [OF assms(3)]
    by (simp add: xrec_ok_def life_ok_def ident_ok_def open_ok_def local_ended_def settled_as_def state_sets)
  then show ?thesis using assms
    by (simp add: moves_def rec_le_def keeps_def freed_def local_ended_def settled_as_def rank_def)
qed

lemma local_changes: "x_execution_id r = eid \<Longrightarrow> changes eid (local_ended code message r) [] svc (terminate_local env now code message r svc)"
  unfolding terminate_local_def local_ended_def by (rule mark_settled_changes) simp

end
