(* ===== verification/Execution_Properties.thy ===== *)
theory Execution_Properties
  imports Execution_Machine Book_Properties
begin

text \<open>
  Every section of the execution service keeps the invariant of its records, and the properties that
  follow for all interleavings: the outcome of an execution rests on evidence, is final, and is never a
  success after a cancel; the lease of a record is released exactly once.  The last section holds the
  paths on which the service keeps a resource that it should give back.
\<close>

section \<open>Records before a decision\<close>

lemma safe_given: "(exec_inv m \<Longrightarrow> safe m m') \<Longrightarrow> safe m m'"
  by (auto simp: safe_def)

lemma xrec_parts: "xrec_ok r \<Longrightarrow> life_ok r" "xrec_ok r \<Longrightarrow> ident_ok r" "xrec_ok r \<Longrightarrow> open_ok r"
  by (simp_all add: xrec_ok_def)

text \<open>A change of fields that the invariant does not read.\<close>

definition like :: "ExecutionRecord \<Rightarrow> ExecutionRecord \<Rightarrow> bool" where
  "like r r' \<longleftrightarrow> x_execution_id r' = x_execution_id r \<and> x_session_id r' = x_session_id r \<and> x_owner r' = x_owner r
     \<and> x_settled r' = x_settled r \<and> outcome r' = outcome r \<and> x_cancel_pending r' = x_cancel_pending r
     \<and> x_terminal_code r' = x_terminal_code r \<and> (x_publishing r' \<longrightarrow> x_publishing r) \<and> x_lease r' = x_lease r
     \<and> x_lease_released r' = x_lease_released r \<and> x_dispatch_claimed r' = x_dispatch_claimed r
     \<and> x_dispatch_started r' = x_dispatch_started r"

lemma like_parts:
  assumes "like r r'"
  shows "life_ok r \<Longrightarrow> life_ok r'" "ident_ok r \<Longrightarrow> ident_ok r'" "open_ok r \<Longrightarrow> open_ok r'" "rec_le r r'" "freed r' = freed r" "keeps q r r'"
  using assms
  by (simp_all add: like_def outcome_def life_ok_def ident_ok_def open_ok_def terminal_def rec_le_def freed_def keeps_def)

lemma like_ok: "like r r' \<Longrightarrow> xrec_ok r \<Longrightarrow> xrec_ok r'"
  by (simp add: xrec_ok_def like_parts)

lemma like_moves: "like r r' \<Longrightarrow> xrec_ok r \<Longrightarrow> moves r [] r' \<and> keeps q r r' \<and> lease_ok r' = lease_ok r"
  using like_ok [of r r'] by (simp add: like_def outcome_def moves_def rec_le_def keeps_def freed_def lease_ok_def)

lemma like_pending: "like r r' \<Longrightarrow> xrec_ok r \<Longrightarrow> \<not> x_settled r \<Longrightarrow> pending r r' \<and> keeps q r r'"
  using like_ok [of r r'] like_moves [of r r' q] by (simp add: pending_def moves_def xrec_ok_def like_def)

lemma cancel_reservation_like: "like r (fst (cancel_reservation r))"
proof (cases "x_reservation r")
  case (Some res)
  then show ?thesis by (simp add: like_def cancel_reservation_def outcome_def case_prod_beta)
qed (simp add: like_def cancel_reservation_def)

lemma pending_trans_like: "pending r r1 \<Longrightarrow> keeps q r r1 \<Longrightarrow> like r1 r2 \<Longrightarrow> pending r r2 \<and> keeps q r r2"
  using like_parts(1-5) [of r1 r2] like_parts(6) [of r1 r2 q] rec_le_trans [of r r1 r2] keeps_trans [of q r r1 r2]
  by (simp add: pending_def) (simp add: like_def)

text \<open>A request to end: the record is cancelling, with the first reason.\<close>

lemma cancelling_pending:
  assumes "xrec_ok r" and "\<not> x_settled r" and "q \<longrightarrow> x_dispatch_started r"
    and "r1 = mark_reason code message (r\<lparr>x_cancel_pending := c \<or> x_cancel_pending r\<rparr>)"
  shows "pending r (cancelling r1) \<and> keeps q r (cancelling r1)"
proof -
  have st: "\<not> terminal r1" "\<not> x_settled r1" using assms by (auto simp: mark_reason_def xrec_ok_def life_ok_def terminal_def)
  then have "cancelling r1 = r1\<lparr>x_state := ''cancelling''\<rparr>" by (simp add: cancelling_def)
  moreover have "rank (x_state r) \<le> 2" using assms by (auto simp: xrec_ok_def life_ok_def state_sets rank_def)
  ultimately show ?thesis using assms st
    by (auto simp: pending_def life_ok_def ident_ok_def xrec_ok_def state_sets rec_le_def freed_def keeps_def mark_reason_def rank_def)
qed

lemma request_cancel_decide:
  assumes at: "rec_at svc eid = Some r" and runs: "run_kept q eid runs runs'" and opn: "\<not> x_settled r"
    and st: "q \<longrightarrow> x_dispatch_started r" and ev: "request_cancel env now code message r svc = (svc1, t)"
  shows "safe (svc, runs) (torn_down ok t eid svc1, runs')"
proof (rule safe_decide [OF at runs opn same_side_effects ev [unfolded request_cancel_def begin_end_def]])
  assume "xrec_ok r"
  from cancelling_pending [OF this opn st, of _ code message True]
  show "pending r (fst (cancel_reservation (cancelling (mark_reason code message (r\<lparr>x_cancel_pending := True\<rparr>)))))
      \<and> keeps q r (fst (cancel_reservation (cancelling (mark_reason code message (r\<lparr>x_cancel_pending := True\<rparr>)))))"
    by (intro pending_trans_like [OF _ _ cancel_reservation_like]) simp_all
qed

lemma uncertain_decide:
  assumes at: "rec_at svc eid = Some r" and opn: "\<not> x_settled r" and ev: "terminate_uncertain env now message current r svc = (svc1, t)"
  shows "safe (svc, runs) (torn_down ok t eid svc1, ddel eid runs)"
proof -
  define r1 where "r1 = cancelling (mark_reason ''backend_failed'' message r)"
  define r2 where "r2 = (if es_managed svc \<and> x_dispatch_started r
     then r1\<lparr>x_awaiting_quiescence := True, x_expected_instance := (if x_instance r = None then current else x_expected_instance r)\<rparr> else r1)"
  have ev': "evaluate env now (fst (cancel_reservation (cancelling r2))) (cancel_side_effects (cancelling r2) svc) = (svc1, t)"
    using ev by (simp only: terminate_uncertain_def begin_end_def Let_def r1_def [symmetric] r2_def [symmetric])
  have l1: "like r1 r2" by (simp add: r2_def like_def outcome_def)
  have st: "terminal r2 \<or> x_state r2 = ''cancelling''"
    by (simp add: r2_def r1_def cancelling_def terminal_def)
  have l2: "like r2 (cancelling r2)" using st by (cases "terminal r2") (simp_all add: cancelling_def like_def outcome_def)
  show ?thesis
  proof (rule safe_decide [OF at run_kept_intros(2) opn same_side_effects ev'])
    assume "xrec_ok r"
    from cancelling_pending [OF this opn, of False _ "''backend_failed''" message False]
    have "pending r r1 \<and> keeps False r r1" by (simp add: r1_def)
    then have p2: "pending r r2 \<and> keeps False r r2" using pending_trans_like [OF _ _ l1] by blast
    then have "pending r (cancelling r2) \<and> keeps False r (cancelling r2)" using pending_trans_like [OF _ _ l2] by blast
    then show "pending r (fst (cancel_reservation (cancelling r2))) \<and> keeps False r (fst (cancel_reservation (cancelling r2)))"
      using pending_trans_like [OF _ _ cancel_reservation_like] by blast
  qed
qed

section \<open>Each section keeps the invariant\<close>

lemma safe_same:
  assumes "same_books svc svc'"
  shows "safe (svc, runs) (svc', runs)"
proof -
  have "slot_ok {} (svc, runs) e \<Longrightarrow> slot_ok {} (svc', runs) e" for e
    using assms by (cases "rec_at svc e") (simp_all add: slot_ok_def same_books_def)
  then show ?thesis using assms by (simp add: safe_def owed_inv_def grows_def same_books_def)
qed

lemma safe_run:
  assumes "\<And>r. rec_at svc eid = Some r \<Longrightarrow> pred_option (\<lambda>pc. run_ok pc r) (dget runs eid) \<Longrightarrow> pred_option (\<lambda>pc. run_ok pc r) pco"
    and runs: "\<And>e. dget runs' e = (if e = eid then pco else dget runs e)" and "rec_at svc eid = None \<longrightarrow> pco = None"
  shows "safe (svc, runs) (svc, runs')"
proof -
  have "slot_ok {} (svc, runs) e \<Longrightarrow> slot_ok {} (svc, runs') e" for e
    using assms by (cases "rec_at svc e"; cases "e = eid") (simp_all add: slot_ok_def)
  then show ?thesis by (simp add: safe_def owed_inv_def grows_def)
qed

lemma safe_end_run: "run_kept q eid runs runs' \<Longrightarrow> safe (svc, runs) (svc, runs')"
  by (cases "runs' = runs") (auto simp: run_kept_def intro!: safe_run [where eid = eid and pco = None])

lemma unless_safe:
  assumes "\<And>r svc1 t. \<lbrakk>rec_at svc eid = Some r; \<not> x_settled r; f r svc = (svc1, t)\<rbrakk> \<Longrightarrow> safe (svc, runs) (torn_down ok t eid svc1, runs')"
    and "run_kept q eid runs runs'"
  shows "safe (svc, runs) (unless_settled ok eid f svc, runs')"
proof (cases "rec_at svc eid")
  case None
  then show ?thesis using safe_end_run [OF assms(2)] by (simp add: unless_settled_def)
next
  case (Some r)
  then show ?thesis using assms(1) [OF Some] safe_end_run [OF assms(2)]
    by (cases "f r svc") (auto simp: unless_settled_def torn_down_def)
qed

lemma safe_local:
  assumes at: "rec_at svc eid = Some r" and opn: "\<not> x_settled r" and code: "code \<noteq> []" and runs: "run_kept q eid runs runs'"
  shows "safe (svc, runs) (teardown ok eid (terminate_local env now code message r svc), runs')"
proof (rule safe_given)
  assume "exec_inv (svc, runs)"
  from exec_inv_at(1) [OF this, unfolded fst_conv, OF at] have "x_execution_id r = eid" .
  from safe_torn [OF at local_changes [OF this, of code message svc env now] runs, of True ok] local_moves [of r code message q] opn code
  show ?thesis by (simp add: torn_down_def)
qed

lemma step_cancel:
  assumes "cancel_locked env svc eid owner token now = Inr (svc', t)"
  shows "safe (svc, runs) (torn_down ok t eid svc', runs)"
proof (cases "rec_at svc eid")
  case None
  with assms show ?thesis by (simp add: cancel_locked_def get_record_def)
next
  case (Some r)
  consider (set) "svc' = svc" "t = False"
    | (queued) "\<not> x_settled r" "svc' = terminate_local env now ''queue_timeout'' ''cancelled before dispatch'' r svc" "t = True"
    | (running) "\<not> x_settled r" "x_dispatch_started r" "request_cancel env now ''execution_timeout'' ''cancelled'' r svc = (svc', t)"
    using assms Some by (auto simp: cancel_locked_def get_record_def split: if_splits)
  then show ?thesis
  proof cases
    case queued
    then show ?thesis using safe_local [OF Some queued(1) _ run_kept_intros(1)] by (simp add: torn_down_def)
  next
    case running
    then show ?thesis using request_cancel_decide [OF Some run_kept_intros(1) running(1) _ running(3)] by simp
  qed (simp add: torn_down_def)
qed

lemma put_like:
  assumes at: "rec_at svc eid = Some r" and like: "like r r'" and same: "same_books (put_record r' svc) svc'" and runs: "run_kept q eid runs runs'"
  shows "safe (svc, runs) (svc', runs')"
proof (rule safe_given)
  assume "exec_inv (svc, runs)"
  from exec_inv_at(1) [OF this, unfolded fst_conv, OF at] like have "x_execution_id r' = eid" by (simp add: like_def)
  from safe_keep [OF at same_changes [OF put_record_changes [OF this] same] runs] like_moves [OF like]
  show ?thesis by simp
qed

lemma like_trans: "like r s \<Longrightarrow> like s t \<Longrightarrow> like r t"
  by (simp add: like_def)

lemma step_output:
  assumes "report_output_locked env svc eid body now = Inr (svc', t)"
  shows "safe (svc, runs) (torn_down ok t eid svc', runs)"
proof (cases "rec_at svc eid")
  case None
  with assms show ?thesis by (simp add: report_output_locked_def get_record_def)
next
  case (Some r)
  consider (set) "x_settled r" "svc' = svc" "t = False"
    | (late) "\<not> x_settled r" "svc' = note_cancelled r (put_record (fst (cancel_reservation (r\<lparr>x_output_pending := None\<rparr>))) svc)" "t = False"
    | (ev) "\<not> x_settled r" "evaluate env now (r\<lparr>x_output_pending := Some body\<rparr>) svc = (svc', t)"
    using assms Some by (auto simp: report_output_locked_def get_record_def split: if_splits)
  then show ?thesis
  proof cases
    case set
    then show ?thesis by (simp add: torn_down_def)
  next
    case late
    have "like r (r\<lparr>x_output_pending := None\<rparr>)" by (simp add: like_def outcome_def)
    from put_like [OF Some like_trans [OF this cancel_reservation_like] _ run_kept_intros(1), of svc'] late show ?thesis by (simp add: torn_down_def)
  next
    case ev
    have "like r (r\<lparr>x_output_pending := Some body\<rparr>)" by (simp add: like_def outcome_def)
    from safe_decide [OF Some run_kept_intros(1) ev(1) same_books_refl ev(2)] like_pending [OF this _ ev(1)] show ?thesis by blast
  qed
qed

lemma dispatched_evidence_ok:
  "check_evidence (dispatched_evidence f reason i) = Inr (dispatched_evidence f reason i)
     \<longleftrightarrow> f_execution_id f \<noteq> None \<and> f_attempt f \<noteq> None \<and> reason \<noteq> []"
  by (auto simp: check_evidence_def dispatched_evidence_def DISPATCH_STATES_def result_simps)

text \<open>Evidence for an open record that has none yet.\<close>

lemma evidence_pending:
  assumes ok: "xrec_ok r" and opn: "\<not> x_settled r" and e: "check_evidence e = Inr e"
    and r1: "r1 = r\<lparr>x_evidence := Some e, x_dispatch_state := d, x_instance := i\<rparr>"
    and d: "d \<in> set DISPATCH_STATES" "i \<noteq> None \<longleftrightarrow> d = ''dispatched''"
  shows "pending r r1 \<and> keeps q r r1"
proof -
  have "life_ok r1" using xrec_parts(1) [OF ok] opn by (auto simp: life_ok_def r1 terminal_def)
  moreover have "ident_ok r1" using xrec_parts(2) [OF ok] d e by (simp add: ident_ok_def r1)
  ultimately show ?thesis using opn by (simp add: pending_def keeps_def r1 rec_le_def freed_def)
qed

lemma check_evidence_instance: "check_evidence e = Inr e \<Longrightarrow> te_dispatch_state e = ''dispatched'' \<Longrightarrow> te_instance e \<noteq> None"
  by (auto simp: check_evidence_def)

lemma step_terminal:
  assumes e: "check_evidence e = Inr e" and rep: "report_terminal_locked env svc eid e now = Inr (Some (svc', t))"
  shows "safe (svc, runs) (torn_down ok t eid svc', runs)"
proof (cases "rec_at svc eid")
  case None
  with rep show ?thesis by (simp add: report_terminal_locked_def get_record_def)
next
  case (Some r)
  consider (dup) "svc' = svc" "t = False" | (new) "x_evidence r = None" "evaluate env now (with_terminal e r) svc = (svc', t)"
    using rep Some by (auto simp: report_terminal_locked_def get_record_def split: if_splits)
  then show ?thesis
  proof cases
    case dup
    then show ?thesis by (simp add: torn_down_def)
  next
    case new
    show ?thesis
    proof (rule safe_given)
      assume "exec_inv (svc, runs)"
      from exec_inv_at(2) [OF this, unfolded fst_conv, OF Some] have ok: "xrec_ok r" .
      have opn: "\<not> x_settled r" using xrec_parts(1) [OF ok] new(1) by (auto simp: life_ok_def)
      have "pending r (with_terminal e r) \<and> keeps True r (with_terminal e r)"
        using evidence_pending [OF ok opn e refl, of "''dispatched''" "te_instance e"] evidence_pending [OF ok opn e refl, of "x_dispatch_state r" "x_instance r"]
          check_evidence_instance [OF e] xrec_parts(2) [OF ok]
        by (cases "te_dispatch_state e = ''dispatched''") (simp_all add: with_terminal_def Let_def ident_ok_def DISPATCH_STATES_def)
      from safe_decide [OF Some run_kept_intros(1) opn same_books_refl new(2)] this show ?thesis by blast
    qed
  qed
qed

lemma pending_refl: "xrec_ok r \<Longrightarrow> \<not> x_settled r \<Longrightarrow> pending r r \<and> keeps q r r"
  by (simp add: pending_def xrec_ok_def)

lemma freed_update [simp]: "freed (r\<lparr>x_evidence := e\<rparr>) = freed r" "freed (r\<lparr>x_instance := i, x_dispatch_state := d\<rparr>) = freed r"
  by (simp_all add: freed_def)

lemma pending_evidence:
  assumes "pending r r1 \<and> keeps q r r1" and "check_evidence e = Inr e"
  shows "pending r (r1\<lparr>x_evidence := Some e\<rparr>) \<and> keeps q r (r1\<lparr>x_evidence := Some e\<rparr>)"
proof -
  have "life_ok (r1\<lparr>x_evidence := Some e\<rparr>)" "ident_ok (r1\<lparr>x_evidence := Some e\<rparr>)"
    using assms by (simp_all add: pending_def life_ok_def ident_ok_def terminal_def)
  moreover have "\<not> x_settled r" using assms by (auto simp: pending_def rec_le_def)
  ultimately show ?thesis using assms by (auto simp: pending_def keeps_def rec_le_def)
qed

lemma pending_instance:
  assumes "pending r r1 \<and> keeps q r r1"
  shows "pending r (r1\<lparr>x_instance := Some i, x_dispatch_state := ''dispatched''\<rparr>) \<and> keeps q r (r1\<lparr>x_instance := Some i, x_dispatch_state := ''dispatched''\<rparr>)"
proof -
  have "life_ok (r1\<lparr>x_instance := Some i, x_dispatch_state := ''dispatched''\<rparr>)" "ident_ok (r1\<lparr>x_instance := Some i, x_dispatch_state := ''dispatched''\<rparr>)"
    using assms by (simp_all add: pending_def life_ok_def ident_ok_def terminal_def DISPATCH_STATES_def)
  moreover have "\<not> x_settled r" using assms by (auto simp: pending_def rec_le_def)
  ultimately show ?thesis using assms by (auto simp: pending_def keeps_def rec_le_def)
qed

lemma pending_fence: "pending r r1 \<Longrightarrow> f_execution_id (x_fence r1) \<noteq> None \<and> f_attempt (x_fence r1) \<noteq> None"
  by (simp add: pending_def ident_ok_def)

lemma step_stopped:
  assumes at: "rec_at svc eid = Some r" and st: "settle_with_stopped_proof env now r svc = (svc', t)"
  shows "safe (svc, runs) (torn_down ok t eid svc', runs)"
proof (cases "x_settled r \<or> x_evidence r \<noteq> None \<or> (x_instance r = None \<and> x_expected_instance r = None)")
  case True
  with st show ?thesis by (auto simp: settle_with_stopped_proof_def torn_down_def split: option.splits)
next
  case False
  then obtain inst where inst: "(case x_instance r of Some i \<Rightarrow> Some i | None \<Rightarrow> x_expected_instance r) = Some inst"
    by (cases "x_instance r") auto
  define r1 where "r1 = r\<lparr>x_evidence := Some (dispatched_evidence (x_fence r) ''independent_STOPPED'' inst)\<rparr>"
  define r2 where "r2 = (if x_dispatch_state r1 \<noteq> ''dispatched'' then r1\<lparr>x_dispatch_state := ''dispatched'', x_instance := Some inst\<rparr> else r1)"
  have opn: "\<not> x_settled r" using False by simp
  have ev: "evaluate env now r2 svc = (svc', t)"
    using st False inst by (simp add: settle_with_stopped_proof_def r1_def r2_def Let_def split: if_splits)
  show ?thesis
  proof (rule safe_decide [OF at run_kept_intros(1) opn same_books_refl ev])
    assume "xrec_ok r"
    then have p: "pending r r \<and> keeps True r r" using opn by (rule pending_refl)
    have "pending r r1 \<and> keeps True r r1" unfolding r1_def
      using p pending_fence [of r r] by (intro pending_evidence) (simp_all add: dispatched_evidence_ok)
    moreover from pending_instance [OF this, of inst]
    have "pending r (r1\<lparr>x_dispatch_state := ''dispatched'', x_instance := Some inst\<rparr>) \<and> keeps True r (r1\<lparr>x_dispatch_state := ''dispatched'', x_instance := Some inst\<rparr>)"
      by (cases r1) simp
    ultimately show "pending r r2 \<and> keeps True r r2" by (simp add: r2_def)
  qed
qed

lemma offer_body_like: "like r (offer_body body r)"
proof (cases body)
  case (Some b)
  have "like r (r\<lparr>x_output_pending := None\<rparr>)" "like r (r\<lparr>x_output_pending := Some b\<rparr>)" "like r r" by (simp_all add: like_def outcome_def)
  with like_trans [OF this(1) cancel_reservation_like] Some show ?thesis by (simp add: offer_body_def)
qed (simp add: offer_body_def like_def)

lemma handle_pending:
  assumes "pending r r1 \<and> keeps q r r1"
  shows "pending r (with_handle managed claims inst r1) \<and> keeps q r (with_handle managed claims inst r1)"
proof -
  have "pending r (r1\<lparr>x_evidence := Some (dispatched_evidence (x_fence r1) ''request_protocol_terminated'' inst)\<rparr>)
      \<and> keeps q r (r1\<lparr>x_evidence := Some (dispatched_evidence (x_fence r1) ''request_protocol_terminated'' inst)\<rparr>)"
    using assms pending_fence [of r r1] by (intro pending_evidence) (simp_all add: dispatched_evidence_ok)
  moreover have "like r1 (r1\<lparr>x_awaiting_quiescence := True\<rparr>)" by (simp add: like_def outcome_def)
  then have "pending r (r1\<lparr>x_awaiting_quiescence := True\<rparr>) \<and> keeps q r (r1\<lparr>x_awaiting_quiescence := True\<rparr>)"
    using assms pending_trans_like by blast
  ultimately show ?thesis using assms by (simp add: with_handle_def)
qed

lemma handle_decide:
  assumes at: "rec_at svc eid = Some r" and opn: "\<not> x_settled r" and ev: "after_handle env now inst body claims r svc = (svc1, t)"
    and runs: "run_kept q eid runs runs'"
  shows "safe (svc, runs) (torn_down ok t eid svc1, runs')"
proof -
  define r1 where "r1 = r\<lparr>x_instance := Some inst, x_dispatch_state := ''dispatched''\<rparr>"
  define s1 where "s1 = (if body \<noteq> None \<and> x_cancel_pending r then note_cancelled r1 svc else svc)"
  have ev': "evaluate env now (with_handle (es_managed svc) claims inst (offer_body body r1)) s1 = (svc1, t)"
    using ev by (simp only: after_handle_def r1_def [symmetric] s1_def [symmetric] Let_def)
  have "same_books svc s1" by (simp add: s1_def)
  then show ?thesis
  proof (rule safe_decide [OF at runs opn _ ev'])
    assume "xrec_ok r"
    then have "pending r r1 \<and> keeps q r r1" unfolding r1_def by (intro pending_instance pending_refl opn)
    then have "pending r (offer_body body r1) \<and> keeps q r (offer_body body r1)" using pending_trans_like [OF _ _ offer_body_like] by blast
    then show "pending r (with_handle (es_managed svc) claims inst (offer_body body r1))
        \<and> keeps q r (with_handle (es_managed svc) claims inst (offer_body body r1))" by (rule handle_pending)
  qed
qed

lemma step_handle: "safe (svc, runs) (take_handle env now ok inst body claims eid svc, ddel eid runs)"
proof -
  have "safe (svc, runs) (unless_settled ok eid (after_handle env now inst body claims) svc, ddel eid runs)"
    using handle_decide [OF _ _ _ run_kept_intros(2)] by (rule unless_safe) simp_all
  then show ?thesis using safe_trans [OF _ safe_same [OF same_call]] by (simp add: take_handle_def Let_def)
qed

subsection \<open>Publication\<close>

lemma step_publish_begin:
  assumes "publish_begin eid svc = Some (svc', there)"
  shows "safe (svc, runs) (svc', runs)"
proof -
  from assms obtain r where at: "rec_at svc eid = Some r" and pub: "x_publishing r"
    and svc': "svc' = svc\<lparr>es_publish_inflight := eid # es_publish_inflight svc\<rparr>"
    by (auto simp: publish_begin_def split: option.splits if_splits)
  have "slot_ok {} (svc, runs) e \<Longrightarrow> slot_ok {} (svc', runs) e" for e
    using at pub by (cases "rec_at svc e") (auto simp: slot_ok_def svc' xrec_ok_def life_ok_def)
  then show ?thesis by (simp add: safe_def owed_inv_def grows_def svc')
qed

lemma safe_uninflight: "safe (svc, runs) (svc\<lparr>es_publish_inflight := removeAll eid (es_publish_inflight svc)\<rparr>, runs)"
proof -
  have "slot_ok {} (svc, runs) e \<Longrightarrow> slot_ok {} (svc\<lparr>es_publish_inflight := removeAll eid (es_publish_inflight svc)\<rparr>, runs) e" for e
    by (cases "rec_at svc e") (simp_all add: slot_ok_def)
  then show ?thesis by (simp add: safe_def owed_inv_def grows_def)
qed

lemma safe_teardown:
  assumes "rec_at svc eid = Some r"
  shows "safe (svc, runs) (teardown ok eid svc, runs)"
  using safe_torn [OF assms changes_none [OF assms] run_kept_intros(1), where t = True and ok = ok] moves_refl [of r]
  by (simp add: torn_down_def)

definition published_as :: "string + BlobRecord \<Rightarrow> ExecutionRecord \<Rightarrow> ExecutionRecord" where
  "published_as out r =
     (let r1 = r\<lparr>x_publishing := False, x_output_pending := None\<rparr> in
      if x_settled r then r1
      else case out of
             Inl failure \<Rightarrow>
               if failure = ''cancelled''
               then settled_as ''cancelled'' (r1\<lparr>x_cancel_pending := True,
                      x_error := (case x_error r1 of Some d \<Rightarrow> Some d
                         | None \<Rightarrow> Some (error_detail ''execution_timeout'' ''a late result is never published''))\<rparr>)
               else settled_as ''failed'' (r1\<lparr>x_error := Some (error_detail failure ''the result could not be published'')\<rparr>)
           | Inr p \<Rightarrow> settled_as ''succeeded'' (r1\<lparr>x_result := Some (blob_ref_of p)\<rparr>))"

lemma published_changes:
  assumes "x_execution_id r = eid"
  shows "changes eid (published_as out r) [] svc (settle_published env now out r svc)"
proof (cases out)
  case (Inl failure)
  with assms show ?thesis
    by (simp add: settle_published_def published_as_def Let_def put_record_changes changes_same [OF same_cleanup mark_settled_changes])
next
  case (Inr p)
  with assms show ?thesis by (simp add: settle_published_def published_as_def Let_def put_record_changes mark_settled_changes)
qed

lemma published_moves:
  assumes ok: "xrec_ok r" and ev: "x_evidence r \<noteq> None" and r': "r' = published_as out r"
  shows "moves r [] r' \<and> keeps True r r' \<and> x_settled r'"
proof (cases "x_settled r")
  case True
  have "like r r'" using True by (simp add: r' published_as_def Let_def like_def outcome_def)
  with like_moves [OF this ok] True show ?thesis by (simp add: r' published_as_def Let_def)
next
  case False
  have life: "x_result r = None" "x_error r = None" "x_cancel_pending r = False" using xrec_parts [OF ok] False ev by (auto simp: life_ok_def open_ok_def)
  have s: "x_settled r'" using False by (simp add: r' published_as_def Let_def settled_as_def split: sum.split)
  have same: "x_evidence r' = x_evidence r" "x_dispatch_state r' = x_dispatch_state r" "x_instance r' = x_instance r" "x_fence r' = x_fence r"
    "x_execution_id r' = x_execution_id r" "x_lease r' = x_lease r" "x_lease_released r' = x_lease_released r" "x_session_id r' = x_session_id r"
    "x_owner r' = x_owner r" "x_dispatch_claimed r' = x_dispatch_claimed r" "x_dispatch_started r' = x_dispatch_started r" "x_publishing r' = False"
    using False by (simp_all add: r' published_as_def Let_def settled_as_def split: sum.split)
  have "life_ok r'"
  proof (cases out)
    case (Inl failure)
    with False life ev show ?thesis by (auto simp: life_ok_def r' published_as_def Let_def settled_as_def state_sets)
  next
    case (Inr p)
    with False life ev show ?thesis by (auto simp: life_ok_def r' published_as_def Let_def settled_as_def state_sets)
  qed
  moreover have "ident_ok r'" using xrec_parts(2) [OF ok] same by (simp add: ident_ok_def)
  moreover have "rank (x_state r) \<le> rank (x_state r')"
    using False by (simp add: r' published_as_def Let_def settled_as_def rank_def split: sum.split)
  ultimately show ?thesis using s same False life
    by (simp add: moves_def xrec_ok_def open_ok_def rec_le_def keeps_def freed_def)
qed

lemma step_publish_end:
  assumes "eid \<in> set (es_publish_inflight svc)"
  shows "safe (svc, runs) (publish_end env now ok1 ok2 there answer eid svc, runs)"
proof (rule safe_given)
  assume inv: "exec_inv (svc, runs)"
  have "slot_ok {} (svc, runs) eid" using inv by (simp add: owed_inv_def)
  then obtain r where at: "rec_at svc eid = Some r" and id: "x_execution_id r = eid" and ev: "x_evidence r \<noteq> None"
    using assms by (cases "rec_at svc eid") (auto simp: slot_ok_def)
  define out where "out = publish_outcome there answer"
  define svc1 where "svc1 = settle_published env now out r svc"
  define svc2 where "svc2 = torn_down ok1 (\<not> x_settled r) eid svc1"
  define svc3 where "svc3 = svc2\<lparr>es_publish_inflight := removeAll eid (es_publish_inflight svc2)\<rparr>"
  have "safe (svc, runs) (svc2, runs)" unfolding svc2_def
  proof (rule safe_torn [OF at _ run_kept_intros(1)])
    show "changes eid (published_as out r) [] svc svc1" unfolding svc1_def using id by (rule published_changes)
    assume "xrec_ok r" "lease_ok r"
    then show "moves r [] (published_as out r) \<and> keeps True r (published_as out r) \<and> (\<not> x_settled r \<or> lease_ok (published_as out r))"
      using published_moves [OF _ ev refl, of out] by (auto simp: published_as_def Let_def lease_ok_def)
  qed
  also have "safe (svc2, runs) (svc3, runs)" unfolding svc3_def by (rule safe_uninflight)
  finally (safe_trans) have s3: "safe (svc, runs) (svc3, runs)" .
  have "publish_end env now ok1 ok2 there answer eid svc = (if is_settled eid svc3 then teardown ok2 eid svc3 else svc3)"
    using at by (auto simp: publish_end_def Let_def out_def svc1_def svc2_def svc3_def torn_down_def with_record_def is_settled_def)
  then show "safe (svc, runs) (publish_end env now ok1 ok2 there answer eid svc, runs)"
    using s3 safe_trans [OF s3 safe_teardown] by (auto simp: is_settled_def split: option.splits)
qed

subsection \<open>The task of a record\<close>

lemma safe_goto:
  assumes pc: "dget runs eid = Some pc" and ok: "\<And>r. run_ok pc r \<Longrightarrow> run_ok pc' r"
  shows "safe (svc, runs) (svc, dput eid pc' runs)"
proof (rule safe_given)
  assume "exec_inv (svc, runs)"
  then obtain r where at: "rec_at svc eid = Some r" using run_has_record [of "(svc, runs)" eid pc] pc by auto
  show ?thesis by (rule safe_run [where eid = eid and pco = "Some pc'"]) (use at pc ok in simp_all)
qed

lemma guard_cases:
  obtains (raised) e where "pre_dispatch_guard env svc sm b r now = Inl e"
  | (refuse) code message where "pre_dispatch_guard env svc sm b r now = Inr (svc, Refuse code message)" "code \<noteq> []"
  | (go) "pre_dispatch_guard env svc sm b r now = Inr (svc, Proceed)"
  | (refence) gen where "pre_dispatch_guard env svc sm b r now = Inr (put_record (refenced svc gen r) svc, Proceed)" "\<not> x_settled r"
proof (cases "pre_dispatch_guard env svc sm b r now")
  case (Inl e)
  then show ?thesis by (rule raised)
next
  case (Inr p)
  then have "p = (svc, Proceed) \<or> (\<exists>c m. p = (svc, Refuse c m) \<and> c \<noteq> []) \<or> (\<exists>gen. p = (put_record (refenced svc gen r) svc, Proceed) \<and> \<not> x_settled r)"
    unfolding pre_dispatch_guard_def by (auto split: if_splits sum.splits) blast
  with Inr refuse go refence show ?thesis by auto
qed

lemma refenced_ok:
  assumes "xrec_ok r" and "\<not> x_settled r"
  shows "xrec_ok (refenced svc gen r)" "rec_le r (refenced svc gen r)" "freed (refenced svc gen r) = freed r"
proof -
  show "xrec_ok (refenced svc gen r)" using assms
    by (auto simp: refenced_def xrec_ok_def life_ok_def ident_ok_def open_ok_def terminal_def)
  show "rec_le r (refenced svc gen r)" "freed (refenced svc gen r) = freed r" using assms by (simp_all add: refenced_def rec_le_def freed_def)
qed

lemma step_guard:
  assumes pc: "dget runs eid = Some AtGuard" and at: "rec_at svc eid = Some r"
  shows "safe (svc, runs) (after_guard eid msg (pre_dispatch_guard env svc sm b r now) (svc, runs))"
proof (cases rule: guard_cases [of env svc sm b r now])
  case (raised e)
  then show ?thesis using safe_goto [OF pc, of "AtUncertain msg" svc] by (simp add: after_guard_def run_ok_def)
next
  case (refuse code message)
  then show ?thesis using safe_goto [OF pc, of "AtRefuse code message" svc] by (simp add: after_guard_def run_ok_def)
next
  case go
  then show ?thesis using safe_goto [OF pc, of AtInput svc] safe_end_run [OF run_kept_intros(2)] by (simp add: after_guard_def run_ok_def)
next
  case (refence gen)
  define r' where "r' = refenced svc gen r"
  have fields: "x_settled r' = x_settled r" "x_execution_id r' = x_execution_id r" "x_dispatch_claimed r' = x_dispatch_claimed r" "x_lease r' = x_lease r"
    "x_dispatch_started r' = x_dispatch_started r" "x_state r' = x_state r" by (simp_all add: r'_def refenced_def)
  show ?thesis
  proof (rule safe_given)
    assume "exec_inv (svc, runs)"
    from exec_inv_at(1) [OF this, unfolded fst_conv, OF at] have id: "x_execution_id r' = eid" using fields by simp
    have "safe (svc, runs) (put_record r' svc, dput eid AtInput runs)"
    proof (rule safe_change [OF at put_record_changes [OF id]])
      assume "xrec_ok r" "pred_option (\<lambda>pc. run_ok pc r) (dget runs eid)"
      then show "moves r [] r' \<and> lease_ok r' \<and> (\<not> x_dispatch_claimed r' \<longrightarrow> x_lease r' = None \<and> \<not> x_dispatch_started r')
          \<and> pred_option (\<lambda>pc. run_ok pc r') (dget (dput eid AtInput runs) eid)"
        using refenced_ok [OF _ refence(2), of svc gen] refence(2) pc fields
        by (simp add: moves_def lease_ok_def run_ok_def r'_def [symmetric])
    qed simp
    moreover have "\<not> is_settled eid (put_record r' svc)" using id fields refence(2) by (simp add: is_settled_def put_record_def)
    ultimately show ?thesis using refence by (simp add: after_guard_def r'_def)
  qed
qed

lemma step_local_end: "code \<noteq> [] \<Longrightarrow> run_kept q eid runs runs' \<Longrightarrow> safe (svc, runs) (unless_settled ok eid (local_end env now code message) svc, runs')"
  using safe_local [where code = code and eid = eid and svc = svc and runs = runs and runs' = runs' and q = q]
  by (intro unless_safe [where q = q]) (auto simp: local_end_def torn_down_def)

lemma step_end_unsettled:
  assumes code: "code \<noteq> []" and runs: "run_kept q eid runs runs'"
  shows "safe (svc, runs) (end_unsettled env now ok code message eid svc, runs')"
proof (cases "rec_at svc eid")
  case None
  then show ?thesis using safe_end_run [OF runs] by (simp add: end_unsettled_def with_record_def teardown_def)
next
  case (Some r)
  then show ?thesis
    using safe_local [OF Some _ code runs] safe_trans [OF safe_teardown [OF Some] safe_end_run [OF runs]]
    by (simp add: end_unsettled_def with_record_def)
qed

lemma blob_code_nonempty: "d \<noteq> [] \<Longrightarrow> blob_code code d \<noteq> []"
  by (simp add: blob_code_def BLOB_CODES_def)

lemma admit_code_nonempty: "admit_failure e = End code message \<Longrightarrow> code \<noteq> []"
  using error_known_text [of "[]"] by (auto simp: admit_failure_def text_ok_def split: if_splits)

lemma settled_teardown:
  assumes inv: "exec_inv (svc, runs)" and at: "rec_at svc eid = Some r" and st: "x_settled r" and same: "same_books svc svc1"
  shows "rec_at (teardown ok eid svc1) eid = Some (torn r)"
proof -
  note a = exec_inv_at [OF inv, unfolded fst_conv, OF at]
  have "rec_at svc1 eid = Some r" using at same by (simp add: same_books_def)
  from changes_at [OF teardown_changes [OF this a(1)]] xrec_lease [OF a(2)] a(1) show ?thesis by simp
qed

lemma admitted_ok:
  assumes ok: "xrec_ok r" and opn: "\<not> x_settled r" and free: "x_lease r = None" and id: "lease_request_id lease = x_execution_id r"
    and r1: "r1 = r\<lparr>x_lease := Some lease\<rparr>"
  shows "moves r [] r1" "moves r [] (refenced svc gen r1)"
proof -
  have rel: "\<not> x_lease_released r" using ok free by (auto simp: xrec_ok_def ident_ok_def)
  have o1: "xrec_ok r1" using ok id by (auto simp: r1 xrec_ok_def life_ok_def ident_ok_def open_ok_def terminal_def)
  have le: "rec_le r r1" "freed r1 = freed r" "\<not> x_settled r1" using opn rel by (simp_all add: r1 rec_le_def freed_def)
  then show "moves r [] r1" using o1 by (simp add: moves_def)
  show "moves r [] (refenced svc gen r1)"
    using refenced_ok [OF o1 le(3), of svc gen] le rec_le_trans [OF le(1)] by (simp add: moves_def)
qed

lemma step_admit:
  assumes pc: "dget runs eid = Some AtAdmit" and id: "lease_request_id lease = eid"
  shows "safe (svc, runs) (run_admitted ok lease eid svc, after_admit eid (run_admitted ok lease eid svc) runs)"
proof (rule safe_given)
  assume inv: "exec_inv (svc, runs)"
  then obtain r where at: "rec_at svc eid = Some r" and run: "run_ok AtAdmit r" using run_has_record [of "(svc, runs)" eid] pc by auto
  note a = exec_inv_at [OF inv, unfolded fst_conv, OF at]
  show ?thesis
  proof (cases "x_settled r")
    case True
    then have "after_admit eid (run_admitted ok lease eid svc) runs = ddel eid runs"
      using settled_teardown [OF inv at True same_books_refl] at by (simp add: run_admitted_def after_admit_def)
    then show ?thesis using True at safe_trans [OF safe_teardown [OF at] safe_end_run [OF run_kept_intros(2)]]
      by (simp add: run_admitted_def)
  next
    case False
    define r1 where "r1 = r\<lparr>x_lease := Some lease\<rparr>"
    define r2 where "r2 = (if lease_generation lease \<noteq> f_generation (x_fence r) then refenced svc (lease_generation lease) r1 else r1)"
    have fields: "x_settled r2 = x_settled r" "x_execution_id r2 = eid" "x_dispatch_claimed r2 = x_dispatch_claimed r"
      "x_dispatch_started r2 = x_dispatch_started r" "x_state r2 = x_state r" using a(1) by (simp_all add: r2_def r1_def refenced_def)
    have eq1: "run_admitted ok lease eid svc = put_record r2 svc"
      using at False by (simp add: run_admitted_def admitted_def r2_def r1_def Let_def)
    have eq2: "after_admit eid (put_record r2 svc) runs = dput eid (AtReserve (x_fence r2)) runs"
      using False fields by (simp add: after_admit_def put_record_def)
    have "moves r [] r2" using admitted_ok [OF a(2) False _ _ r1_def] run id a(1) by (simp add: r2_def run_ok_def)
    with run fields False have "safe (svc, runs) (put_record r2 svc, dput eid (AtReserve (x_fence r2)) runs)"
      by (intro safe_change [OF at put_record_changes [OF fields(2)]]) (simp_all add: lease_ok_def run_ok_def)
    then show ?thesis by (simp add: eq1 eq2)
  qed
qed

lemma step_retry:
  assumes pc: "dget runs eid = Some AtAdmit"
  shows "safe (svc, runs) (unclaim eid svc, ddel eid runs)"
proof (rule safe_given)
  assume inv: "exec_inv (svc, runs)"
  then obtain r where at: "rec_at svc eid = Some r" and run: "run_ok AtAdmit r" using run_has_record [of "(svc, runs)" eid] pc by auto
  note a = exec_inv_at [OF inv, unfolded fst_conv, OF at]
  have id: "x_execution_id (r\<lparr>x_dispatch_claimed := False\<rparr>) = eid" using a(1) by simp
  have "xrec_ok (r\<lparr>x_dispatch_claimed := False\<rparr>)" using a(2) by (simp add: xrec_ok_def life_ok_def ident_ok_def open_ok_def terminal_def)
  with run have "safe (svc, runs) (put_record (r\<lparr>x_dispatch_claimed := False\<rparr>) svc, ddel eid runs)"
    by (intro safe_change [OF at put_record_changes [OF id]]) (simp_all add: lease_ok_def run_ok_def moves_def rec_le_def outcome_def freed_def)
  then show ?thesis using at by (simp add: unclaim_def with_record_def)
qed

lemma started_moves:
  assumes ok: "xrec_ok r" and opn: "\<not> x_settled r" and st: "x_state r = ''queued''"
  shows "moves r [] (started res r)"
proof -
  have s: "started res r = r\<lparr>x_reservation := Some res, x_dispatch_started := True, x_state := ''running''\<rparr>"
    using st by (simp add: started_def Let_def state_sets)
  have "xrec_ok (started res r)" using ok opn by (auto simp: s xrec_ok_def life_ok_def ident_ok_def open_ok_def state_sets)
  then show ?thesis using opn st by (simp add: s moves_def rec_le_def freed_def rank_def)
qed

lemma step_reserve:
  assumes pc: "dget runs eid = Some (AtReserve fence)" and res: "run_reserved ok ok' fence res eid svc = (svc', go)"
  shows "safe (svc, runs) (svc', if go then dput eid AtExecute runs else ddel eid runs)"
proof (rule safe_given)
  assume inv: "exec_inv (svc, runs)"
  then obtain r where at: "rec_at svc eid = Some r" and run: "run_ok (AtReserve fence) r" using run_has_record [of "(svc, runs)" eid] pc by auto
  note a = exec_inv_at [OF inv, unfolded fst_conv, OF at]
  show ?thesis
  proof (cases "x_settled r")
    case True
    define s1 where "s1 = (if ok' then call (AbandonOutput (or_blob_id res)) svc else svc)"
    have same: "same_books svc s1" by (simp add: s1_def)
    then have at1: "rec_at s1 eid = Some r" using at by (simp add: same_books_def)
    have "svc' = teardown ok eid s1" "\<not> go" using res at True by (auto simp: run_reserved_def s1_def)
    then show ?thesis using safe_trans [OF safe_trans [OF safe_same [OF same] safe_teardown [OF at1]] safe_end_run [OF run_kept_intros(2)]]
      by simp
  next
    case False
    then have q: "x_state r = ''queued''" and c: "x_dispatch_claimed r" "x_fence r = fence" using run by (auto simp: run_ok_def)
    have svc': "svc' = put_record (started res r) svc" "go" using res at False c by (auto simp: run_reserved_def)
    have f: "x_execution_id (started res r) = eid" "x_settled (started res r) = x_settled r" "x_dispatch_claimed (started res r)" "x_dispatch_started (started res r)"
      using a(1) c by (simp_all add: started_def Let_def)
    show ?thesis unfolding svc' using started_moves [OF a(2) False q] f False svc'(2)
      by (intro safe_change [OF at put_record_changes [OF f(1)]]) (simp_all add: lease_ok_def run_ok_def)
  qed
qed

lemma step_timeout:
  assumes pc: "dget runs eid = Some AtExecute"
  shows "safe (svc, runs) (unless_settled ok eid (on_timeout env now) svc, runs)"
proof (rule safe_given)
  assume inv: "exec_inv (svc, runs)"
  then obtain r where at: "rec_at svc eid = Some r" and run: "run_ok AtExecute r" using run_has_record [of "(svc, runs)" eid] pc by auto
  then have "x_dispatch_started r" by (simp add: run_ok_def)
  then show ?thesis using request_cancel_decide [OF at run_kept_intros(1)] at
    by (intro unless_safe [OF _ run_kept_intros(1)]) (simp add: on_timeout_def)
qed

lemma step_uncertain: "safe (svc, runs) (unless_settled ok eid (terminate_uncertain env now msg current) svc, ddel eid runs)"
  using uncertain_decide by (intro unless_safe [OF _ run_kept_intros(2)]) blast

lemma step_input_blob:
  assumes pc: "dget runs eid = Some AtInput"
  shows "safe (svc, runs) (input_opened eid svc, dput eid AtAdmit runs)"
proof (cases "rec_at svc eid")
  case None
  then show ?thesis using safe_goto [OF pc, of AtAdmit svc] by (simp add: input_opened_def with_record_def run_ok_def)
next
  case (Some r)
  have "like r (r\<lparr>x_input_ctx := True\<rparr>)" by (simp add: like_def outcome_def)
  from put_like [OF Some this same_books_refl run_kept_intros(1)] safe_trans [OF _ safe_goto [OF pc, of AtAdmit]] Some
  show ?thesis by (simp add: input_opened_def with_record_def run_ok_def)
qed

lemma lease_torn_moves: "xrec_ok r \<Longrightarrow> moves r (torn_leases r) (lease_torn r) \<and> keeps q r (lease_torn r) \<and> lease_ok (lease_torn r)"
  by (auto simp: lease_torn_def moves_def xrec_ok_def life_ok_def ident_ok_def open_ok_def rec_le_def outcome_def keeps_def freed_def torn_leases_def
      lease_ok_def terminal_def split: option.split)

lemma step_quiesce_release: "safe (svc, runs) (release_quiescence_lease eid svc, runs)"
proof (cases "rec_at svc eid")
  case (Some r)
  show ?thesis
  proof (rule safe_given)
    assume inv: "exec_inv (svc, runs)"
    note a = exec_inv_at [OF inv, unfolded fst_conv, OF Some]
    from release_changes [OF Some a(1)] xrec_lease [OF a(2)] a(1) Some
    have "changes eid (lease_torn r) (torn_leases r) svc (release_quiescence_lease eid svc)"
      by (simp add: release_quiescence_lease_def with_record_def)
    then show ?thesis using lease_torn_moves by (intro safe_keep [OF Some _ run_kept_intros(1)])
  qed
qed (simp add: release_quiescence_lease_def with_record_def)

subsection \<open>Submission\<close>

lemma same_claim: "claim_submission env svc d parsed sid owner now = Inr (svc1, idem) \<Longrightarrow> same_books svc svc1"
  by (auto simp: claim_submission_def Let_def same_books_def split: option.splits)

lemma same_fail [simp]: "same_books svc (fail_claim idem svc)"
  by (simp add: fail_claim_def same_books_def split: option.split)

lemma same_queue: "queue_execution env now r svc = (svc', out) \<Longrightarrow> same_books (put_record r svc) svc'"
  by (auto simp: queue_execution_def Let_def same_books_def split: option.splits sum.splits)

lemma submit_claimed_shape:
  assumes "submit_claimed env svc idem sm b session sid owner parsed now eid opid = (svc', out)"
  shows "same_books svc svc' \<or> (\<exists>gen. same_books (put_record (new_execution svc session owner parsed gen now eid opid idem) svc) svc')"
  using assms unfolding submit_claimed_def
  by (auto dest!: same_queue split: option.splits sum.splits if_splits)

lemma new_execution_ok:
  "xrec_ok (new_execution svc session owner parsed gen now eid opid idem)" "x_execution_id (new_execution svc session owner parsed gen now eid opid idem) = eid"
  by (simp_all add: new_execution_def xrec_ok_def life_ok_def ident_ok_def open_ok_def state_sets)

lemma safe_new:
  assumes free: "rec_at svc eid = None" and r: "r = new_execution s0 session owner parsed gen now eid opid idem" and same: "same_books (put_record r svc) svc'"
  shows "safe (svc, runs) (svc', runs)"
proof -
  have recs: "es_records svc' = dput eid r (es_records svc)" using same new_execution_ok(2) by (simp add: same_books_def put_record_def r)
  have calls: "released e (es_calls svc') = released e (es_calls svc)" "es_publish_inflight svc' = es_publish_inflight svc" for e
    using same by (simp_all add: same_books_def put_record_def)
  have f: "x_execution_id r = eid" "xrec_ok r" "lease_ok r" "freed r = []" "x_lease r = None" "\<not> x_dispatch_started r"
    using new_execution_ok by (simp_all add: r) (simp_all add: new_execution_def lease_ok_def freed_def)
  have "slot_ok {} (svc, runs) e \<Longrightarrow> slot_ok {} (svc', runs) e" for e
    using free f calls by (cases "e = eid"; cases "rec_at svc e") (simp_all add: slot_ok_def recs)
  moreover have "distinct (dkeys (es_records svc)) \<Longrightarrow> distinct (dkeys (es_records svc'))" using recs distinct_dkeys_dput by simp
  ultimately show ?thesis using free by (auto simp: safe_def owed_inv_def grows_def recs)
qed

lemma step_submit:
  assumes free: "rec_at svc eid = None" and sub: "submit env svc sm b sid owner document now eid opid = (svc', out)"
  shows "safe (svc, runs) (svc', runs)"
proof -
  have "svc' = svc \<or> (\<exists>svc1 idem session parsed. same_books svc svc1
      \<and> submit_claimed env svc1 idem sm b session sid owner parsed now eid opid = (svc', out))"
    using sub unfolding submit_def by (auto dest!: same_claim split: sum.splits if_splits prod.splits)
  then show ?thesis
  proof (elim disjE exE conjE)
    fix svc1 idem session parsed
    assume same: "same_books svc svc1" and cl: "submit_claimed env svc1 idem sm b session sid owner parsed now eid opid = (svc', out)"
    have free1: "rec_at svc1 eid = None" using same free by (simp add: same_books_def)
    from submit_claimed_shape [OF cl] have "safe (svc1, runs) (svc', runs)" using safe_same safe_new [OF free1 refl] by blast
    with safe_same [OF same] show ?thesis by (rule safe_trans)
  qed simp
qed

subsection \<open>Scans\<close>

lemma fold_safe:
  assumes "distinct (map x_execution_id rs)" and "\<And>r. r \<in> set rs \<Longrightarrow> rec_at (fst m) (x_execution_id r) = Some r"
    and step: "\<And>r m. r \<in> set rs \<Longrightarrow> rec_at (fst m) (x_execution_id r) = Some r
      \<Longrightarrow> safe m (g r m) \<and> (\<forall>e. e \<noteq> x_execution_id r \<longrightarrow> rec_at (fst (g r m)) e = rec_at (fst m) e)"
  shows "safe m (fold g rs m) \<and> (\<forall>e. e \<notin> x_execution_id ` set rs \<longrightarrow> rec_at (fst (fold g rs m)) e = rec_at (fst m) e)"
  using assms
proof (induction rs arbitrary: m)
  case Nil
  then show ?case by simp
next
  case (Cons r rs)
  have s: "safe m (g r m)" "\<And>e. e \<noteq> x_execution_id r \<Longrightarrow> rec_at (fst (g r m)) e = rec_at (fst m) e"
    using Cons.prems(3) [of r m] Cons.prems(2) [of r] by simp_all
  have "safe (g r m) (fold g rs (g r m)) \<and> (\<forall>e. e \<notin> x_execution_id ` set rs \<longrightarrow> rec_at (fst (fold g rs (g r m))) e = rec_at (fst (g r m)) e)"
  proof (rule Cons.IH)
    show "distinct (map x_execution_id rs)" using Cons.prems(1) by simp
    show "rec_at (fst (g r m)) (x_execution_id r') = Some r'" if "r' \<in> set rs" for r'
    proof -
      have "x_execution_id r' \<in> x_execution_id ` set rs" using that by (rule imageI)
      then have "x_execution_id r' \<noteq> x_execution_id r" using Cons.prems(1) by auto
      then show ?thesis using s(2) Cons.prems(2) that by simp
    qed
    show "safe m (g r' m) \<and> (\<forall>e. e \<noteq> x_execution_id r' \<longrightarrow> rec_at (fst (g r' m)) e = rec_at (fst m) e)"
      if "r' \<in> set rs" "rec_at (fst m) (x_execution_id r') = Some r'" for r' m
      using Cons.prems(3) that by simp
  qed
  with s show ?case using safe_trans [OF s(1)] by simp
qed

lemma inv_values:
  assumes inv: "exec_inv m"
  shows "map x_execution_id (dvals (es_records (fst m))) = dkeys (es_records (fst m))"
    and "r \<in> set (dvals (es_records (fst m))) \<Longrightarrow> rec_at (fst m) (x_execution_id r) = Some r"
proof -
  have d: "distinct (dkeys (es_records (fst m)))" using inv by (simp add: owed_inv_def)
  have at: "rec_at (fst m) (x_execution_id v) = Some v \<and> x_execution_id v = k" if "(k, v) \<in> set (es_records (fst m))" for k v
    using exec_inv_at(1) [OF inv, of k v] that d by (simp add: dget_iff_mem)
  then show "map x_execution_id (dvals (es_records (fst m))) = dkeys (es_records (fst m))" by auto
  show "rec_at (fst m) (x_execution_id r) = Some r" if "r \<in> set (dvals (es_records (fst m)))"
  proof -
    from that obtain k where "(k, r) \<in> set (es_records (fst m))" by auto
    from conjunct1 [OF at [OF this]] show ?thesis .
  qed
qed

lemma expire_safe:
  assumes at: "rec_at svc eid = Some r" and opn: "\<not> x_settled r" "\<not> x_dispatch_claimed r" and code: "code \<noteq> []"
  shows "safe (svc, runs) (terminate_local env now code message r svc, runs)"
proof (rule safe_given)
  assume inv: "exec_inv (svc, runs)"
  from exec_inv_at(1) [OF inv, unfolded fst_conv, OF at] have "x_execution_id r = eid" .
  from safe_torn [OF at local_changes [OF this, of code message svc env now] run_kept_intros(1), where t = False and runs = runs]
    local_moves [of r code message True] opn code
  show ?thesis by (simp add: torn_down_def lease_ok_def local_ended_def settled_as_def)
qed

lemma claim_safe:
  assumes at: "rec_at svc (x_execution_id r) = Some r" and opn: "\<not> x_settled r" "\<not> x_dispatch_claimed r" "x_state r = ''queued''"
  shows "safe (svc, runs) (put_record (r\<lparr>x_dispatch_claimed := True\<rparr>) svc, dput (x_execution_id r) AtGuard runs)"
proof (rule safe_change [OF at put_record_changes])
  assume old: "xrec_ok r" "lease_ok r" "\<not> x_dispatch_claimed r \<longrightarrow> x_lease r = None \<and> \<not> x_dispatch_started r"
  have "xrec_ok (r\<lparr>x_dispatch_claimed := True\<rparr>)" using old(1) by (simp add: xrec_ok_def life_ok_def ident_ok_def open_ok_def terminal_def)
  with old opn show "moves r [] (r\<lparr>x_dispatch_claimed := True\<rparr>) \<and> lease_ok (r\<lparr>x_dispatch_claimed := True\<rparr>)
      \<and> (\<not> x_dispatch_claimed (r\<lparr>x_dispatch_claimed := True\<rparr>) \<longrightarrow> x_lease (r\<lparr>x_dispatch_claimed := True\<rparr>) = None \<and> \<not> x_dispatch_started (r\<lparr>x_dispatch_claimed := True\<rparr>))
      \<and> pred_option (\<lambda>pc. run_ok pc (r\<lparr>x_dispatch_claimed := True\<rparr>)) (dget (dput (x_execution_id r) AtGuard runs) (x_execution_id r))"
    by (simp add: moves_def rec_le_def freed_def lease_ok_def run_ok_def)
qed simp_all

lemma fold_pair: "fold (\<lambda>x (a, b). (f x a, g x b)) xs (a, b) = (fold f xs a, fold g xs b)"
  by (induction xs arbitrary: a b) simp_all

lemma fold_const [simp]: "fold (\<lambda>x b. b) xs y = y"
  by (induction xs) simp_all

lemma changes_other: "changes eid r ls svc svc' \<Longrightarrow> e \<noteq> eid \<Longrightarrow> rec_at svc' e = rec_at svc e"
  by (simp add: changes_def)

lemma step_scan:
  assumes scan: "dispatch_scan env now sid svc = (svc', heads)"
  shows "safe (svc, runs) (svc', fold (\<lambda>eid. dput eid AtGuard) heads runs)"
proof (rule safe_given)
  assume inv: "exec_inv (svc, runs)"
  define ready where "ready = filter (dispatchable svc sid) (dvals (es_records svc))"
  define ex where "ex = filter (\<lambda>r. now \<ge> x_deadline r) ready"
  define hs where "hs = filter (\<lambda>r. \<not> now \<ge> x_deadline r) ready"
  define end1 where "end1 = (\<lambda>r. terminate_local env now ''queue_timeout'' ''queue deadline elapsed'' r)"
  define claim where "claim = (\<lambda>r. put_record (r\<lparr>x_dispatch_claimed := True\<rparr>))"
  note vals = inv_values [OF inv, unfolded fst_conv]
  have "distinct (map x_execution_id (dvals (es_records svc)))" unfolding vals(1) using inv by (simp add: owed_inv_def)
  then have d: "distinct (map x_execution_id ready)" unfolding ready_def by (rule distinct_map_filter)
  have at: "rec_at svc (x_execution_id r) = Some r \<and> \<not> x_settled r \<and> \<not> x_dispatch_claimed r \<and> x_state r = ''queued''" if "r \<in> set ready" for r
    using that vals(2) [of r] by (auto simp: ready_def dispatchable_def)
  have e: "safe (svc, runs) (fold (\<lambda>r (s, ru). (end1 r s, id ru)) ex (svc, runs))
      \<and> (\<forall>e. e \<notin> x_execution_id ` set ex \<longrightarrow> rec_at (fst (fold (\<lambda>r (s, ru). (end1 r s, id ru)) ex (svc, runs))) e = rec_at (fst (svc, runs)) e)"
  proof (rule fold_safe)
    show "distinct (map x_execution_id ex)" using d by (simp add: ex_def distinct_map_filter)
    show "rec_at (fst (svc, runs)) (x_execution_id r) = Some r" if "r \<in> set ex" for r using that at by (simp add: ex_def)
    fix r and m :: exec_state assume r: "r \<in> set ex" and "rec_at (fst m) (x_execution_id r) = Some r"
    then show "safe m (case m of (s, ru) \<Rightarrow> (end1 r s, id ru)) \<and> (\<forall>e. e \<noteq> x_execution_id r \<longrightarrow> rec_at (fst (case m of (s, ru) \<Rightarrow> (end1 r s, id ru))) e = rec_at (fst m) e)"
      using at [of r] expire_safe changes_other [OF local_changes [OF refl]] by (cases m) (simp add: end1_def ex_def)
  qed
  define svc1 where "svc1 = fold end1 ex svc"
  have f1: "fold (\<lambda>r (s, ru). (end1 r s, id ru)) ex (svc, runs) = (svc1, runs)" by (simp add: fold_pair svc1_def)
  have e1: "safe (svc, runs) (svc1, runs)" and e2: "\<And>e. e \<notin> x_execution_id ` set ex \<Longrightarrow> rec_at svc1 e = rec_at svc e"
    using e unfolding f1 by simp_all
  have disj: "x_execution_id r \<notin> x_execution_id ` set ex" if "r \<in> set hs" for r
    using that at by (auto simp: hs_def ex_def) (metis option.inject)
  have h: "safe (svc1, runs) (fold (\<lambda>r (s, ru). (claim r s, dput (x_execution_id r) AtGuard ru)) hs (svc1, runs))
      \<and> (\<forall>e. e \<notin> x_execution_id ` set hs \<longrightarrow> rec_at (fst (fold (\<lambda>r (s, ru). (claim r s, dput (x_execution_id r) AtGuard ru)) hs (svc1, runs))) e = rec_at (fst (svc1, runs)) e)"
  proof (rule fold_safe)
    show "distinct (map x_execution_id hs)" using d by (simp add: hs_def distinct_map_filter)
    show "rec_at (fst (svc1, runs)) (x_execution_id r) = Some r" if "r \<in> set hs" for r
      using that at [of r] e2 [OF disj [OF that]] by (simp add: hs_def)
    fix r and m :: exec_state assume r: "r \<in> set hs" and "rec_at (fst m) (x_execution_id r) = Some r"
    then show "safe m (case m of (s, ru) \<Rightarrow> (claim r s, dput (x_execution_id r) AtGuard ru))
        \<and> (\<forall>e. e \<noteq> x_execution_id r \<longrightarrow> rec_at (fst (case m of (s, ru) \<Rightarrow> (claim r s, dput (x_execution_id r) AtGuard ru))) e = rec_at (fst m) e)"
      using at [of r] claim_safe by (cases m) (simp add: claim_def hs_def put_record_def)
  qed
  have "svc' = fold claim hs svc1" "heads = map x_execution_id hs"
    using scan by (simp_all add: dispatch_scan_def Let_def ready_def hs_def ex_def svc1_def claim_def end1_def)
  then show "safe (svc, runs) (svc', fold (\<lambda>eid. dput eid AtGuard) heads runs)"
    using safe_trans [OF e1 conjunct1 [OF h]] by (simp add: fold_pair fold_map o_def)
qed

lemma step_quiesce: "quiesce_scan mid svc = (svc', ended, todo) \<Longrightarrow> safe (svc, runs) (svc', runs)"
  by (rule safe_same) (auto simp: quiesce_scan_def Let_def same_books_def split: if_splits)

subsection \<open>Session drain\<close>

lemma owed_keep:
  assumes inv: "owed_inv D (svc, runs)" and at: "rec_at svc eid = Some r" and ch: "changes eid r' ls svc svc'"
    and D: "\<And>e. e \<noteq> eid \<Longrightarrow> e \<in> D \<Longrightarrow> e \<in> D'" and new: "moves r ls r'" "keeps True r r'" "eid \<notin> D' \<longrightarrow> lease_ok r'"
  shows "owed_inv D' (svc', runs) \<and> grows (svc, runs) (svc', runs)"
proof (rule owed_change [OF inv at ch])
  note a = owed_inv_at [OF inv, unfolded fst_conv snd_conv, OF at]
  show "\<not> x_dispatch_claimed r' \<longrightarrow> x_lease r' = None \<and> \<not> x_dispatch_started r'" using a(5) new(2) by (simp add: keeps_def)
  have "rec_le r r'" using new(1) by (simp add: moves_def)
  with a(6) new(2) show "pred_option (\<lambda>pc. run_ok pc r') (dget runs eid)" by (cases "dget runs eid") (simp_all add: keeps_run)
qed (use D new in auto)

lemma drain_record_owed:
  assumes inv: "owed_inv (set L) (svc, runs)" and d: "drain_record env now sid eid (svc, L) = (svc', L')"
  shows "owed_inv (set L') (svc', runs) \<and> grows (svc, runs) (svc', runs)"
proof (cases "rec_at svc eid")
  case None
  with d inv show ?thesis by (simp add: drain_record_def)
next
  case (Some r)
  note a = owed_inv_at [OF inv, unfolded fst_conv snd_conv, OF Some]
  consider (skip) "svc' = svc" "L' = L"
    | (queued) "\<not> x_settled r" "svc' = terminate_local env now ''queue_timeout'' ''the session closed before dispatch'' r svc" "L' = L @ [eid]"
    | (run) t where "\<not> x_settled r" "x_dispatch_started r" "L' = (if t then L @ [eid] else L)"
        "request_cancel env now ''session_expired'' ''the session closed while the execution ran'' r svc = (svc', t)"
    using d Some by (auto simp: drain_record_def split: if_splits prod.splits)
  then show ?thesis
  proof cases
    case queued
    then show ?thesis using owed_keep [OF inv Some local_changes [OF a(1)], where D' = "set L'"] local_moves [OF a(2) queued(1), of "''queue_timeout''" _ True]
      by simp
  next
    case (run t)
    define r1 where "r1 = fst (cancel_reservation (cancelling (mark_reason ''session_expired'' ''the session closed while the execution ran'' (r\<lparr>x_cancel_pending := True\<rparr>))))"
    have p: "pending r r1 \<and> keeps True r r1" unfolding r1_def
      using cancelling_pending [OF a(2) run(1), of True _ _ _ True] run(2) by (intro pending_trans_like [OF _ _ cancel_reservation_like]) simp_all
    then have id: "x_execution_id r1 = eid" "\<not> x_settled r1" using a(1) by (simp_all add: pending_def rec_le_def)
    obtain s0 where same: "same_books svc s0" and ev: "evaluate env now r1 s0 = (svc', t)"
      using run(4) same_side_effects unfolding request_cancel_def begin_end_def r1_def by blast
    have ch: "changes eid (evaluated r1) [] svc svc'" and t: "t = x_settled (evaluated r1)"
      using changes_same [OF same evaluate_changes(1) [OF id(1), of s0 env now]] evaluate_changes(2) [OF id, of env now s0] ev by simp_all
    show ?thesis using run(3) t
      by (intro owed_keep [OF inv Some ch]) (auto simp: evaluated_moves p run(1) evaluated_keeps lease_ok_def split: if_splits)
  qed (use inv in simp)
qed

lemma drain_owed:
  "owed_inv (set L) (svc, runs) \<Longrightarrow> fold (drain_record env now sid) ks (svc, L) = (svc', L') \<Longrightarrow> owed_inv (set L') (svc', runs) \<and> grows (svc, runs) (svc', runs)"
proof (induction ks arbitrary: svc L)
  case (Cons k ks)
  obtain s1 L1 where d: "drain_record env now sid k (svc, L) = (s1, L1)" by (cases "drain_record env now sid k (svc, L)")
  from drain_record_owed [OF Cons.prems(1) d] Cons.IH [of L1 s1] Cons.prems(2) d show ?case using grows_trans by auto
qed simp

lemma teardown_owed:
  "owed_inv (set L) (svc, runs) \<Longrightarrow> exec_inv (fold (teardown ok) L svc, runs) \<and> grows (svc, runs) (fold (teardown ok) L svc, runs)"
proof (induction L arbitrary: svc)
  case (Cons eid L)
  have "owed_inv (set L) (teardown ok eid svc, runs) \<and> grows (svc, runs) (teardown ok eid svc, runs)"
  proof (cases "rec_at svc eid")
    case None
    have "slot_ok (set (eid # L)) (svc, runs) e \<Longrightarrow> slot_ok (set L) (svc, runs) e" for e
      using None by (cases "rec_at svc e"; cases "e = eid") (simp_all add: slot_ok_def)
    with None Cons.prems show ?thesis by (simp add: teardown_def with_record_def owed_inv_def)
  next
    case (Some r)
    note a = owed_inv_at [OF Cons.prems, unfolded fst_conv snd_conv, OF Some]
    from teardown_changes [OF Some a(1)] xrec_lease [OF a(2)] a(1) have "changes eid (torn r) (torn_leases r) svc (teardown ok eid svc)" by simp
    from owed_keep [OF Cons.prems Some this, of "set L"] torn_moves [OF a(2)] show ?thesis by simp
  qed
  with Cons.IH [of "teardown ok eid svc"] show ?case using grows_trans by auto
qed simp

lemma step_drain: "safe (svc, runs) (on_session_draining env now ok sid svc, runs)"
  unfolding safe_def
proof
  assume inv: "exec_inv (svc, runs)"
  obtain svc1 L where f: "fold (drain_record env now sid) (dkeys (es_records svc)) (svc, []) = (svc1, L)"
    by (cases "fold (drain_record env now sid) (dkeys (es_records svc)) (svc, [])")
  have "owed_inv (set L) (svc1, runs) \<and> grows (svc, runs) (svc1, runs)" using drain_owed [OF _ f] inv by simp
  with teardown_owed [of L svc1 runs ok] f show "exec_inv (on_session_draining env now ok sid svc, runs) \<and> grows (svc, runs) (on_session_draining env now ok sid svc, runs)"
    using grows_trans by (auto simp: on_session_draining_def)
qed

section \<open>All interleavings\<close>

lemma exec_step_safe: "exec_step env m m' \<Longrightarrow> safe m m'"
proof (induction rule: exec_step.induct)
  case (x_raised runs eid fence svc msg)
  then obtain pc where "dget runs eid = Some pc" by auto
  then show ?case by (rule safe_goto) (simp add: run_ok_def)
next
  case (x_refuse runs eid code message svc ok now)
  show ?case
  proof (rule safe_given)
    assume "exec_inv (svc, runs)"
    then obtain r where "run_ok (AtRefuse code message) r" using run_has_record [of "(svc, runs)" eid] x_refuse by auto
    then show ?thesis using step_local_end [OF _ run_kept_intros(2)] by (simp add: run_ok_def)
  qed
next
  case (x_input_inline runs eid svc)
  then show ?case by (rule safe_goto) (simp add: run_ok_def)
next
  case (x_admit runs eid lease svc' ok svc)
  then show ?case using step_admit by simp
qed (rule step_submit step_cancel step_output step_terminal step_publish_begin step_publish_end step_scan step_guard step_input_blob
      step_end_unsettled [OF blob_code_nonempty run_kept_intros(2)] step_retry step_end_unsettled [OF admit_code_nonempty run_kept_intros(2)]
      step_reserve step_timeout step_local_end [OF _ run_kept_intros(2)] step_handle step_uncertain step_quiesce step_quiesce_release step_stopped
      step_drain; (assumption | simp))+

lemma exec_start_inv: "exec_start m \<Longrightarrow> exec_inv m"
  by (cases m) (auto simp: exec_start_def service_init_def owed_inv_def slot_ok_def)

interpretation exm: machine exec_start "exec_step env" exec_inv for env
  using exec_start_inv exec_step_safe by unfold_locales (auto simp: safe_def)

lemma exec_run_grows: "(exec_step env)\<^sup>*\<^sup>* m m' \<Longrightarrow> exec_inv m \<Longrightarrow> grows m m'"
proof (induction rule: rtranclp_induct)
  case (step m1 m2)
  have "exec_inv m1" using exm.steps_inv [OF step.hyps(1) step.prems] .
  then show ?case using exec_step_safe [OF step.hyps(2)] step.IH [OF step.prems] grows_trans by (auto simp: safe_def)
qed simp

section \<open>A run\<close>

definition demo_env :: ExecEnv where
  "demo_env = \<lparr>xe_utc = (\<lambda>_. True), xe_flt = demo_flt, xe_mac = demo_mac, xe_verify = None, xe_token_fingerprint = (\<lambda>t. t)\<rparr>"

definition demo_service :: ExecutionService where
  "demo_service = \<lparr>es_boot_id = ''boot'', es_queue_capacity = 2, es_wait_seconds = 10, es_managed = True, es_idempotency = None,
     es_records = [], es_pending_cleanup = [], es_quiescing = [], es_publish_inflight = [], es_calls = []\<rparr>"

definition demo_document :: json where
  "demo_document = JObj [(''session_token'', JStr ''t''), (''operation'', JStr ''chat''),
     (''input'', JObj [(''inline'', JObj [(''x'', JNull)])]), (''parameters'', JObj []), (''idempotency_key'', JStr ''k'')]"

definition demo_request :: ExecutionCreateRequest where
  "demo_request = \<lparr>ex_session_token = ''t'', ex_operation = ''chat'', ex_input = Inline [(''x'', JNull)], ex_parameters = [],
     ex_idempotency_key = ''k''\<rparr>"

definition demo_execution :: ExecutionRecord where
  "demo_execution = new_execution demo_service demo_active_record ''uid:1'' demo_request 1 6 ''e1'' ''op2'' None"

definition demo_grant :: Lease where
  "demo_grant = \<lparr>lease_id = ''L2'', lease_request_id = ''e1'', lease_model_id = ''a'', lease_generation = 1\<rparr>"

lemma demo_parse: "parse_execution_create_request demo_flt demo_document = Inr demo_request"
proof -
  have inline: "parse_execution_input demo_flt (JObj [(''inline'', JObj [(''x'', JNull)])]) = Inr (Inline [(''x'', JNull)])"
    by (simp add: parse_execution_input_def as_mapping_def exact_keys_def check_utf8_text_def canonical_json_bytes_def string_text_def
        escape_char_def MAX_INLINE_INPUT_BYTES_def)
  have params: "parse_parameters demo_flt ''chat'' (JObj []) = Inr []"
    by (simp add: parse_parameters_def as_mapping_def dlookup_def PARAMETER_RULES_def CHAT_PARAMETERS_def canonical_json_bytes_def
        MAX_PARAMETERS_BYTES_def)
  show ?thesis
    by (simp add: parse_execution_create_request_def demo_document_def demo_request_def as_mapping_def exact_keys_def EXECUTION_CREATE_KEYS_def
        inline params rbind_eq_Inr_iff CAPABILITY_MATRIX_def text_ok_def utf8_length_def IDEMPOTENCY_KEY_MAX_LENGTH_def)
qed

lemma demo_exec_start: "exec_start (demo_service, [])"
proof -
  have "service_init 2 10 1 1 1 ''boot'' True None = Inr demo_service" by (simp add: service_init_def demo_service_def)
  then show ?thesis unfolding exec_start_def fst_conv snd_conv by blast
qed

text \<open>The service with one record.\<close>

definition demo_with :: "ExecutionRecord \<Rightarrow> ExecutionService" where
  "demo_with r = demo_service\<lparr>es_records := [(''e1'', r)]\<rparr>"

lemma demo_put: "x_execution_id r = ''e1'' \<Longrightarrow> put_record r (demo_with r0) = demo_with r" "x_execution_id r = ''e1'' \<Longrightarrow> put_record r demo_service = demo_with r"
  by (simp_all add: put_record_def demo_with_def demo_service_def)

lemma demo_with_sels [simp]: "es_records (demo_with r) = [(''e1'', r)]" "es_idempotency (demo_with r) = None" "es_calls (demo_with r) = []"
  by (simp_all add: demo_with_def demo_service_def)

lemma demo_live:
  "session_get demo_active ''s'' = Inr demo_active_record" "t < 35 \<Longrightarrow> is_live demo_active ''s'' t" "s_model_id demo_active_record = ''a''"
  "s_session_id demo_active_record = ''s''"
  using demo_active_record by (simp_all add: session_get_def is_live_def) (simp_all add: demo_active_record_def demo_session_def new_record_def)

lemma demo_models:
  "dlookup (specs demo_ready) ''a'' = Inr (RegV2 (demo_spec ''a'' 100 80))"
  "\<exists>rt. dlookup (runtime demo_ready) ''a'' = Inr rt \<and> rt_generation rt = 1"
  by (simp_all add: demo_book_defs)

lemma demo_submitted: "exec_step demo_env (demo_service, []) (demo_with demo_execution, [])"
proof -
  have adm: "admit_submission demo_service demo_active demo_ready demo_active_record ''s'' demo_request 6 = Inr 1"
    using demo_live demo_models demo_active_record(2)
    by (auto simp: admit_submission_def demo_spec_def demo_request_def queued_count_def demo_service_def dlookup_Some)
  have idem: "es_idempotency demo_service = None" by (simp add: demo_service_def)
  have q: "fst (queue_execution demo_env 6 demo_execution demo_service) = put_record demo_execution demo_service"
    by (simp add: queue_execution_def Let_def put_record_def demo_service_def split: option.split sum.split)
  have env: "xe_flt demo_env = demo_flt" "check_token demo_env t o' m s = Inr ()"
    "claim_submission demo_env demo_service d demo_request s o' n = Inr (demo_service, None)" for t o' m s d n
    using idem by (simp_all add: demo_env_def check_token_def claim_submission_def)
  obtain d where map: "as_mapping demo_document = Inr d" by (simp add: demo_document_def as_mapping_def)
  have inp: "ex_input demo_request = Inline [(''x'', JNull)]" by (simp add: demo_request_def)
  have "x_execution_id demo_execution = ''e1''" by (simp add: demo_execution_def new_execution_def)
  then have "fst (submit demo_env demo_service demo_active demo_ready ''s'' ''uid:1'' demo_document 6 ''e1'' ''op2'') = demo_with demo_execution"
    by (simp add: submit_def submit_claimed_def env demo_parse demo_live(1) inp idem_state_of_def adm demo_execution_def [symmetric] q demo_put(2) map)
  then obtain out where "submit demo_env demo_service demo_active demo_ready ''s'' ''uid:1'' demo_document 6 ''e1'' ''op2'' = (demo_with demo_execution, out)"
    by (metis prod.collapse)
  then show ?thesis by (intro x_submit) (simp_all add: demo_service_def)
qed

definition demo_claimed :: ExecutionRecord where
  "demo_claimed = demo_execution\<lparr>x_dispatch_claimed := True\<rparr>"

definition demo_leased_execution :: ExecutionRecord where
  "demo_leased_execution = demo_claimed\<lparr>x_lease := Some demo_grant\<rparr>"

lemmas demo_execution_defs = demo_execution_def new_execution_def demo_request_def demo_service_def demo_live

lemma demo_fields [simp]:
  "x_execution_id demo_execution = ''e1''" "x_session_id demo_execution = ''s''" "x_model_id demo_execution = ''a''" "x_owner demo_execution = ''uid:1''"
  "x_deadline demo_execution = 16" "x_state demo_execution = ''queued''" "\<not> x_settled demo_execution" "\<not> x_dispatch_started demo_execution"
  "\<not> x_dispatch_claimed demo_execution" "f_generation (x_fence demo_execution) = 1" "x_operation demo_execution = ''chat''"
  "x_input demo_execution = Inline [(''x'', JNull)]" "x_input_ctx demo_execution = False" "x_reservation demo_execution = None"
  "x_lease_released demo_execution = False" "x_cancel_pending demo_execution = False"
  using demo_active_record by (simp_all add: demo_execution_defs)

lemma demo_inline: "\<not> MAX_INLINE_INPUT_BYTES < length (canonical_json_bytes demo_flt (JObj [(''x'', JNull)]))"
  by (simp add: canonical_json_bytes_def string_text_def escape_char_def MAX_INLINE_INPUT_BYTES_def)

lemma demo_run:
  "exec_step demo_env (demo_with demo_execution, []) (demo_with demo_claimed, [(''e1'', AtGuard)])"
  "exec_step demo_env (demo_with demo_claimed, [(''e1'', AtGuard)]) (demo_with demo_claimed, [(''e1'', AtInput)])"
  "exec_step demo_env (demo_with demo_claimed, [(''e1'', AtInput)]) (demo_with demo_claimed, [(''e1'', AtAdmit)])"
  "exec_step demo_env (demo_with demo_claimed, [(''e1'', AtAdmit)])
     (demo_with demo_leased_execution, [(''e1'', AtReserve (x_fence demo_execution))])"
proof -
  have "dispatch_scan demo_env 7 ''s'' (demo_with demo_execution) = (demo_with demo_claimed, [''e1''])"
    by (simp add: dispatch_scan_def Let_def dispatchable_def demo_put demo_claimed_def) (simp add: demo_with_def demo_service_def)
  from x_scan [OF this, of "[]"] show "exec_step demo_env (demo_with demo_execution, []) (demo_with demo_claimed, [(''e1'', AtGuard)])" by simp
  obtain rt where rt: "dlookup (runtime demo_ready) ''a'' = Inr rt" "rt_generation rt = 1" using demo_models(2) by blast
  have "pre_dispatch_guard demo_env (demo_with demo_claimed) demo_active demo_ready demo_claimed 7 = Inr (demo_with demo_claimed, Proceed)"
    by (simp add: pre_dispatch_guard_def demo_claimed_def demo_env_def demo_live demo_models(1) rt demo_spec_def demo_active_record(2) demo_inline)
  with x_guard [of "[(''e1'', AtGuard)]" "''e1''" "demo_with demo_claimed" demo_claimed demo_env "[]" demo_active demo_ready 7]
  show "exec_step demo_env (demo_with demo_claimed, [(''e1'', AtGuard)]) (demo_with demo_claimed, [(''e1'', AtInput)])"
    by (simp add: after_guard_def is_settled_def demo_claimed_def)
  from x_input_inline [of "[(''e1'', AtInput)]" "''e1''" demo_env]
  show "exec_step demo_env (demo_with demo_claimed, [(''e1'', AtInput)]) (demo_with demo_claimed, [(''e1'', AtAdmit)])" by simp
  have "run_admitted True demo_grant ''e1'' (demo_with demo_claimed) = demo_with demo_leased_execution"
    by (simp add: run_admitted_def admitted_def demo_claimed_def demo_leased_execution_def demo_grant_def Let_def demo_put)
  with x_admit [of "[(''e1'', AtAdmit)]" "''e1''" demo_grant _ True "demo_with demo_claimed" demo_env]
  show "exec_step demo_env (demo_with demo_claimed, [(''e1'', AtAdmit)])
     (demo_with demo_leased_execution, [(''e1'', AtReserve (x_fence demo_execution))])"
    by (simp add: after_admit_def demo_leased_execution_def demo_claimed_def demo_grant_def)
qed

text \<open>The client cancels while the output is being reserved: the record ends and gives its lease back.\<close>

definition demo_cancelled :: ExecutionService where
  "demo_cancelled = teardown True ''e1''
     (terminate_local demo_env 8 ''queue_timeout'' ''cancelled before dispatch'' demo_leased_execution (demo_with demo_leased_execution))"

lemma demo_cancel_step:
  "exec_step demo_env (demo_with demo_leased_execution, [(''e1'', AtReserve (x_fence demo_execution))])
     (demo_cancelled, [(''e1'', AtReserve (x_fence demo_execution))])"
proof -
  have "cancel_locked demo_env (demo_with demo_leased_execution) ''e1'' ''uid:1'' None 8
      = Inr (terminate_local demo_env 8 ''queue_timeout'' ''cancelled before dispatch'' demo_leased_execution (demo_with demo_leased_execution), True)"
    by (simp add: cancel_locked_def get_record_def demo_leased_execution_def demo_claimed_def)
  from x_cancel [OF this, of _ True] show ?thesis by (simp add: torn_down_def demo_cancelled_def)
qed

lemma demo_cancelled_record: "dget (es_records demo_cancelled) ''e1'' = Some (torn (local_ended ''queue_timeout'' ''cancelled before dispatch'' demo_leased_execution))"
proof -
  have id: "x_execution_id demo_leased_execution = ''e1''" by (simp add: demo_leased_execution_def demo_claimed_def)
  note ch = local_changes [OF id, of "''queue_timeout''" "''cancelled before dispatch''" "demo_with demo_leased_execution" demo_env 8]
  have "changes ''e1'' (torn (local_ended ''queue_timeout'' ''cancelled before dispatch'' demo_leased_execution))
      (torn_leases (local_ended ''queue_timeout'' ''cancelled before dispatch'' demo_leased_execution))
      (terminate_local demo_env 8 ''queue_timeout'' ''cancelled before dispatch'' demo_leased_execution (demo_with demo_leased_execution)) demo_cancelled"
    unfolding demo_cancelled_def
    by (rule teardown_changes [OF changes_at [OF ch]]) (simp_all add: local_ended_def settled_as_def demo_leased_execution_def demo_claimed_def demo_grant_def)
  from changes_at [OF this] show ?thesis .
qed

lemmas exec_reach_start = reaches_start [of exec_start _ "exec_step demo_env"]
lemmas exec_reach_step = reaches_step [of exec_start "exec_step demo_env"]

lemma demo_exec_reach:
  "reaches exec_start (exec_step demo_env) (demo_with demo_leased_execution, [(''e1'', AtReserve (x_fence demo_execution))])"
  "reaches exec_start (exec_step demo_env) (demo_cancelled, [(''e1'', AtReserve (x_fence demo_execution))])"
proof -
  show *: "reaches exec_start (exec_step demo_env) (demo_with demo_leased_execution, [(''e1'', AtReserve (x_fence demo_execution))])"
    by (rule exec_reach_step [OF exec_reach_step [OF exec_reach_step [OF exec_reach_step [OF exec_reach_step [OF exec_reach_start [OF demo_exec_start] demo_submitted]
          demo_run(1)] demo_run(2)] demo_run(3)] demo_run(4)])
  show "reaches exec_start (exec_step demo_env) (demo_cancelled, [(''e1'', AtReserve (x_fence demo_execution))])"
    by (rule exec_reach_step [OF * demo_cancel_step])
qed

section \<open>Properties\<close>

lemma demo_cancelled_fields:
  assumes "r = torn (local_ended ''queue_timeout'' ''cancelled before dispatch'' demo_leased_execution)"
  shows "x_settled r" "x_state r = ''cancelled''" "x_lease r = Some demo_grant"
  using assms by (simp_all add: local_ended_def settled_as_def CANCEL_CODES_def demo_leased_execution_def demo_claimed_def)



text \<open>
  C20. A settled execution is final.  Along every run the state of an execution only moves forward
  (queued, running, cancelling, terminal); once it is settled, its state, result, error, evidence,
  instance and fence never change again; and an execution whose cancel was accepted never succeeds, no
  matter which outputs and terminal reports arrive afterwards.
\<close>

theorem settled_execution_is_final:
  assumes "reaches exec_start (exec_step env) m" and "(exec_step env)\<^sup>*\<^sup>* m m'" and "dget (es_records (fst m)) eid = Some r"
  shows "\<exists>r'. dget (es_records (fst m')) eid = Some r' \<and> rank (x_state r) \<le> rank (x_state r')
    \<and> (x_settled r \<longrightarrow> x_settled r' \<and> outcome r' = outcome r) \<and> (x_cancel_pending r \<longrightarrow> x_state r' \<noteq> ''succeeded'')"
proof -
  have inv: "exec_inv m" using exm.reaches_inv [OF assms(1)] .
  obtain r' where r': "dget (es_records (fst m')) eid = Some r'" "rec_le r r'"
    using exec_run_grows [OF assms(2) inv] assms(3) by (auto simp: grows_def)
  have "xrec_ok r'" using exec_inv_at(2) [OF exm.steps_inv [OF assms(2) inv] r'(1)] .
  then show ?thesis using r' by (intro exI [of _ r']) (auto simp: rec_le_def xrec_ok_def life_ok_def)
qed

theorem settled_execution_is_final_witness:
  "\<exists>r r'. dget (es_records (demo_with demo_leased_execution)) ''e1'' = Some r \<and> dget (es_records demo_cancelled) ''e1'' = Some r'
    \<and> rank (x_state r) = 0 \<and> rank (x_state r) \<le> rank (x_state r')"
  using settled_execution_is_final [OF demo_exec_reach(1) r_into_rtranclp [where r = "exec_step demo_env", OF demo_cancel_step], of "''e1''" demo_leased_execution]
  by (simp add: rank_def demo_leased_execution_def demo_claimed_def)



section \<open>Resources that stay behind\<close>

text \<open>
  A record that is settled while the scheduler grants it a lease does not store the lease, so the teardown
  that follows gives nothing back.
\<close>

lemma granted_lease_of_settled_record_kept:
  assumes "dget (es_records svc) eid = Some r" and "x_settled r" and "x_lease r = None"
  shows "es_calls (run_admitted ok lease eid svc) = es_calls svc \<or> (\<forall>l oc. ReleaseLease l oc \<notin> set (drop (length (es_calls svc)) (es_calls (run_admitted ok lease eid svc))))"
  using assms
  by (auto simp: run_admitted_def teardown_def with_record_def release_record_lease_def close_input_def drop_output_def call_def add_cleanup_def
      put_record_def Let_def split: option.splits)

text \<open>The scan that expires a queued record makes no external call, so a read lease that an earlier attempt opened stays open.\<close>

lemma expired_entry_keeps_input: "es_calls (fst (dispatch_scan env now sid svc)) = es_calls svc"
proof -
  have "es_calls (fold (\<lambda>r. terminate_local env now c m r) rs s) = es_calls s" for c m rs s
    by (induction rs arbitrary: s)
      (simp_all add: terminate_local_def mark_settled_def finish_idempotency_def put_record_def split: option.split sum.split)
  moreover have "es_calls (fold (\<lambda>r. put_record (r\<lparr>x_dispatch_claimed := True\<rparr>)) rs s) = es_calls s" for rs s
    by (induction rs arbitrary: s) (simp_all add: put_record_def)
  ultimately show ?thesis by (simp add: dispatch_scan_def Let_def)
qed

text \<open>
  A failure between admission and dispatch, such as a refused output reservation, leaves the record
  open in the state \<^verbatim>\<open>cancelling\<close> with its lease: no scan picks it up again, whatever the time.
\<close>

lemma failed_reservation_strands_execution:
  assumes at: "dget (es_records svc) eid = Some r" and id: "x_execution_id r = eid" and "x_evidence r = None" "\<not> x_settled r" "\<not> terminal r" "\<not> x_dispatch_started r"
  shows "\<exists>r'. dget (es_records (unless_settled ok eid (terminate_uncertain env now msg current) svc)) eid = Some r' \<and> \<not> x_settled r'
    \<and> x_state r' = ''cancelling'' \<and> x_lease r' = x_lease r \<and> x_lease_released r' = x_lease_released r \<and> (\<forall>s sid. \<not> dispatchable s sid r')"
proof -
  define r1 where "r1 = fst (cancel_reservation (cancelling (cancelling (mark_reason ''backend_failed'' msg r))))"
  have f: "x_execution_id r1 = eid" "x_evidence r1 = None" "\<not> x_settled r1" "x_state r1 = ''cancelling''" "x_lease r1 = x_lease r"
    "x_lease_released r1 = x_lease_released r"
    using assms cancel_reservation_like [of "cancelling (cancelling (mark_reason ''backend_failed'' msg r))"]
    by (auto simp: r1_def like_def outcome_def cancelling_def mark_reason_def terminal_def EXECUTION_TERMINAL_STATES_def)
  have "unless_settled ok eid (terminate_uncertain env now msg current) svc
      = put_record r1 (cancel_side_effects (cancelling (cancelling (mark_reason ''backend_failed'' msg r))) svc)"
    using assms f by (simp add: unless_settled_def terminate_uncertain_def begin_end_def evaluate_def r1_def Let_def)
  with f show ?thesis by (intro exI [of _ r1]) (simp add: put_record_def dispatchable_def)
qed

text \<open>
  The code \<^verbatim>\<open>session_not_active\<close> is not in the error table of the protocol: an execution that ends because its
  session is gone has no view.
\<close>

lemma lost_session_has_no_view:
  assumes "x_error r = Some (error_detail ''session_not_active'' message)"
  shows "record_view env r \<noteq> Inr v"
proof
  assume "record_view env r = Inr v"
  then obtain ev where p: "parse_execution_view (xe_utc env) (view_json (view_of r)) = Inr ev" by (auto simp: record_view_def)
  have "\<exists>e. parse_error_detail (error_detail_json (error_detail ''session_not_active'' message)) = Inl e"
  proof (cases "parse_error_detail (error_detail_json (error_detail ''session_not_active'' message))")
    case (Inr d)
    then show ?thesis using session_not_active_unknown
      by (auto simp: parse_error_detail_def error_detail_json_def error_detail_def as_mapping_def dest!: rbind_eq_Inr_iff [THEN iffD1])
  qed simp
  with p assms show False
    by (auto simp: parse_execution_view_def view_json_def view_of_def null_or_def opt_parse_def rbind_eq_Inr_iff json_not_null)
qed

end
