(* ===== verification/Process_Observer.thy ===== *)
theory Process_Observer
  imports Control_Protocol Text_Values
begin

text \<open>
  The observation facts of \<^verbatim>\<open>model_scheduler/ports_v3.py\<close> and the Docker observer of
  \<^verbatim>\<open>model_scheduler/process_observer.py\<close>.  The Docker command line is a parameter: \<open>docker tr argv\<close> is the
  reply to \<open>argv\<close> after the commands of the trace \<open>tr\<close>, so its state may change with every command, and each operation
  returns the trace with the commands it issued.  \<open>loads\<close> is \<^verbatim>\<open>json.loads\<close> with a \<^verbatim>\<open>parse_constant\<close> that raises:
  the tree of the text with duplicate keys still in it, or \<open>None\<close>.
\<close>

section \<open>Observation facts\<close>

definition OBSERVATION_STATES :: "string list" where "OBSERVATION_STATES = [''running'', ''stopped'', ''unknown'']"
definition PORT_STATES :: "string list" where "PORT_STATES = [''listening'', ''closed'', ''unknown'']"
definition SUBPROCESS_STATES :: "string list" where
  "SUBPROCESS_STATES = [''running'', ''exited'', ''absent'', ''unknown'']"
definition LAUNCH_STATES :: "string list" where "LAUNCH_STATES = [''starting'', ''completed'', ''failed'']"

definition check_identifier :: "string \<Rightarrow> unit result" where
  "check_identifier v = raise_if (v = []) (ContractError ''must be a non-empty string'')"

definition check_optional_positive_int :: "int option \<Rightarrow> unit result" where
  "check_optional_positive_int v =
     raise_if (case v of None \<Rightarrow> False | Some n \<Rightarrow> n < 1) (ContractError ''must be a positive integer or null'')"

definition check_enum :: "string \<Rightarrow> string list \<Rightarrow> unit result" where
  "check_enum v allowed = raise_if (v \<notin> set allowed) (ContractError ''must be one of the allowed values'')"

record LaunchOperation =
  lo_operation_id :: string
  lo_fence :: Fence
  lo_started_at_monotonic :: time
  lo_state :: string
  lo_pid :: "int option"
  lo_process_group_id :: "int option"
  lo_terminal_at_monotonic :: "time option"

definition check_launch_operation :: "LaunchOperation \<Rightarrow> LaunchOperation result" where
  "check_launch_operation l =
     rbind (check_identifier (lo_operation_id l)) (\<lambda>_.
     rbind (check_enum (lo_state l) LAUNCH_STATES) (\<lambda>_.
     rbind (check_optional_positive_int (lo_pid l)) (\<lambda>_.
     rbind (check_optional_positive_int (lo_process_group_id l)) (\<lambda>_.
     rbind (raise_if (lo_state l = ''starting'' \<and> lo_terminal_at_monotonic l \<noteq> None)
              (ContractError ''a starting operation has no terminal timestamp'')) (\<lambda>_.
     rbind (raise_if (lo_state l \<noteq> ''starting'' \<and> lo_terminal_at_monotonic l = None)
              (ContractError ''a terminal operation requires a terminal timestamp'')) (\<lambda>_.
     Inr l))))))"

definition is_terminal :: "LaunchOperation \<Rightarrow> bool" where
  "is_terminal l \<longleftrightarrow> lo_state l \<noteq> ''starting''"

record ObservationTarget =
  ot_deployment_id :: string
  ot_container_id :: "string option"
  ot_process_group_id :: "int option"

definition check_target :: "ObservationTarget \<Rightarrow> ObservationTarget result" where
  "check_target t =
     rbind (check_identifier (ot_deployment_id t)) (\<lambda>_.
     rbind (case ot_container_id t of None \<Rightarrow> Inr () | Some c \<Rightarrow> check_identifier c) (\<lambda>_.
     rbind (check_optional_positive_int (ot_process_group_id t)) (\<lambda>_. Inr t)))"

record ObservationV3 =
  ov_state :: string
  ov_sampled_at_monotonic :: time
  ov_sampled_at_utc :: time
  ov_port_state :: string
  ov_subprocess_state :: string
  ov_instance :: "InstanceIdentity option"
  ov_launch_operation :: "LaunchOperation option"

definition check_observation :: "ObservationV3 \<Rightarrow> ObservationV3 result" where
  "check_observation ob =
     rbind (check_enum (ov_state ob) OBSERVATION_STATES) (\<lambda>_.
     rbind (check_enum (ov_port_state ob) PORT_STATES) (\<lambda>_.
     rbind (check_enum (ov_subprocess_state ob) SUBPROCESS_STATES) (\<lambda>_. Inr ob)))"

text \<open>\<^verbatim>\<open>port_listening\<close> is \<open>None\<close> when the port is held by an unknown process.\<close>

definition stopped_is_proven :: "bool \<Rightarrow> bool \<Rightarrow> bool \<Rightarrow> bool option \<Rightarrow> bool" where
  "stopped_is_proven container_absent launch_operation_terminal subprocess_exited port_listening \<longleftrightarrow>
     container_absent \<and> launch_operation_terminal \<and> subprocess_exited \<and> port_listening = Some False"

section \<open>Processes, ports and the Docker command line\<close>

definition DEPLOYMENT_LABEL :: string where "DEPLOYMENT_LABEL = ''io.self-model-switch.deployment''"
definition MODEL_LABEL :: string where "MODEL_LABEL = ''io.self-model-switch.model''"
definition RUNTIME_LABEL :: string where "RUNTIME_LABEL = ''io.self-model-switch.runtime''"
definition CONFIG_LABEL :: string where "CONFIG_LABEL = ''io.self-model-switch.config-sha256''"
definition CANDIDATE_LABEL :: string where "CANDIDATE_LABEL = ''io.self-model-switch.candidate-sha256''"

text \<open>The outcome of \<^verbatim>\<open>os.kill(pid, 0)\<close>.\<close>

datatype kill_outcome = Signalled | NoSuchProcess | NotPermitted | OtherOSError

definition os_process_state :: "(int \<Rightarrow> kill_outcome) \<Rightarrow> int \<Rightarrow> string" where
  "os_process_state kill pid =
     (if pid < 1 then ''unknown''
      else case kill pid of
             NoSuchProcess \<Rightarrow> ''absent''
           | NotPermitted \<Rightarrow> ''running''
           | OtherOSError \<Rightarrow> ''unknown''
           | Signalled \<Rightarrow> ''running'')"

definition ECONNREFUSED :: int where "ECONNREFUSED = 111"

text \<open>\<open>None\<close>: \<^verbatim>\<open>connect_ex\<close> raised \<^verbatim>\<open>OSError\<close>.\<close>

definition docker_port_state :: "(int \<Rightarrow> int option) \<Rightarrow> int \<Rightarrow> string" where
  "docker_port_state connect_ex port =
     (case connect_ex port of
        None \<Rightarrow> ''unknown''
      | Some code \<Rightarrow> if code = 0 then ''listening'' else if code = ECONNREFUSED then ''closed'' else ''unknown'')"

type_synonym reply = "(int \<times> string \<times> string) result"
type_synonym docker = "string list list \<Rightarrow> string list \<Rightarrow> reply"

definition run_docker :: "docker \<Rightarrow> docker" where
  "run_docker subprocess_run tr argv =
     (case subprocess_run tr argv of
        Inl e \<Rightarrow> if is_OSError e \<or> is_SubprocessError e then Inl (ObservationError ''docker command failed'') else Inl e
      | Inr r \<Rightarrow> Inr r)"

text \<open>One command: the trace grows by it.\<close>

definition call :: "docker \<Rightarrow> string list list \<Rightarrow> string list \<Rightarrow> string list list \<times> reply" where
  "call docker tr argv = (tr @ [argv], docker tr argv)"

text \<open>\<^verbatim>\<open>_STRUCTURED_NOT_FOUND.search\<close>: at a word boundary, in any case.\<close>

definition word_char :: "char \<Rightarrow> bool" where
  "word_char c \<longleftrightarrow> lower c \<or> digit c \<or> c \<in> set ''ABCDEFGHIJKLMNOPQRSTUVWXYZ_''
     \<or> (of_char c :: nat) \<in> {170, 178, 179, 181, 185, 186, 188, 189, 190} \<union> {192..214} \<union> {216..246} \<union> {248..255}"

fun not_found_after :: "bool \<Rightarrow> string \<Rightarrow> bool" where
  "not_found_after prev [] = False"
| "not_found_after prev (c # cs) =
     (\<not> prev \<and> (starts_with ''no such object:'' (map fold_case (c # cs)) \<or> starts_with ''no such container:'' (map fold_case (c # cs)))
      \<or> not_found_after (word_char c) cs)"

definition structured_not_found :: "int \<Rightarrow> string \<Rightarrow> bool" where
  "structured_not_found exit_code stderr \<longleftrightarrow> exit_code \<noteq> 0 \<and> not_found_after False stderr"

section \<open>Container facts\<close>

record ContainerFact =
  cf_container_id :: string
  cf_image_digest :: string
  cf_running :: bool
  cf_status :: string
  cf_exit_code :: int
  cf_started_at :: string
  cf_labels :: "(string, string) dict"

text \<open>The value that \<^verbatim>\<open>json.loads\<close> builds from a tree: of equal keys the last one wins.\<close>

fun last_wins :: "json \<Rightarrow> json" and last_wins_pairs :: "(string, json) dict \<Rightarrow> (string, json) dict \<Rightarrow> (string, json) dict"
  and last_wins_items :: "json list \<Rightarrow> json list" where
  "last_wins (JObj d) = JObj (last_wins_pairs [] d)"
| "last_wins (JList xs) = JList (last_wins_items xs)"
| "last_wins v = v"
| "last_wins_pairs acc [] = acc"
| "last_wins_pairs acc ((k, v) # d) = last_wins_pairs (dput k (last_wins v) acc) d"
| "last_wins_items [] = []"
| "last_wins_items (x # xs) = last_wins x # last_wins_items xs"

fun label_strings :: "(string, json) dict \<Rightarrow> (string, string) dict option" where
  "label_strings [] = Some []"
| "label_strings ((k, v) # d) =
     (case v of JStr s \<Rightarrow> map_option ((#) (k, s)) (label_strings d) | _ \<Rightarrow> None)"

definition fact_text :: "(string, json) dict \<Rightarrow> string \<Rightarrow> string \<Rightarrow> string result" where
  "fact_text d k msg = (case jget d k of
     JStr s \<Rightarrow> if s = [] then Inl (ObservationError msg) else Inr s
   | _ \<Rightarrow> Inl (ObservationError msg))"

definition fact_object :: "json \<Rightarrow> string \<Rightarrow> (string, json) dict result" where
  "fact_object v msg = (case v of JObj d \<Rightarrow> Inr d | _ \<Rightarrow> Inl (ObservationError msg))"

definition container_fact :: "json \<Rightarrow> ContainerFact result" where
  "container_fact item =
     rbind (fact_object item ''docker inspect item must be an object'') (\<lambda>d.
     let config = jget d ''Config''; state = jget d ''State'' in
     rbind (fact_text d ''Id'' ''docker inspect item has no container id'') (\<lambda>cid.
     rbind (fact_text (case config of JObj c \<Rightarrow> c | _ \<Rightarrow> []) ''Image'' ''docker inspect item has no image reference'') (\<lambda>image.
     rbind (fact_object config ''docker inspect item has no config or state'') (\<lambda>c.
     rbind (fact_object state ''docker inspect item has no config or state'') (\<lambda>st.
     rbind (case jget c ''Labels'' of
              JObj l \<Rightarrow> (case label_strings l of Some ls \<Rightarrow> Inr ls
                        | None \<Rightarrow> Inl (ObservationError ''docker inspect item has unreadable labels''))
            | _ \<Rightarrow> Inl (ObservationError ''docker inspect item has unreadable labels'')) (\<lambda>labels.
     rbind (case jget st ''Running'' of JBool b \<Rightarrow> Inr b
            | _ \<Rightarrow> Inl (ObservationError ''docker inspect item has no running flag'')) (\<lambda>running.
     rbind (fact_text st ''Status'' ''docker inspect item has no status'') (\<lambda>status.
     rbind (case jget st ''ExitCode'' of
              JInt n \<Rightarrow> if n < 0 then Inl (ObservationError ''docker inspect item has no exit code'') else Inr n
            | _ \<Rightarrow> Inl (ObservationError ''docker inspect item has no exit code'')) (\<lambda>exit_code.
     rbind (fact_text st ''StartedAt'' ''docker inspect item has no start time'') (\<lambda>started.
     Inr \<lparr>cf_container_id = cid, cf_image_digest = image, cf_running = running, cf_status = status,
          cf_exit_code = exit_code, cf_started_at = started, cf_labels = labels\<rparr>))))))))))"

fun container_facts :: "json list \<Rightarrow> ContainerFact list result" where
  "container_facts [] = Inr []"
| "container_facts (x # xs) = rbind (container_fact x) (\<lambda>f. rbind (container_facts xs) (\<lambda>fs. Inr (f # fs)))"

definition parse_inspect_payload :: "(string \<Rightarrow> json option) \<Rightarrow> string \<Rightarrow> ContainerFact list result" where
  "parse_inspect_payload loads raw =
     (case loads raw of
        None \<Rightarrow> Inl (ObservationError ''docker inspect returned invalid JSON'')
      | Some doc \<Rightarrow>
          (case last_wins doc of
             JList items \<Rightarrow> if items = [] then Inl (ObservationError ''docker inspect returned no container object'')
                            else container_facts items
           | _ \<Rightarrow> Inl (ObservationError ''docker inspect returned no container object'')))"

definition list_container_ids ::
  "string \<Rightarrow> string option \<Rightarrow> docker \<Rightarrow> string list list \<Rightarrow> string list list \<times> string list result" where
  "list_container_ids deployment_id model_id docker tr =
     (let argv = [''docker'', ''ps'', ''--all'', ''--quiet'', ''--no-trunc'', ''--filter'', ''label='' @ DEPLOYMENT_LABEL @ ''='' @ deployment_id]
            @ (case model_id of None \<Rightarrow> [] | Some m \<Rightarrow> [''--filter'', ''label='' @ MODEL_LABEL @ ''='' @ m]);
          (tr', r) = call docker tr argv
      in (tr', rbind r (\<lambda>(exit_code, stdout, stderr).
           if exit_code \<noteq> 0 then Inl (ObservationError ''the container listing failed'')
           else Inr (filter (\<lambda>l. l \<noteq> []) (map strip (splitlines stdout))))))"

definition inspect_container_ids ::
  "(string \<Rightarrow> json option) \<Rightarrow> string list \<Rightarrow> docker \<Rightarrow> string list list \<Rightarrow> string list list \<times> ContainerFact list result" where
  "inspect_container_ids loads ids docker tr =
     (if ids = [] then (tr, Inr [])
      else let (tr', r) = call docker tr ([''docker'', ''inspect''] @ ids)
           in (tr', rbind r (\<lambda>(exit_code, stdout, stderr).
                if exit_code \<noteq> 0 then Inl (ObservationError ''docker inspect failed'')
                else parse_inspect_payload loads stdout)))"

section \<open>Start times\<close>

text \<open>
  \<^verbatim>\<open>_ISO_INSTANT\<close>: date and time, an optional fraction, and \<^verbatim>\<open>Z\<close> or a numeric offset.  The result is the
  19 characters of date and time, the fraction and the offset.
\<close>

definition shape_ok :: "string \<Rightarrow> string \<Rightarrow> bool" where
  "shape_ok shape s \<longleftrightarrow> length s = length shape
     \<and> list_all (\<lambda>(p, c). if p = CHR ''d'' then digit c else c = p) (zip shape s)"

definition match_instant :: "string \<Rightarrow> (string \<times> string \<times> string) option" where
  "match_instant s =
     (let base = take 19 s; rest = drop 19 s;
          (fraction, offset) = (case rest of
             c # t \<Rightarrow> if c = CHR ''.'' then (Some (takeWhile digit t), dropWhile digit t) else (None, rest)
           | [] \<Rightarrow> (None, rest))
      in if shape_ok ''dddd-dd-ddTdd:dd:dd'' base \<and> fraction \<noteq> Some []
            \<and> (offset = ''Z'' \<or> shape_ok ''+dd:dd'' offset \<or> shape_ok ''-dd:dd'' offset)
         then Some (base, case fraction of None \<Rightarrow> [] | Some f \<Rightarrow> f, offset) else None)"

text \<open>\<^verbatim>\<open>datetime.fromisoformat\<close>, whose checks raise \<^verbatim>\<open>ValueError\<close>, and \<^verbatim>\<open>astimezone(UTC)\<close>, which raises
  \<^verbatim>\<open>OverflowError\<close> outside the years 1 to 9999.  An offset is shorter than a day, so it moves the date by one day
  at most.\<close>

type_synonym date = "nat \<times> nat \<times> nat"

definition leap_year :: "nat \<Rightarrow> bool" where
  "leap_year y \<longleftrightarrow> y mod 4 = 0 \<and> (y mod 100 \<noteq> 0 \<or> y mod 400 = 0)"

definition days_in_month :: "nat \<Rightarrow> nat \<Rightarrow> nat" where
  "days_in_month y m = (if m = 2 then if leap_year y then 29 else 28 else if m \<in> {4, 6, 9, 11} then 30 else 31)"

definition date_ok :: "date \<Rightarrow> bool" where
  "date_ok = (\<lambda>(y, m, d). 1 \<le> y \<and> y \<le> 9999 \<and> 1 \<le> m \<and> m \<le> 12 \<and> 1 \<le> d \<and> d \<le> days_in_month y m)"

definition next_day :: "date \<Rightarrow> date" where
  "next_day = (\<lambda>(y, m, d).
     if d < days_in_month y m then (y, m, d + 1) else if m < 12 then (y, m + 1, 1) else (y + 1, 1, 1))"

definition previous_day :: "date \<Rightarrow> date" where
  "previous_day = (\<lambda>(y, m, d).
     if 1 < d then (y, m, d - 1) else if 1 < m then (y, m - 1, days_in_month y (m - 1)) else (y - 1, 12, 31))"

definition offset_minutes :: "string \<Rightarrow> int" where
  "offset_minutes off =
     (if off = ''Z'' then 0
      else let n = int (num (take 2 (drop 1 off)) * 60 + num (drop 4 off)) in if take 1 off = ''-'' then - n else n)"

definition to_utc :: "date \<Rightarrow> nat \<Rightarrow> int \<Rightarrow> (date \<times> nat) result" where
  "to_utc day minutes off =
     (let total = int minutes - off;
          (day', rest) = (if total < 0 then (previous_day day, total + 1440)
                          else if 1440 \<le> total then (next_day day, total - 1440) else (day, total))
      in if date_ok day' then Inr (day', nat rest) else Inl (OverflowError ''date value out of range''))"

text \<open>\<^verbatim>\<open>strftime\<close> of the C library writes the year without padding.\<close>

definition print_instant :: "date \<Rightarrow> nat \<Rightarrow> string \<Rightarrow> string \<Rightarrow> string" where
  "print_instant = (\<lambda>(y, m, d) minutes seconds fraction.
     dec y @ ''-'' @ two_digits m @ ''-'' @ two_digits d @ ''T'' @ two_digits (minutes div 60) @ '':'' @ two_digits (minutes mod 60)
       @ '':'' @ seconds @ (if fraction = [] then [] else ''.'' @ fraction) @ ''Z'')"

definition canonical_utc :: "string \<Rightarrow> string result" where
  "canonical_utc value =
     (case match_instant (strip value) of
        None \<Rightarrow> Inl (ObservationError ''invalid start time'')
      | Some (base, shown, offset) \<Rightarrow>
          (let fraction = rstrip (CHR ''0'') shown;
               day = (num (take 4 base), num (take 2 (drop 5 base)), num (take 2 (drop 8 base)));
               hour = num (take 2 (drop 11 base)); minute = num (take 2 (drop 14 base)); seconds = drop 17 base;
               off = offset_minutes offset
           in if \<not> date_ok day \<or> 24 \<le> hour \<or> 60 \<le> minute \<or> 60 \<le> num seconds \<or> 1440 \<le> \<bar>off\<bar>
              then Inl (ObservationError ''invalid start time'')
              else rbind (to_utc day (hour * 60 + minute) off) (\<lambda>(utc, minutes).
                   Inr (print_instant utc minutes seconds fraction))))"

section \<open>The observer\<close>

record DockerProcessObserver =
  dpo_deployment_id :: string
  dpo_model_id :: string
  dpo_port :: int

definition observer_init :: "string \<Rightarrow> string \<Rightarrow> int \<Rightarrow> DockerProcessObserver result" where
  "observer_init deployment_id model_id port =
     rbind (raise_if (deployment_id = []) (ValueError ''an observer requires a deployment id'')) (\<lambda>_.
     rbind (raise_if (model_id = []) (ValueError ''an observer requires a model id'')) (\<lambda>_.
     rbind (raise_if (\<not> (1 \<le> port \<and> port \<le> 65535)) (ValueError ''an observer requires a loopback port'')) (\<lambda>_.
     Inr \<lparr>dpo_deployment_id = deployment_id, dpo_model_id = model_id, dpo_port = port\<rparr>)))"

definition observer_facts ::
  "(string \<Rightarrow> json option) \<Rightarrow> docker \<Rightarrow> DockerProcessObserver \<Rightarrow> string list list \<Rightarrow> string list list \<times> ContainerFact list result" where
  "observer_facts loads docker self tr =
     (case list_container_ids (dpo_deployment_id self) (Some (dpo_model_id self)) docker tr of
        (tr', Inl e) \<Rightarrow> (tr', Inl e)
      | (tr', Inr ids) \<Rightarrow> inspect_container_ids loads ids docker tr')"

text \<open>\<^verbatim>\<open>_AMBIGUOUS\<close>, \<^verbatim>\<open>None\<close> or a fact.\<close>

datatype matched = Ambiguous | Unmatched | Matched ContainerFact

definition match_target :: "ObservationTarget \<Rightarrow> ContainerFact list \<Rightarrow> matched" where
  "match_target target facts =
     (case ot_container_id target of
        Some c \<Rightarrow>
          (case filter (\<lambda>f. cf_container_id f = c) facts of
             [] \<Rightarrow> Unmatched | [f] \<Rightarrow> Matched f | _ \<Rightarrow> Ambiguous)
      | None \<Rightarrow>
          (case filter cf_running facts of
             [] \<Rightarrow> Unmatched | [f] \<Rightarrow> Matched f | _ \<Rightarrow> Ambiguous))"

definition subprocess_state_of :: "(int \<Rightarrow> string) \<Rightarrow> ObservationTarget \<Rightarrow> LaunchOperation option \<Rightarrow> string" where
  "subprocess_state_of process_state target launch =
     (case (case launch of Some l \<Rightarrow> lo_pid l | None \<Rightarrow> ot_process_group_id target) of
        None \<Rightarrow> ''absent''
      | Some pid \<Rightarrow> process_state pid)"

definition fact_identity :: "DockerProcessObserver \<Rightarrow> ContainerFact \<Rightarrow> InstanceIdentity option result" where
  "fact_identity self fc =
     (let labels = cf_labels fc; runtime_id = dget labels RUNTIME_LABEL;
          digest = (if truthy (dget labels CANDIDATE_LABEL) then dget labels CANDIDATE_LABEL else dget labels CONFIG_LABEL)
      in if dget labels DEPLOYMENT_LABEL \<noteq> Some (dpo_deployment_id self) \<or> dget labels MODEL_LABEL \<noteq> Some (dpo_model_id self)
         then Inr None
         else if \<not> truthy runtime_id \<or> \<not> truthy digest then Inr None
         else case canonical_utc (cf_started_at fc) of
                Inl e \<Rightarrow> if is_ObservationError e then Inr None else Inl e
              | Inr started_at \<Rightarrow>
                  Inr (Some \<lparr>i_container_id = cf_container_id fc, i_started_at = started_at,
                    i_deployment_id = dpo_deployment_id self, i_model_id = dpo_model_id self, i_runtime_id = the runtime_id,
                    i_candidate_digest = the digest, i_image_digest = cf_image_digest fc\<rparr>))"

text \<open>The verdict over the facts of one sample.\<close>

definition port_listening :: "string \<Rightarrow> bool option" where
  "port_listening port_state =
     (if port_state = ''listening'' then Some True else if port_state = ''closed'' then Some False else None)"

definition settle_stop ::
  "LaunchOperation option \<Rightarrow> string \<Rightarrow> string \<Rightarrow> InstanceIdentity option result \<Rightarrow> (string \<times> InstanceIdentity option) result" where
  "settle_stop launch subprocess_state port_state identity =
     (if stopped_is_proven True (case launch of Some l \<Rightarrow> is_terminal l | None \<Rightarrow> True)
           (subprocess_state \<in> {''exited'', ''absent''}) (port_listening port_state)
      then rbind identity (\<lambda>i. Inr (''stopped'', i)) else Inr (''unknown'', None))"

definition observe_facts ::
  "DockerProcessObserver \<Rightarrow> ObservationTarget \<Rightarrow> ContainerFact list \<Rightarrow> string \<Rightarrow> string \<Rightarrow> LaunchOperation option
    \<Rightarrow> (string \<times> InstanceIdentity option) result" where
  "observe_facts self target facts port_state subprocess_state launch =
     (case match_target target facts of
        Ambiguous \<Rightarrow> Inr (''unknown'', None)
      | Unmatched \<Rightarrow> settle_stop launch subprocess_state port_state (Inr None)
      | Matched f \<Rightarrow>
          if cf_running f
          then rbind (fact_identity self f) (\<lambda>i.
               if i \<noteq> None \<and> port_state = ''listening'' then Inr (''running'', i) else Inr (''unknown'', None))
          else settle_stop launch subprocess_state port_state (fact_identity self f))"

definition observe ::
  "(string \<Rightarrow> json option) \<Rightarrow> docker \<Rightarrow> (int \<Rightarrow> string) \<Rightarrow> (int \<Rightarrow> string) \<Rightarrow> DockerProcessObserver \<Rightarrow> ObservationTarget
    \<Rightarrow> LaunchOperation option \<Rightarrow> time \<Rightarrow> time \<Rightarrow> time \<Rightarrow> string list list \<Rightarrow> string list list \<times> ObservationV3 result" where
  "observe loads docker port_state process_state self target launch now now_utc deadline tr =
     (let observation = (\<lambda>state port sub inst. check_observation
            \<lparr>ov_state = state, ov_sampled_at_monotonic = now, ov_sampled_at_utc = now_utc, ov_port_state = port,
             ov_subprocess_state = sub, ov_instance = inst, ov_launch_operation = launch\<rparr>)
      in if ot_deployment_id target \<noteq> dpo_deployment_id self
         then (tr, Inl (ObservationError ''the observation target belongs to another deployment''))
         else if deadline \<le> now then (tr, observation ''unknown'' ''unknown'' ''unknown'' None)
         else case observer_facts loads docker self tr of
                (tr', Inl e) \<Rightarrow>
                  (tr', if is_ObservationError e then observation ''unknown'' ''unknown'' ''unknown'' None else Inl e)
              | (tr', Inr facts) \<Rightarrow>
                  (let port = port_state (dpo_port self); sub = subprocess_state_of process_state target launch
                   in (tr', rbind (observe_facts self target facts port sub launch) (\<lambda>(state, inst).
                        observation state port sub inst))))"

section \<open>Start times have one spelling\<close>

lemma shape_digits: "shape_ok shape s \<Longrightarrow> i < length shape \<Longrightarrow> shape ! i = CHR ''d'' \<Longrightarrow> digit (s ! i)"
  by (auto simp: shape_ok_def list_all_length dest!: spec [of _ i])

lemma match_instant_Some:
  assumes "match_instant s = Some (base, shown, offset)"
  shows "shape_ok ''dddd-dd-ddTdd:dd:dd'' base" and "list_all digit shown"
  using assms
  by (auto simp: match_instant_def Let_def list_all_iff dest!: set_takeWhileD split: list.splits if_splits option.splits)

lemma date_ok_bounds: "date_ok (y, m, d) \<Longrightarrow> m < 100 \<and> d < 100 \<and> y \<le> 9999"
  by (auto simp: date_ok_def days_in_month_def split: if_splits)

lemma to_utc_Inr: "to_utc day minutes off = Inr (day', rest) \<Longrightarrow> minutes < 1440 \<Longrightarrow> \<bar>off\<bar> < 1440 \<Longrightarrow> date_ok day' \<and> rest < 1440"
  by (auto simp: to_utc_def Let_def split: if_splits)

lemma dec_four: "1000 \<le> y \<Longrightarrow> y \<le> 9999 \<Longrightarrow> \<exists>a b c e. dec y = [a, b, c, e] \<and> digit a \<and> digit b \<and> digit c \<and> digit e"
  using length_dec_4 [of y] digits_dec [of y] by (auto simp: numeral_eq_Suc length_Suc_conv)

lemma four_digit_year: "list_all digit (take 4 (dec y @ ''-'' @ rest)) \<Longrightarrow> 1000 \<le> y"
proof (rule ccontr)
  assume "list_all digit (take 4 (dec y @ ''-'' @ rest))" "\<not> 1000 \<le> y"
  moreover from this(2) have "CHR ''-'' \<in> set (take 4 (dec y @ ''-'' @ rest))"
    using length_dec_3 [of y] by (auto simp: take_Cons' not_le)
  moreover have "\<not> digit (CHR ''-'')" by (simp add: digit_def)
  ultimately show False unfolding list_all_iff by blast
qed

text \<open>What a printed instant with a four-digit year is read back as.\<close>

lemma match_printed:
  assumes "date_ok (y, m, d)" and "1000 \<le> y" and "minutes < 1440" and "digit a" and "digit b" and "list_all digit fraction"
  defines "base \<equiv> dec y @ ''-'' @ two_digits m @ ''-'' @ two_digits d @ ''T'' @ two_digits (minutes div 60) @ '':''
      @ two_digits (minutes mod 60) @ '':'' @ [a, b]"
  shows "match_instant (print_instant (y, m, d) minutes [a, b] fraction) = Some (base, fraction, ''Z'')"
    and "num (take 4 base) = y" and "num (take 2 (drop 5 base)) = m" and "num (take 2 (drop 8 base)) = d"
    and "num (take 2 (drop 11 base)) = minutes div 60" and "num (take 2 (drop 14 base)) = minutes mod 60"
    and "drop 17 base = [a, b]"
proof -
  note b = date_ok_bounds [OF assms(1)]
  from dec_four [of y] assms(2) b obtain y1 y2 y3 y4
    where y: "dec y = [y1, y2, y3, y4]" "digit y1" "digit y2" "digit y3" "digit y4" by auto
  have small: "minutes div 60 < 100" "minutes mod 60 < 100" "m < 100" "d < 100" using assms(3) b by (auto intro: less_trans [of _ 60])
  have len: "length base = 19" by (simp add: base_def y)
  have shape: "shape_ok ''dddd-dd-ddTdd:dd:dd'' base"
    using y(2-5) assms(4,5) small by (simp add: shape_ok_def base_def y(1) two_digits_def less_mult_imp_div_less)
  have whole: "print_instant (y, m, d) minutes [a, b] fraction = base @ (if fraction = [] then [] else ''.'' @ fraction) @ ''Z''"
    by (simp add: print_instant_def base_def)
  have "takeWhile digit (fraction @ ''Z'') = fraction" "dropWhile digit (fraction @ ''Z'') = ''Z''"
    using assms(6) by (simp_all add: list_all_iff takeWhile_append2 dropWhile_append2 digit_def)
  then show "match_instant (print_instant (y, m, d) minutes [a, b] fraction) = Some (base, fraction, ''Z'')"
    using shape len by (simp add: whole match_instant_def Let_def)
  show "num (take 4 base) = y" using num_dec [of y] by (simp add: base_def y(1) del: num_dec)
  show "num (take 2 (drop 5 base)) = m" "num (take 2 (drop 8 base)) = d" "num (take 2 (drop 11 base)) = minutes div 60"
    "num (take 2 (drop 14 base)) = minutes mod 60"
    using num_two_digits [OF small(1)] num_two_digits [OF small(2)] num_two_digits [OF small(3)] num_two_digits [OF small(4)]
    by (simp_all add: base_def y(1) two_digits_def del: num_two_digits)
  show "drop 17 base = [a, b]" by (simp add: base_def y(1) two_digits_def)
qed

lemma canonical_utc_Inr:
  assumes "canonical_utc s = Inr t"
  obtains y m d minutes a b fraction where "t = print_instant (y, m, d) minutes [a, b] fraction" and "date_ok (y, m, d)"
    and "minutes < 1440" and "digit a" and "digit b" and "num [a, b] < 60" and "list_all digit fraction"
    and "rstrip (CHR ''0'') fraction = fraction"
proof -
  from assms obtain base shown offset day minutes day0 mins0 off where
    m: "match_instant (strip s) = Some (base, shown, offset)" and sec: "num (drop 17 base) < 60"
    and u: "to_utc day0 mins0 off = Inr (day, minutes)" "mins0 < 1440" "\<bar>off\<bar> < 1440"
    and t: "t = print_instant day minutes (drop 17 base) (rstrip (CHR ''0'') shown)"
    by (auto simp: canonical_utc_def Let_def split: option.splits if_splits)
  obtain y mo d where day: "day = (y, mo, d)" by (metis prod_cases3)
  note shape = match_instant_Some [OF m]
  then have len: "length base = 19" by (simp add: shape_ok_def)
  then have two: "drop 17 base = [base ! 17, base ! 18]"
    using Cons_nth_drop_Suc [of 17 base] Cons_nth_drop_Suc [of 18 base] by simp
  have "digit (base ! 17)" "digit (base ! 18)" using shape_digits [OF shape(1)] by simp_all
  moreover have "list_all digit (rstrip (CHR ''0'') shown)" using shape(2) set_rstrip by (fastforce simp: list_all_iff)
  ultimately show thesis using that [of y mo d minutes "base ! 17" "base ! 18"] t day to_utc_Inr [OF u] sec by (simp add: two)
qed

lemma strip_instant:
  assumes "1000 \<le> y" and "y \<le> 9999"
  shows "strip (print_instant (y, m, d) minutes secs fraction) = print_instant (y, m, d) minutes secs fraction"
proof (rule strip_id)
  show "print_instant (y, m, d) minutes secs fraction \<noteq> []" by (simp add: print_instant_def)
  show "\<not> space (hd (print_instant (y, m, d) minutes secs fraction))"
    using dec_four [OF assms] by (auto simp: print_instant_def digit_not_space)
  show "\<not> space (last (print_instant (y, m, d) minutes secs fraction))" by (simp add: print_instant_def space_def)
qed



text \<open>The start time of a container that never ran has no second spelling.\<close>

lemma canonical_utc_zero_time:
  "canonical_utc ''0001-01-01T00:00:00Z'' = Inr ''1-01-01T00:00:00Z''"
  "canonical_utc ''1-01-01T00:00:00Z'' = Inl (ObservationError ''invalid start time'')"
  by code_simp+

section \<open>What an observation proves\<close>

text \<open>A fact that the target is about: any container of the model, or the named one.\<close>

definition aimed :: "ObservationTarget \<Rightarrow> ContainerFact \<Rightarrow> bool" where
  "aimed target f \<longleftrightarrow> ot_container_id target \<in> {None, Some (cf_container_id f)}"

text \<open>Commands that only read: listings and inspections.\<close>

definition reads :: "string list \<Rightarrow> bool" where
  "reads argv \<longleftrightarrow> take 2 argv \<in> {[''docker'', ''ps''], [''docker'', ''inspect'']}"

lemma match_target_cases:
  "match_target target facts = Matched f \<Longrightarrow> f \<in> set facts \<and> aimed target f
     \<and> (\<forall>g \<in> set facts. aimed target g \<and> cf_running g \<longrightarrow> g = f)"
  "match_target target facts = Unmatched \<Longrightarrow> \<forall>g \<in> set facts. aimed target g \<longrightarrow> \<not> cf_running g"
proof -
  have one: "filter P xs = [f] \<Longrightarrow> f \<in> set xs \<and> P f \<and> (\<forall>g \<in> set xs. P g \<longrightarrow> g = f)" for P and xs :: "ContainerFact list"
    by (drule arg_cong [of _ _ set]) auto
  show "match_target target facts = Matched f \<Longrightarrow> f \<in> set facts \<and> aimed target f
     \<and> (\<forall>g \<in> set facts. aimed target g \<and> cf_running g \<longrightarrow> g = f)"
    by (cases "ot_container_id target") (auto simp: match_target_def aimed_def split: list.splits dest!: one)
  show "match_target target facts = Unmatched \<Longrightarrow> \<forall>g \<in> set facts. aimed target g \<longrightarrow> \<not> cf_running g"
    by (cases "ot_container_id target")
       (auto simp: match_target_def aimed_def filter_empty_conv split: list.splits)
qed

lemma fact_identity_Some:
  "fact_identity self f = Inr (Some i) \<Longrightarrow>
     dget (cf_labels f) DEPLOYMENT_LABEL = Some (dpo_deployment_id self) \<and> dget (cf_labels f) MODEL_LABEL = Some (dpo_model_id self)
     \<and> i_container_id i = cf_container_id f \<and> i_deployment_id i = dpo_deployment_id self \<and> i_model_id i = dpo_model_id self
     \<and> i_image_digest i = cf_image_digest f \<and> canonical_utc (cf_started_at f) = Inr (i_started_at i)"
  by (auto simp: fact_identity_def Let_def split: if_splits sum.splits)

lemma port_listening_closed: "port_listening p = Some False \<longleftrightarrow> p = ''closed''"
  by (simp add: port_listening_def)

lemma settle_stop_Inr:
  "settle_stop launch sub port identity = Inr (state, inst) \<Longrightarrow> state \<noteq> ''running''
     \<and> (state = ''stopped'' \<longrightarrow> port = ''closed'' \<and> (\<forall>l. launch = Some l \<longrightarrow> is_terminal l) \<and> sub \<in> {''exited'', ''absent''})"
  unfolding settle_stop_def stopped_is_proven_def port_listening_closed
  by (cases launch; cases identity) (auto split: if_splits)

lemma observe_facts_stopped:
  assumes "observe_facts self target facts port sub launch = Inr (''stopped'', inst)"
  shows "port = ''closed'' \<and> (\<forall>l. launch = Some l \<longrightarrow> is_terminal l) \<and> sub \<in> {''exited'', ''absent''}
    \<and> (\<forall>g \<in> set facts. aimed target g \<longrightarrow> \<not> cf_running g)"
proof (cases "match_target target facts")
  case Ambiguous
  then show ?thesis using assms by (simp add: observe_facts_def)
next
  case Unmatched
  then have "settle_stop launch sub port (Inr None) = Inr (''stopped'', inst)" using assms by (simp add: observe_facts_def)
  from settle_stop_Inr [OF this] match_target_cases(2) [OF Unmatched] show ?thesis by blast
next
  case (Matched f)
  show ?thesis
  proof (cases "cf_running f")
    case True
    then show ?thesis using assms Matched by (cases "fact_identity self f") (auto simp: observe_facts_def split: if_splits)
  next
    case False
    then have "settle_stop launch sub port (fact_identity self f) = Inr (''stopped'', inst)"
      using assms Matched by (simp add: observe_facts_def)
    from settle_stop_Inr [OF this] match_target_cases(1) [OF Matched] False show ?thesis by blast
  qed
qed

lemma observe_facts_running:
  assumes "observe_facts self target facts port sub launch = Inr (''running'', inst)"
  obtains f i where "match_target target facts = Matched f" and "cf_running f" and "inst = Some i"
    and "fact_identity self f = Inr (Some i)" and "port = ''listening''"
proof (cases "match_target target facts")
  case (Matched f)
  then have "cf_running f" using assms settle_stop_Inr by (fastforce simp: observe_facts_def split: if_splits)
  with assms Matched show thesis
    by (cases "fact_identity self f") (auto simp: observe_facts_def intro: that split: if_splits)
qed (use assms settle_stop_Inr in \<open>force simp: observe_facts_def\<close>)+

lemma observer_facts_reads: "observer_facts loads docker self tr = (tr', r) \<Longrightarrow> \<exists>cmds. tr' = tr @ cmds \<and> list_all reads cmds"
  by (auto simp: observer_facts_def list_container_ids_def inspect_container_ids_def call_def Let_def reads_def
      split: prod.splits sum.splits if_splits)

lemma check_observation_Inr: "check_observation x = Inr ob \<Longrightarrow> ob = x"
  by (auto simp: check_observation_def)

lemma observe_Inr:
  assumes "observe loads docker port_state process_state self target launch now now_utc deadline tr = (tr', Inr ob)"
    and "ov_state ob \<noteq> ''unknown''"
  obtains facts where "observer_facts loads docker self tr = (tr', Inr facts)"
    and "observe_facts self target facts (port_state (dpo_port self)) (subprocess_state_of process_state target launch) launch
           = Inr (ov_state ob, ov_instance ob)"
  using assms
  by (auto simp: observe_def Let_def dest!: check_observation_Inr split: if_splits prod.splits sum.splits)

lemma observe_reads:
  "observe loads docker port_state process_state self target launch now now_utc deadline tr = (tr', r)
     \<Longrightarrow> \<exists>cmds. tr' = tr @ cmds \<and> list_all reads cmds"
  using observer_facts_reads [of loads docker self tr]
  by (auto simp: observe_def Let_def split: if_splits prod.splits sum.splits)

text \<open>
  C7. An observation never claims more than its sample shows.  STOPPED means that the listing of this
  deployment and model succeeded, no container the target is about runs, the recorded launch is terminal, its
  process is gone and the port is closed.  RUNNING means that exactly one such container runs, that it carries
  the labels of this deployment and model, that the port listens, and that the reported instance is that
  container.  Observing only lists and inspects.
\<close>

theorem observation_is_proven:
  assumes "observe loads docker port_state process_state self target launch now now_utc deadline tr = (tr', Inr ob)"
  shows "(ov_state ob = ''stopped'' \<longrightarrow>
            (\<exists>facts. observer_facts loads docker self tr = (tr', Inr facts)
               \<and> (\<forall>f \<in> set facts. aimed target f \<longrightarrow> \<not> cf_running f))
            \<and> (\<forall>l. launch = Some l \<longrightarrow> is_terminal l)
            \<and> subprocess_state_of process_state target launch \<in> {''exited'', ''absent''}
            \<and> port_state (dpo_port self) = ''closed'')
       \<and> (ov_state ob = ''running'' \<longrightarrow>
            (\<exists>facts f i. observer_facts loads docker self tr = (tr', Inr facts) \<and> f \<in> set facts \<and> aimed target f \<and> cf_running f
               \<and> (\<forall>g \<in> set facts. aimed target g \<and> cf_running g \<longrightarrow> g = f)
               \<and> dget (cf_labels f) DEPLOYMENT_LABEL = Some (dpo_deployment_id self)
               \<and> dget (cf_labels f) MODEL_LABEL = Some (dpo_model_id self)
               \<and> ov_instance ob = Some i \<and> i_container_id i = cf_container_id f
               \<and> canonical_utc (cf_started_at f) = Inr (i_started_at i))
            \<and> port_state (dpo_port self) = ''listening'')
       \<and> (\<exists>cmds. tr' = tr @ cmds \<and> list_all reads cmds)"
proof (intro conjI impI)
  assume st: "ov_state ob = ''stopped''"
  then have "ov_state ob \<noteq> ''unknown''" by simp
  from observe_Inr [OF assms this] obtain facts where f: "observer_facts loads docker self tr = (tr', Inr facts)"
    "observe_facts self target facts (port_state (dpo_port self)) (subprocess_state_of process_state target launch) launch
       = Inr (''stopped'', ov_instance ob)" using st by metis
  note s = observe_facts_stopped [OF f(2)]
  show "\<exists>facts. observer_facts loads docker self tr = (tr', Inr facts) \<and> (\<forall>f \<in> set facts. aimed target f \<longrightarrow> \<not> cf_running f)"
    using f(1) s by blast
  show "\<forall>l. launch = Some l \<longrightarrow> is_terminal l" "subprocess_state_of process_state target launch \<in> {''exited'', ''absent''}"
    "port_state (dpo_port self) = ''closed''" using s by blast+
next
  assume st: "ov_state ob = ''running''"
  then have "ov_state ob \<noteq> ''unknown''" by simp
  from observe_Inr [OF assms this] obtain facts where f: "observer_facts loads docker self tr = (tr', Inr facts)"
    "observe_facts self target facts (port_state (dpo_port self)) (subprocess_state_of process_state target launch) launch
       = Inr (''running'', ov_instance ob)" using st by metis
  from observe_facts_running [OF f(2)] obtain fc i where r: "match_target target facts = Matched fc" "cf_running fc"
    "ov_instance ob = Some i" "fact_identity self fc = Inr (Some i)" "port_state (dpo_port self) = ''listening''" by metis
  from f(1) r(2,3) match_target_cases(1) [OF r(1)] fact_identity_Some [OF r(4)]
  show "\<exists>facts f i. observer_facts loads docker self tr = (tr', Inr facts) \<and> f \<in> set facts \<and> aimed target f \<and> cf_running f
      \<and> (\<forall>g \<in> set facts. aimed target g \<and> cf_running g \<longrightarrow> g = f)
      \<and> dget (cf_labels f) DEPLOYMENT_LABEL = Some (dpo_deployment_id self)
      \<and> dget (cf_labels f) MODEL_LABEL = Some (dpo_model_id self)
      \<and> ov_instance ob = Some i \<and> i_container_id i = cf_container_id f
      \<and> canonical_utc (cf_started_at f) = Inr (i_started_at i)" by blast
  show "port_state (dpo_port self) = ''listening''" by (rule r(5))
next
  show "\<exists>cmds. tr' = tr @ cmds \<and> list_all reads cmds" by (rule observe_reads [OF assms])
qed

text \<open>
  A Docker host with one container of deployment \<^verbatim>\<open>lab\<close> and model \<^verbatim>\<open>m1\<close>, which runs until it is stopped.
\<close>

definition demo_container :: "bool \<Rightarrow> json" where
  "demo_container running = JList [JObj [(''Id'', JStr ''c1''),
     (''Config'', JObj [(''Image'', JStr ''img''), (''Labels'', JObj [(DEPLOYMENT_LABEL, JStr ''lab''), (MODEL_LABEL, JStr ''m1''),
        (RUNTIME_LABEL, JStr ''r1''), (CONFIG_LABEL, JStr ''f0'')])]),
     (''State'', JObj [(''Running'', JBool running), (''Status'', JStr ''up''), (''ExitCode'', JInt 0),
        (''StartedAt'', JStr ''2026-01-01T00:00:00Z'')])]]"

definition demo_loads :: "string \<Rightarrow> json option" where
  "demo_loads raw = (if raw = ''R'' then Some (demo_container True) else if raw = ''S'' then Some (demo_container False) else None)"

definition demo_stopped :: "string list list \<Rightarrow> bool" where
  "demo_stopped tr \<longleftrightarrow> list_ex (\<lambda>argv. take 2 argv = [''docker'', ''stop'']) tr"

definition demo_docker :: docker where
  "demo_docker tr argv =
     (if take 2 argv = [''docker'', ''ps''] then Inr (0, ''c1'', [])
      else if take 2 argv = [''docker'', ''inspect''] then Inr (0, if demo_stopped tr then ''S'' else ''R'', [])
      else Inr (0, [], []))"

definition demo_observer :: DockerProcessObserver where
  "demo_observer = \<lparr>dpo_deployment_id = ''lab'', dpo_model_id = ''m1'', dpo_port = 10001\<rparr>"

definition demo_target :: ObservationTarget where
  "demo_target = \<lparr>ot_deployment_id = ''lab'', ot_container_id = None, ot_process_group_id = None\<rparr>"

definition demo_observe :: "string \<Rightarrow> string list list \<Rightarrow> string list list \<times> ObservationV3 result" where
  "demo_observe port = observe demo_loads demo_docker (\<lambda>_. port) (\<lambda>_. ''absent'') demo_observer demo_target None 0 0 1"

definition state_is :: "string \<Rightarrow> string list list \<times> ObservationV3 result \<Rightarrow> bool" where
  "state_is st r = (case snd r of Inr ob \<Rightarrow> ov_state ob = st | Inl e \<Rightarrow> False)"

lemma demo_observation: "state_is ''stopped'' (demo_observe ''closed'' [[''docker'', ''stop'']])"
  by code_simp

theorem observation_is_proven_witness:
  "\<exists>tr' ob. demo_observe ''closed'' [[''docker'', ''stop'']] = (tr', Inr ob) \<and> ov_state ob = ''stopped''
     \<and> (\<exists>facts. observer_facts demo_loads demo_docker demo_observer [[''docker'', ''stop'']] = (tr', Inr facts)
          \<and> (\<forall>f \<in> set facts. aimed demo_target f \<longrightarrow> \<not> cf_running f))"
proof -
  obtain tr' r where r: "demo_observe ''closed'' [[''docker'', ''stop'']] = (tr', r)" by (metis surj_pair)
  with demo_observation obtain ob where ob: "r = Inr ob" "ov_state ob = ''stopped''" by (cases r) (auto simp: state_is_def)
  from observation_is_proven [OF r [unfolded demo_observe_def ob(1)]] r ob show ?thesis by blast
qed

end
