(* ===== verification/Control_Recovery.thy ===== *)
theory Control_Recovery
  imports Process_Observer Contracts "HOL-Library.Multiset"
begin

text \<open>
  Recovery: the reconciliation of one deployment's containers and the client of the recovery helper of
  \<^verbatim>\<open>model_scheduler/control_recovery.py\<close>, and the helper of \<^verbatim>\<open>model_scheduler/recovery_helper.py\<close>.  Docker is the
  parameter of \<open>Process_Observer\<close>; \<open>clock\<close> gives the successive readings of the monotonic clock in one call.
\<close>

section \<open>Reconciliation\<close>

record ReconcileOutcome =
  ro_ok :: bool
  ro_error_code :: "string option"
  ro_stopped_container_ids :: "string list"
  ro_remaining_container_ids :: "string list"

record InstanceStop =
  so_accepted :: bool
  so_stopped :: bool
  so_error_code :: "string option"
  so_container_id :: "string option"

text \<open>\<^verbatim>\<open>_ABSENT\<close>, \<^verbatim>\<open>None\<close> or a fact.\<close>

datatype inspected = Absent | Unreadable | Present ContainerFact

definition inspect_one :: "(string \<Rightarrow> json option) \<Rightarrow> docker \<Rightarrow> string \<Rightarrow> string list list \<Rightarrow> string list list \<times> inspected result" where
  "inspect_one loads docker container_id tr =
     (let (tr', r) = call docker tr [''docker'', ''inspect'', container_id]
      in (tr', rbind r (\<lambda>(exit_code, stdout, stderr).
           Inr (if exit_code \<noteq> 0 then if structured_not_found exit_code stderr then Absent else Unreadable
                else case parse_inspect_payload loads stdout of
                       Inl e \<Rightarrow> Unreadable
                     | Inr facts \<Rightarrow> (case facts of
                         [f] \<Rightarrow> if cf_container_id f = container_id then Present f else Unreadable
                       | _ \<Rightarrow> Unreadable)))))"

definition STOP_GRACE_SECONDS :: int where "STOP_GRACE_SECONDS = 30"

definition stop_argv :: "string \<Rightarrow> string list" where
  "stop_argv container_id = [''docker'', ''stop'', ''--time'', str_int STOP_GRACE_SECONDS, container_id]"

text \<open>The stop command and the inspection that verifies it: \<open>None\<close> is a proven stop, otherwise the error code.\<close>

definition stop_and_verify :: "(string \<Rightarrow> json option) \<Rightarrow> docker \<Rightarrow> string \<Rightarrow> string list list \<Rightarrow> string list list \<times> string option result" where
  "stop_and_verify loads docker container_id tr =
     (case call docker tr (stop_argv container_id) of
        (tr', Inl e) \<Rightarrow> (tr', Inl e)
      | (tr', Inr (exit_code, stdout, stderr)) \<Rightarrow>
          if exit_code \<noteq> 0 then (tr', Inr (Some ''stop_failed''))
          else (case inspect_one loads docker container_id tr' of
                  (tr'', Inl e) \<Rightarrow> (tr'', Inl e)
                | (tr'', Inr after) \<Rightarrow>
                    (tr'', Inr (case after of
                       Absent \<Rightarrow> None
                     | Unreadable \<Rightarrow> Some ''stop_not_verified''
                     | Present f \<Rightarrow> if cf_running f then Some ''stop_not_verified'' else None))))"

definition verified_stop :: "(string \<Rightarrow> json option) \<Rightarrow> docker \<Rightarrow> string \<Rightarrow> string \<Rightarrow> string list list \<Rightarrow> string list list \<times> string option result" where
  "verified_stop loads docker deployment_id container_id tr =
     (case inspect_one loads docker container_id tr of
        (tr', Inl e) \<Rightarrow> (tr', Inl e)
      | (tr', Inr Absent) \<Rightarrow> (tr', Inr None)
      | (tr', Inr Unreadable) \<Rightarrow> (tr', Inr (Some ''docker_unavailable''))
      | (tr', Inr (Present f)) \<Rightarrow>
          if cf_container_id f \<noteq> container_id \<or> dget (cf_labels f) DEPLOYMENT_LABEL \<noteq> Some deployment_id
          then (tr', Inr (Some ''foreign_instance''))
          else if \<not> cf_running f then (tr', Inr None)
          else stop_and_verify loads docker container_id tr')"

text \<open>The loop over the listed containers; \<open>i\<close> counts the clock readings.\<close>

fun reconcile_loop ::
  "(string \<Rightarrow> json option) \<Rightarrow> docker \<Rightarrow> (nat \<Rightarrow> time) \<Rightarrow> string \<Rightarrow> time \<Rightarrow> nat \<Rightarrow> string list \<Rightarrow> ReconcileOutcome \<Rightarrow> string list list
    \<Rightarrow> string list list \<times> ReconcileOutcome result" where
  "reconcile_loop loads docker clock deployment_id deadline i [] acc tr =
     (tr, Inr (acc\<lparr>ro_ok := ro_remaining_container_ids acc = []\<rparr>))"
| "reconcile_loop loads docker clock deployment_id deadline i (container_id # ids) acc tr =
     (let remain = (\<lambda>code. acc\<lparr>ro_remaining_container_ids := ro_remaining_container_ids acc @ [container_id],
            ro_error_code := if ro_error_code acc = None then Some code else ro_error_code acc\<rparr>)
      in if deadline \<le> clock i
         then reconcile_loop loads docker clock deployment_id deadline (Suc i) ids (remain ''recovery_timeout'') tr
         else case verified_stop loads docker deployment_id container_id tr of
                (tr', Inl e) \<Rightarrow> (tr', Inl e)
              | (tr', Inr None) \<Rightarrow>
                  reconcile_loop loads docker clock deployment_id deadline (Suc i) ids
                    (acc\<lparr>ro_stopped_container_ids := ro_stopped_container_ids acc @ [container_id]\<rparr>) tr'
              | (tr', Inr (Some failure)) \<Rightarrow>
                  reconcile_loop loads docker clock deployment_id deadline (Suc i) ids (remain failure) tr')"

definition failed_outcome :: "string \<Rightarrow> ReconcileOutcome" where
  "failed_outcome code =
     \<lparr>ro_ok = False, ro_error_code = Some code, ro_stopped_container_ids = [], ro_remaining_container_ids = []\<rparr>"

text \<open>\<open>close_admission\<close> changes the caller's state before anything else happens.\<close>

definition reconcile ::
  "(string \<Rightarrow> json option) \<Rightarrow> docker \<Rightarrow> (nat \<Rightarrow> time) \<Rightarrow> string \<Rightarrow> ('s \<Rightarrow> 's) \<Rightarrow> time \<Rightarrow> 's \<Rightarrow> string list list
    \<Rightarrow> 's \<times> string list list \<times> ReconcileOutcome result" where
  "reconcile loads docker clock deployment_id close_admission deadline s tr =
     (close_admission s,
      if deadline \<le> clock 0 then (tr, Inr (failed_outcome ''recovery_timeout''))
      else case list_container_ids deployment_id None docker tr of
             (tr', Inl e) \<Rightarrow> (tr', if is_ObservationError e then Inr (failed_outcome ''container_listing_failed'') else Inl e)
           | (tr', Inr ids) \<Rightarrow>
               reconcile_loop loads docker clock deployment_id deadline 1 ids
                 \<lparr>ro_ok = False, ro_error_code = None, ro_stopped_container_ids = [], ro_remaining_container_ids = []\<rparr> tr')"

definition identity_matches :: "string \<Rightarrow> ContainerFact \<Rightarrow> InstanceIdentity \<Rightarrow> bool result" where
  "identity_matches deployment_id f identity =
     (if cf_container_id f \<noteq> i_container_id identity \<or> dget (cf_labels f) DEPLOYMENT_LABEL \<noteq> Some deployment_id then Inr False
      else if dget (cf_labels f) MODEL_LABEL \<noteq> Some (i_model_id identity) then Inr False
      else case rbind (canonical_utc (cf_started_at f)) (\<lambda>a. rbind (canonical_utc (i_started_at identity)) (\<lambda>b. Inr (a = b))) of
             Inl e \<Rightarrow> if is_ObservationError e then Inr False else Inl e
           | Inr same \<Rightarrow> Inr same)"

definition stop_instance ::
  "(string \<Rightarrow> json option) \<Rightarrow> docker \<Rightarrow> time \<Rightarrow> string \<Rightarrow> InstanceIdentity \<Rightarrow> time \<Rightarrow> string list list \<Rightarrow> string list list \<times> InstanceStop result" where
  "stop_instance loads docker now deployment_id identity deadline tr =
     (let cid = i_container_id identity;
          refused = (\<lambda>code c. \<lparr>so_accepted = False, so_stopped = False, so_error_code = Some code, so_container_id = c\<rparr>);
          proven = \<lparr>so_accepted = True, so_stopped = True, so_error_code = None, so_container_id = Some cid\<rparr>
      in if i_deployment_id identity \<noteq> deployment_id then (tr, Inr (refused ''foreign_instance'' None))
         else if deadline \<le> now then (tr, Inr (refused ''recovery_timeout'' (Some cid)))
         else case inspect_one loads docker cid tr of
                (tr', Inl e) \<Rightarrow> (tr', Inl e)
              | (tr', Inr Absent) \<Rightarrow> (tr', Inr proven)
              | (tr', Inr Unreadable) \<Rightarrow> (tr', Inr (refused ''docker_unavailable'' (Some cid)))
              | (tr', Inr (Present f)) \<Rightarrow>
                  (case identity_matches deployment_id f identity of
                     Inl e \<Rightarrow> (tr', Inl e)
                   | Inr False \<Rightarrow> (tr', Inr (refused ''stale_identity'' (Some cid)))
                   | Inr True \<Rightarrow>
                       if \<not> cf_running f then (tr', Inr proven)
                       else case stop_and_verify loads docker cid tr' of
                              (tr'', Inl e) \<Rightarrow> (tr'', Inl e)
                            | (tr'', Inr None) \<Rightarrow> (tr'', Inr proven)
                            | (tr'', Inr (Some code)) \<Rightarrow> (tr'', Inr (refused code (Some cid)))))"

section \<open>The recovery helper and its client\<close>

text \<open>
  The helper runs as root.  \<open>run\<close>, \<open>docker_inspect\<close>, \<open>port_open\<close> and \<open>control_stopped\<close> are its ports, each given the
  commands issued so far; \<open>docker_inspect\<close> is \<^verbatim>\<open>check_output\<close> of \<^verbatim>\<open>docker inspect\<close>, whose \<^verbatim>\<open>CalledProcessError\<close> is
  \<open>Inr None\<close>.  In the helper \<open>loads\<close> is \<^verbatim>\<open>json.loads\<close> without hooks.
\<close>

definition helper_ports :: "(string, int) dict" where
  "helper_ports = [(''embedding'', 10001), (''reranker'', 10002), (''qwen-small'', 10003), (''qwen-large'', 10004)]"

definition helper_inspect :: "(string \<Rightarrow> json option) \<Rightarrow> string option result \<Rightarrow> (string, json) dict option result" where
  "helper_inspect loads output =
     rbind output (\<lambda>out. case out of
       None \<Rightarrow> Inr None
     | Some raw \<Rightarrow>
         (case map_option last_wins (loads raw) of
            Some (JList [JObj d]) \<Rightarrow> Inr (Some d)
          | _ \<Rightarrow> Inl (ValueError ''invalid docker inspect response'')))"

text \<open>\<^verbatim>\<open>record.get(key, {}).get(...)\<close>: only an object has \<^verbatim>\<open>get\<close>.\<close>

definition get_object :: "(string, json) dict \<Rightarrow> string \<Rightarrow> (string, json) dict result" where
  "get_object d k = (case dget d k of
     None \<Rightarrow> Inr [] | Some (JObj o') \<Rightarrow> Inr o' | Some _ \<Rightarrow> Inl (AttributeError ''get''))"

fun helper_models ::
  "(string list list \<Rightarrow> string list \<Rightarrow> unit result) \<Rightarrow> (string list list \<Rightarrow> string \<Rightarrow> (string, json) dict option result)
    \<Rightarrow> (string list list \<Rightarrow> int \<Rightarrow> bool) \<Rightarrow> string \<Rightarrow> string \<Rightarrow> string list \<Rightarrow> string list \<Rightarrow> string list list
    \<Rightarrow> string list list \<times> string list result" where
  "helper_models run inspector port_open deployment_id config_sha256 [] stopped tr = (tr, Inr stopped)"
| "helper_models run inspector port_open deployment_id config_sha256 (model_id # ids) stopped tr =
     (let name = ''sms-'' @ deployment_id @ ''-'' @ model_id;
          stop = [''docker'', ''stop'', ''--time'', ''30'', name];
          finish = (\<lambda>tr'. if port_open tr' (the (dget helper_ports model_id)) then (tr', Inl (ValueError ''container port remains open''))
             else helper_models run inspector port_open deployment_id config_sha256 ids (stopped @ [model_id]) tr')
      in case inspector tr name of
           Inl e \<Rightarrow> (tr, Inl e)
         | Inr None \<Rightarrow> finish tr
         | Inr (Some record) \<Rightarrow>
             (case rbind (get_object record ''Config'') (\<lambda>c. get_object c ''Labels'') of
                Inl e \<Rightarrow> (tr, Inl e)
              | Inr labels \<Rightarrow>
                  if jget labels DEPLOYMENT_LABEL \<noteq> JStr deployment_id \<or> jget labels MODEL_LABEL \<noteq> JStr model_id
                     \<or> jget labels CONFIG_LABEL \<noteq> JStr config_sha256
                  then (tr, Inl (ValueError ''container label mismatch''))
                  else (case run tr stop of
                          Inl e \<Rightarrow> (tr @ [stop], Inl e)
                        | Inr _ \<Rightarrow>
                            (case inspector (tr @ [stop]) name of
                               Inl e \<Rightarrow> (tr @ [stop], Inl e)
                             | Inr None \<Rightarrow> finish (tr @ [stop])
                             | Inr (Some after) \<Rightarrow>
                                 (case get_object after ''State'' of
                                    Inl e \<Rightarrow> (tr @ [stop], Inl e)
                                  | Inr st \<Rightarrow>
                                      if jget st ''Running'' = JBool True then (tr @ [stop], Inl (ValueError ''container remains running''))
                                      else finish (tr @ [stop]))))))"

definition helper_ok :: "string list \<Rightarrow> json" where
  "helper_ok stopped = JObj [(''ok'', JBool True), (''phase'', JStr ''complete''), (''error_code'', JNull),
     (''stopped_models'', JList (map JStr stopped))]"

definition helper_failed :: json where
  "helper_failed = JObj [(''ok'', JBool False), (''phase'', JStr ''failed''), (''error_code'', JStr ''control_recovery_failed''),
     (''stopped_models'', JList [])]"

definition manifest_checks :: "(string, json) dict \<Rightarrow> (string \<times> string) result" where
  "manifest_checks data =
     rbind (dlookup data ''deployment_id'') (\<lambda>dep.
     rbind (dlookup data ''config_sha256'') (\<lambda>cfg.
     rbind (dlookup data ''models'') (\<lambda>models.
     (case (dep, cfg, models) of
        (JStr deployment_id, JStr config_sha256, JObj ms) \<Rightarrow>
          if \<not> sha256_ok config_sha256 \<or> set (dkeys ms) \<noteq> set (dkeys helper_ports) then Inl (ValueError ''invalid manifest'')
          else if list_all (\<lambda>(model_id, m). case m of
                   JObj d \<Rightarrow> jget d ''container_name'' = JStr (''sms-'' @ deployment_id @ ''-'' @ model_id) | _ \<Rightarrow> False) ms
          then Inr (deployment_id, config_sha256) else Inl (ValueError ''unsafe container name'')
      | _ \<Rightarrow> Inl (ValueError ''invalid manifest'')))))"

definition helper_start :: "(string list list \<Rightarrow> string list \<Rightarrow> unit result) \<Rightarrow> string list list \<Rightarrow> string list list \<times> unit result" where
  "helper_start run tr = (tr @ [[''systemctl'', ''start'', ''llama-swap.service'']], run tr [''systemctl'', ''start'', ''llama-swap.service''])"

definition helper_body ::
  "(string list list \<Rightarrow> string list \<Rightarrow> unit result) \<Rightarrow> (string list list \<Rightarrow> string \<Rightarrow> (string, json) dict option result)
    \<Rightarrow> (string list list \<Rightarrow> int \<Rightarrow> bool) \<Rightarrow> (string list list \<Rightarrow> bool) \<Rightarrow> json option result \<Rightarrow> string list list
    \<Rightarrow> string list list \<times> json result" where
  "helper_body run inspector port_open control_stopped manifest tr =
     (case manifest of
        Inl e \<Rightarrow> (tr, Inl e)
      | Inr None \<Rightarrow> (tr, Inl (ValueError ''invalid JSON''))
      | Inr (Some doc) \<Rightarrow>
          (case last_wins doc of
             JObj data \<Rightarrow>
               (case manifest_checks data of
                  Inl e \<Rightarrow> (tr, Inl e)
                | Inr (deployment_id, config_sha256) \<Rightarrow>
                    (let stop = [''systemctl'', ''stop'', ''llama-swap.service'']; tr1 = tr @ [stop] in
                     case run tr stop of
                       Inl e \<Rightarrow> (tr1, Inl e)
                     | Inr _ \<Rightarrow>
                         if \<not> control_stopped tr1 then (tr1, Inl (ValueError ''control_plane_still_running''))
                         else (case helper_models run inspector port_open deployment_id config_sha256 (sort (dkeys helper_ports)) [] tr1 of
                                 (tr2, Inl e) \<Rightarrow> (tr2, Inl e)
                               | (tr2, Inr stopped) \<Rightarrow>
                                   (case helper_start run tr2 of
                                      (tr3, Inl e) \<Rightarrow> (tr3, Inl e)
                                    | (tr3, Inr _) \<Rightarrow> (tr3, Inr (helper_ok stopped))))))
           | _ \<Rightarrow> (tr, Inl (TypeError ''indices must be integers''))))"

text \<open>The exceptions of the \<^verbatim>\<open>except\<close> clause become the failed result; others leave the helper.\<close>

definition helper_recover ::
  "(string list list \<Rightarrow> string list \<Rightarrow> unit result) \<Rightarrow> (string list list \<Rightarrow> string \<Rightarrow> (string, json) dict option result)
    \<Rightarrow> (string list list \<Rightarrow> int \<Rightarrow> bool) \<Rightarrow> (string list list \<Rightarrow> bool) \<Rightarrow> json option result \<Rightarrow> string list list
    \<Rightarrow> string list list \<times> json result" where
  "helper_recover run inspector port_open control_stopped manifest tr =
     (case helper_body run inspector port_open control_stopped manifest tr of
        (tr', Inl e) \<Rightarrow>
          (tr', if is_OSError e \<or> is_ValueError e \<or> is_KeyError e \<or> is_SubprocessError e then Inr helper_failed else Inl e)
      | (tr', Inr r) \<Rightarrow> (tr', Inr r))"

definition recovery_failed :: "string \<Rightarrow> RecoveryResult" where
  "recovery_failed code = \<lparr>rec_ok = False, rec_phase = ''failed'', rec_error_code = Some code, rec_stopped_models = []\<rparr>"

definition parse_result_fields :: "(string, json) dict \<Rightarrow> RecoveryResult result" where
  "parse_result_fields data =
     (case (jget data ''ok'', jget data ''phase'', jget data ''error_code'', jget data ''stopped_models'') of
        (JBool ok, JStr phase, code, JList items) \<Rightarrow>
          (let models = json_strings items; error_code = (case code of JStr c \<Rightarrow> Some c | _ \<Rightarrow> None)
           in if \<not> (code = JNull \<or> error_code \<noteq> None) \<or> items \<noteq> map JStr models \<or> [] \<in> set models
                 \<or> \<not> distinct models \<or> \<not> sorted models
              then Inl (ValueError ''invalid helper result'')
              else if ok \<and> (phase \<noteq> ''complete'' \<or> error_code \<noteq> None) then Inl (ValueError ''invalid successful helper result'')
              else if \<not> ok \<and> (phase \<notin> {''failed'', ''already_running''} \<or> \<not> truthy error_code \<or> models \<noteq> [])
              then Inl (ValueError ''invalid failed helper result'')
              else Inr \<lparr>rec_ok = ok, rec_phase = phase, rec_error_code = error_code, rec_stopped_models = models\<rparr>)
      | _ \<Rightarrow> Inl (ValueError ''invalid helper result''))"

definition parse_result :: "(string \<Rightarrow> json option) \<Rightarrow> string \<Rightarrow> RecoveryResult result" where
  "parse_result loads output =
     (case loads output of
        None \<Rightarrow> Inl (ValueError ''invalid JSON'')
      | Some doc \<Rightarrow>
          if reject_duplicate_keys doc \<noteq> Inr () then Inl (ValueError ''duplicate JSON key'')
          else (case doc of
                  JObj data \<Rightarrow>
                    if set (dkeys data) \<noteq> {''ok'', ''phase'', ''error_code'', ''stopped_models''} then Inl (ValueError ''invalid helper result'')
                    else parse_result_fields data
                | _ \<Rightarrow> Inl (ValueError ''invalid helper result'')))"

text \<open>What the bounded run of the helper process ended with.\<close>

datatype helper_run = HelperTimeout | HelperUndecodable | HelperError | HelperExit int string

definition client_recover :: "(string \<Rightarrow> json option) \<Rightarrow> time \<Rightarrow> time \<Rightarrow> helper_run \<Rightarrow> RecoveryResult" where
  "client_recover loads now deadline outcome =
     (if deadline - now \<le> 0 then recovery_failed ''control_recovery_timeout''
      else case outcome of
             HelperTimeout \<Rightarrow> recovery_failed ''control_recovery_timeout''
           | HelperUndecodable \<Rightarrow> recovery_failed ''control_recovery_protocol_error''
           | HelperError \<Rightarrow> recovery_failed ''control_recovery_failed''
           | HelperExit returncode output \<Rightarrow>
               if returncode \<noteq> 0 then recovery_failed ''control_recovery_failed''
               else (case parse_result loads output of
                       Inl e \<Rightarrow> recovery_failed ''control_recovery_protocol_error''
                     | Inr r \<Rightarrow> r))"

section \<open>Stops are guarded and proven\<close>

text \<open>The last command of the trace inspected a running container with this id and the deployment's label.\<close>

definition own_running :: "(string \<Rightarrow> json option) \<Rightarrow> docker \<Rightarrow> string \<Rightarrow> string \<Rightarrow> string list list \<Rightarrow> bool" where
  "own_running loads docker deployment_id container_id t \<longleftrightarrow>
     (\<exists>t0 f. inspect_one loads docker container_id t0 = (t, Inr (Present f)) \<and> cf_container_id f = container_id
        \<and> dget (cf_labels f) DEPLOYMENT_LABEL = Some deployment_id \<and> cf_running f)"

text \<open>The last command of the trace showed that the container is gone or does not run.\<close>

definition seen_stopped :: "(string \<Rightarrow> json option) \<Rightarrow> docker \<Rightarrow> string \<Rightarrow> string list list \<Rightarrow> bool" where
  "seen_stopped loads docker container_id t \<longleftrightarrow>
     (\<exists>t0 r. inspect_one loads docker container_id t0 = (t, Inr r) \<and> (r = Absent \<or> (\<exists>f. r = Present f \<and> \<not> cf_running f)))"

text \<open>A trace grows by reading commands, and by stop commands right after such an inspection.\<close>

inductive guarded :: "(string \<Rightarrow> string list list \<Rightarrow> bool) \<Rightarrow> string list list \<Rightarrow> string list list \<Rightarrow> bool"
  for own :: "string \<Rightarrow> string list list \<Rightarrow> bool" and t :: "string list list" where
  start: "guarded own t t"
| read: "guarded own t t' \<Longrightarrow> reads argv \<Longrightarrow> guarded own t (t' @ [argv])"
| stop: "guarded own t t' \<Longrightarrow> own c t' \<Longrightarrow> guarded own t (t' @ [stop_argv c])"

lemma guarded_trans: "guarded own t u \<Longrightarrow> guarded own s t \<Longrightarrow> guarded own s u"
  by (induction rule: guarded.induct) (auto intro: guarded.intros)

lemma guarded_grows: "guarded own t u \<Longrightarrow> \<exists>w. u = t @ w"
  by (induction rule: guarded.induct) auto

lemma guarded_stops:
  "guarded own t u \<Longrightarrow> u = pre @ argv # post \<Longrightarrow> length t \<le> length pre \<Longrightarrow> reads argv \<or> (\<exists>c. argv = stop_argv c \<and> own c pre)"
proof (induction arbitrary: post rule: guarded.induct)
  case start
  then show ?case by simp
next
  case (read t' a)
  then show ?case by (cases post rule: rev_cases) (simp_all flip: append_assoc append_Cons)
next
  case (stop t' c)
  then show ?case by (cases post rule: rev_cases) (auto simp flip: append_assoc append_Cons)
qed

lemma inspect_reads: "inspect_one loads docker c tr = (tr', r) \<Longrightarrow> tr' = tr @ [[''docker'', ''inspect'', c]]"
  by (auto simp: inspect_one_def call_def Let_def)

lemma inspect_guarded: "inspect_one loads docker c tr = (tr', r) \<Longrightarrow> guarded own tr tr'"
  by (auto dest!: inspect_reads intro!: guarded.read guarded.start simp: reads_def)

lemma inspect_Present: "inspect_one loads docker c tr = (tr', Inr (Present f)) \<Longrightarrow> cf_container_id f = c"
  by (auto simp: inspect_one_def call_def Let_def split: if_splits sum.splits list.splits)

lemma stop_and_verify_guarded:
  assumes "stop_and_verify loads docker c tr = (tr', r)" and "own c tr"
  shows "guarded own tr tr'"
proof -
  have g: "guarded own tr (tr @ [stop_argv c])" using assms(2) by (intro guarded.stop guarded.start)
  show ?thesis
    using assms(1) g
    by (auto simp: stop_and_verify_def call_def split: sum.splits prod.splits if_splits
        intro: guarded_trans [OF inspect_guarded])
qed

lemma stop_and_verify_proven: "stop_and_verify loads docker c tr = (tr', Inr None) \<Longrightarrow> seen_stopped loads docker c tr'"
  by (auto simp: stop_and_verify_def call_def seen_stopped_def split: sum.splits prod.splits if_splits inspected.splits)

lemma verified_stop_guarded:
  assumes "verified_stop loads docker dep c tr = (tr', r)"
  shows "guarded (own_running loads docker dep) tr tr'"
proof -
  obtain t x where i: "inspect_one loads docker c tr = (t, x)" by (metis surj_pair)
  note g = inspect_guarded [OF i, of "own_running loads docker dep"]
  show ?thesis
  proof (cases "\<exists>f. x = Inr (Present f) \<and> dget (cf_labels f) DEPLOYMENT_LABEL = Some dep \<and> cf_running f")
    case True
    then obtain f where f: "x = Inr (Present f)" "dget (cf_labels f) DEPLOYMENT_LABEL = Some dep" "cf_running f" by blast
    have c: "cf_container_id f = c" by (rule inspect_Present) (use i f(1) in simp)
    have own: "own_running loads docker dep c t" using i f c by (auto simp: own_running_def)
    have "stop_and_verify loads docker c t = (tr', r)" using assms i f c by (simp add: verified_stop_def)
    then have "guarded (own_running loads docker dep) t tr'" using own by (rule stop_and_verify_guarded)
    then show ?thesis using g by (rule guarded_trans)
  next
    case False
    then show ?thesis using assms i g inspect_Present [of loads docker c tr t]
      by (auto simp: verified_stop_def split: sum.splits inspected.splits if_splits)
  qed
qed

lemma verified_stop_proven:
  assumes "verified_stop loads docker dep c tr = (tr', Inr None)"
  shows "seen_stopped loads docker c tr'"
proof -
  obtain t x where i: "inspect_one loads docker c tr = (t, x)" by (metis surj_pair)
  show ?thesis
  proof (cases x)
    case (Inl e)
    then show ?thesis using assms i by (simp add: verified_stop_def)
  next
    case (Inr a)
    then show ?thesis using assms i stop_and_verify_proven [of loads docker c t tr']
      by (cases a) (auto simp: verified_stop_def seen_stopped_def split: if_splits)
  qed
qed

text \<open>One pass of the loop: a timeout, an exception, a proven stop or a failure.\<close>

lemma reconcile_loop_cases:
  assumes "reconcile_loop loads docker clock dep deadline i (c # ids) acc tr = (tr', r)"
  obtains (raise) e where "verified_stop loads docker dep c tr = (tr', Inl e)" and "r = Inl e"
  | (stopped) t where "verified_stop loads docker dep c tr = (t, Inr None)"
      and "reconcile_loop loads docker clock dep deadline (Suc i) ids
             (acc\<lparr>ro_stopped_container_ids := ro_stopped_container_ids acc @ [c]\<rparr>) t = (tr', r)"
  | (remains) t code where "guarded (own_running loads docker dep) tr t"
      and "reconcile_loop loads docker clock dep deadline (Suc i) ids
             (acc\<lparr>ro_remaining_container_ids := ro_remaining_container_ids acc @ [c],
                  ro_error_code := if ro_error_code acc = None then Some code else ro_error_code acc\<rparr>) t = (tr', r)"
proof (cases "deadline \<le> clock i")
  case True
  then show thesis using assms remains [OF guarded.start] by simp
next
  case False
  obtain t x where v: "verified_stop loads docker dep c tr = (t, x)" by (metis surj_pair)
  show thesis
  proof (cases x)
    case (Inl e)
    then show thesis using assms False v raise by simp
  next
    case (Inr o')
    then show thesis using assms False v stopped remains [OF verified_stop_guarded [OF v]] by (cases o') simp_all
  qed
qed

lemma reconcile_loop_guarded:
  "reconcile_loop loads docker clock dep deadline i ids acc tr = (tr', r) \<Longrightarrow> guarded (own_running loads docker dep) tr tr'"
proof (induction ids arbitrary: i acc tr)
  case Nil
  then show ?case by (simp add: guarded.start)
next
  case (Cons c ids)
  from Cons.prems show ?case
  proof (cases rule: reconcile_loop_cases)
    case (raise e)
    then show ?thesis using verified_stop_guarded by blast
  next
    case (stopped t)
    then show ?thesis using Cons.IH verified_stop_guarded guarded_trans by blast
  next
    case (remains t code)
    then show ?thesis using Cons.IH guarded_trans by blast
  qed
qed

lemma reconcile_loop_outcome:
  assumes "reconcile_loop loads docker clock dep deadline i ids acc tr = (tr', Inr out)"
    and "\<forall>c \<in> set (ro_stopped_container_ids acc). \<exists>t w. tr = t @ w \<and> seen_stopped loads docker c t"
    and "ro_error_code acc = None \<longleftrightarrow> ro_remaining_container_ids acc = []"
  shows "ro_ok out = (ro_remaining_container_ids out = [])
    \<and> (ro_error_code out = None \<longleftrightarrow> ro_remaining_container_ids out = [])
    \<and> mset (ro_stopped_container_ids out) + mset (ro_remaining_container_ids out)
        = mset (ro_stopped_container_ids acc) + mset (ro_remaining_container_ids acc) + mset ids
    \<and> (\<forall>c \<in> set (ro_stopped_container_ids out). \<exists>t w. tr' = t @ w \<and> seen_stopped loads docker c t)"
  using assms
proof (induction ids arbitrary: i acc tr)
  case Nil
  then show ?case by auto
next
  case (Cons c ids)
  have later: "\<exists>t w. t1 = t @ w \<and> P t" if "\<exists>t w. tr = t @ w \<and> P t" "guarded own tr t1" for t1 P own
    using that guarded_grows by (metis append_assoc)
  from Cons.prems(1) show ?case
  proof (cases rule: reconcile_loop_cases)
    case (raise e)
    then show ?thesis by simp
  next
    case (stopped t)
    have "\<forall>d \<in> set (ro_stopped_container_ids acc @ [c]). \<exists>u w. t = u @ w \<and> seen_stopped loads docker d u"
      using Cons.prems(2) later [OF _ verified_stop_guarded [OF stopped(1)]] verified_stop_proven [OF stopped(1)] by auto
    with Cons.IH [OF stopped(2)] Cons.prems(3) show ?thesis by simp
  next
    case (remains t code)
    have "\<forall>d \<in> set (ro_stopped_container_ids acc). \<exists>u w. t = u @ w \<and> seen_stopped loads docker d u"
      using Cons.prems(2) later [OF _ remains(1)] by blast
    with Cons.IH [OF remains(2)] Cons.prems(3) show ?thesis by (cases "ro_error_code acc") simp_all
  qed
qed

lemma list_ids_guarded: "list_container_ids dep m docker tr = (t, r) \<Longrightarrow> guarded own tr t"
  by (auto simp: list_container_ids_def call_def Let_def reads_def intro!: guarded.read guarded.start)

lemma reconcile_guarded:
  "reconcile loads docker clock dep close deadline s tr = (s', tr', r) \<Longrightarrow> guarded (own_running loads docker dep) tr tr'"
  by (auto simp: reconcile_def split: if_splits prod.splits sum.splits intro: guarded.start list_ids_guarded
      dest!: reconcile_loop_guarded elim!: guarded_trans)

lemma reconcile_outcome:
  assumes "reconcile loads docker clock dep close deadline s tr = (s', tr', Inr out)"
  shows "s' = close s
    \<and> (ro_ok out \<longrightarrow> ro_error_code out = None \<and> ro_remaining_container_ids out = []
        \<and> (\<exists>t ids. list_container_ids dep None docker tr = (t, Inr ids) \<and> mset (ro_stopped_container_ids out) = mset ids))
    \<and> (\<not> ro_ok out \<longrightarrow> ro_error_code out \<noteq> None)
    \<and> (\<forall>c \<in> set (ro_stopped_container_ids out). \<exists>t w. tr' = t @ w \<and> seen_stopped loads docker c t)"
proof (cases "\<exists>code. out = failed_outcome code")
  case True
  then show ?thesis using assms by (auto simp: reconcile_def failed_outcome_def)
next
  case False
  then obtain t ids where l: "list_container_ids dep None docker tr = (t, Inr ids)" and s': "s' = close s"
    and loop: "reconcile_loop loads docker clock dep deadline 1 ids
        \<lparr>ro_ok = False, ro_error_code = None, ro_stopped_container_ids = [], ro_remaining_container_ids = []\<rparr> t = (tr', Inr out)"
    using assms by (auto simp: reconcile_def split: if_splits prod.splits sum.splits)
  from reconcile_loop_outcome [OF loop] s' l show ?thesis by auto
qed

text \<open>
  C6. Startup reconciliation closes admission first and reports only what it saw.  When it reports success, every
  container in the listing of this deployment was seen gone or not running during the call, and none is left
  over; otherwise an error code is given.  Listed containers are split exactly into stopped and remaining ones.
  A stop command is issued only right after an inspection that showed the addressed container running under this
  deployment's label, so no foreign container is ever stopped.
\<close>

theorem reconcile_proves_stops:
  assumes "reconcile loads docker clock dep close deadline s tr = (s', tr', Inr out)"
  shows "s' = close s
    \<and> (ro_ok out \<longrightarrow> ro_error_code out = None \<and> ro_remaining_container_ids out = []
        \<and> (\<exists>t ids. list_container_ids dep None docker tr = (t, Inr ids) \<and> mset (ro_stopped_container_ids out) = mset ids))
    \<and> (\<not> ro_ok out \<longrightarrow> ro_error_code out \<noteq> None)
    \<and> (\<forall>c \<in> set (ro_stopped_container_ids out). \<exists>t w. tr' = t @ w \<and> seen_stopped loads docker c t)
    \<and> (\<forall>pre argv post. tr' = pre @ argv # post \<longrightarrow> length tr \<le> length pre
        \<longrightarrow> reads argv \<or> (\<exists>c. argv = stop_argv c \<and> own_running loads docker dep c pre))"
  using reconcile_outcome [OF assms] guarded_stops [OF reconcile_guarded [OF assms]] by blast

definition demo_reconcile :: "bool \<times> string list list \<times> ReconcileOutcome result" where
  "demo_reconcile = reconcile demo_loads demo_docker (\<lambda>_. 0) ''lab'' (\<lambda>_. True) 1 False []"

definition demo_reconciled :: "ReconcileOutcome result \<Rightarrow> bool" where
  "demo_reconciled r = (case r of Inr out \<Rightarrow> ro_ok out \<and> ro_stopped_container_ids out = [''c1''] | Inl e \<Rightarrow> False)"

lemma demo_reconcile_ok: "demo_reconciled (snd (snd demo_reconcile))"
  by code_simp

theorem reconcile_proves_stops_witness:
  "\<exists>tr' out. demo_reconcile = (True, tr', Inr out) \<and> ro_ok out \<and> ro_error_code out = None \<and> ro_stopped_container_ids out = [''c1'']
     \<and> (\<exists>t w. tr' = t @ w \<and> seen_stopped demo_loads demo_docker ''c1'' t)"
proof -
  obtain s' tr' r where r: "demo_reconcile = (s', tr', r)" by (metis prod_cases3)
  obtain out where out: "r = Inr out" "ro_ok out" "ro_stopped_container_ids out = [''c1'']"
    using demo_reconcile_ok unfolding r demo_reconciled_def snd_conv by (cases r) auto
  from reconcile_proves_stops [OF r [unfolded demo_reconcile_def out(1)]] r out show ?thesis by (intro exI [of _ tr'] exI [of _ out]) simp
qed

text \<open>The last command of the trace inspected the running container of exactly this identity.\<close>

definition same_instance ::
  "(string \<Rightarrow> json option) \<Rightarrow> docker \<Rightarrow> string \<Rightarrow> InstanceIdentity \<Rightarrow> string \<Rightarrow> string list list \<Rightarrow> bool" where
  "same_instance loads docker deployment_id identity c t \<longleftrightarrow> c = i_container_id identity
     \<and> (\<exists>t0 f. inspect_one loads docker c t0 = (t, Inr (Present f)) \<and> cf_running f
          \<and> dget (cf_labels f) DEPLOYMENT_LABEL = Some deployment_id \<and> dget (cf_labels f) MODEL_LABEL = Some (i_model_id identity)
          \<and> (\<exists>u. canonical_utc (cf_started_at f) = Inr u \<and> canonical_utc (i_started_at identity) = Inr u))"

lemma identity_matches_True:
  "identity_matches dep f identity = Inr True \<Longrightarrow> dget (cf_labels f) DEPLOYMENT_LABEL = Some dep
     \<and> dget (cf_labels f) MODEL_LABEL = Some (i_model_id identity)
     \<and> (\<exists>u. canonical_utc (cf_started_at f) = Inr u \<and> canonical_utc (i_started_at identity) = Inr u)"
  by (cases "canonical_utc (cf_started_at f)"; cases "canonical_utc (i_started_at identity)")
     (auto simp: identity_matches_def split: if_splits)

lemma stop_instance_guarded:
  assumes "stop_instance loads docker now dep identity deadline tr = (tr', r)"
  shows "guarded (same_instance loads docker dep identity) tr tr'"
proof (cases "i_deployment_id identity \<noteq> dep \<or> deadline \<le> now")
  case True
  then show ?thesis using assms by (auto simp: stop_instance_def Let_def guarded.start split: if_splits)
next
  case False
  define cid where "cid = i_container_id identity"
  obtain t x where i: "inspect_one loads docker cid tr = (t, x)" by (metis surj_pair)
  note g = inspect_guarded [OF i, of "same_instance loads docker dep identity"]
  show ?thesis
  proof (cases "\<exists>f. x = Inr (Present f) \<and> identity_matches dep f identity = Inr True \<and> cf_running f")
    case True
    then obtain f where f: "x = Inr (Present f)" "identity_matches dep f identity = Inr True" "cf_running f" by blast
    have own: "same_instance loads docker dep identity cid t"
      using i f identity_matches_True [OF f(2)] by (auto simp: same_instance_def cid_def)
    have "\<exists>x. stop_and_verify loads docker cid t = (tr', x)"
      using assms False i f by (auto simp: stop_instance_def Let_def cid_def split: prod.splits sum.splits option.splits)
    then show ?thesis using stop_and_verify_guarded [of loads docker cid t tr', where own = "same_instance loads docker dep identity"] own g
      by (blast intro: guarded_trans)
  next
    case no: False
    then have "t = tr'" using assms False i
      by (auto simp: stop_instance_def Let_def cid_def split: sum.splits inspected.splits bool.splits if_splits)
    then show ?thesis using g by simp
  qed
qed

lemma stop_instance_proven:
  assumes "stop_instance loads docker now dep identity deadline tr = (tr', Inr out)" and "so_stopped out"
  shows "seen_stopped loads docker (i_container_id identity) tr'"
proof -
  define cid where "cid = i_container_id identity"
  obtain t x where i: "inspect_one loads docker cid tr = (t, x)" by (metis surj_pair)
  obtain u y where v: "stop_and_verify loads docker cid t = (u, y)" by (metis surj_pair)
  have "y = Inr None \<Longrightarrow> seen_stopped loads docker cid u" using stop_and_verify_proven v by blast
  then show ?thesis using assms i v
    by (auto simp: stop_instance_def Let_def cid_def seen_stopped_def
        split: sum.splits inspected.splits bool.splits if_splits option.splits)
qed

text \<open>
  C8. Stopping an instance never reaches another one.  The only command besides inspections is a stop of the
  identity's own container id, and it is issued only right after an inspection that showed that container running
  with the identity's deployment, model and start time; so an identity of an earlier boot or container stops
  nothing.  A reported stop rests on a last inspection that showed the container gone or not running.
\<close>

theorem stale_identity_never_stops:
  assumes "stop_instance loads docker now dep identity deadline tr = (tr', r)"
  shows "(\<forall>pre argv post. tr' = pre @ argv # post \<longrightarrow> length tr \<le> length pre
        \<longrightarrow> reads argv \<or> argv = stop_argv (i_container_id identity) \<and> same_instance loads docker dep identity (i_container_id identity) pre)
    \<and> (\<forall>out. r = Inr out \<longrightarrow> so_stopped out \<longrightarrow> so_error_code out = None \<and> seen_stopped loads docker (i_container_id identity) tr')"
proof (intro conjI allI impI)
  fix pre argv post
  assume "tr' = pre @ argv # post" "length tr \<le> length pre"
  from guarded_stops [OF stop_instance_guarded [OF assms] this]
  show "reads argv \<or> argv = stop_argv (i_container_id identity) \<and> same_instance loads docker dep identity (i_container_id identity) pre"
    by (auto simp: same_instance_def)
next
  fix out assume out: "r = Inr out" "so_stopped out"
  show "seen_stopped loads docker (i_container_id identity) tr'" using stop_instance_proven assms out by blast
  show "so_error_code out = None" using assms out
    by (auto simp: stop_instance_def Let_def split: if_splits prod.splits sum.splits inspected.splits bool.splits option.splits)
qed

definition demo_identity :: InstanceIdentity where
  "demo_identity = \<lparr>i_container_id = ''c1'', i_started_at = ''2026-01-01T01:00:00+01:00'', i_deployment_id = ''lab'', i_model_id = ''m1'',
     i_runtime_id = ''r1'', i_candidate_digest = ''f0'', i_image_digest = ''img''\<rparr>"

definition demo_stop :: "string list list \<times> InstanceStop result" where
  "demo_stop = stop_instance demo_loads demo_docker 0 ''lab'' demo_identity 1 []"

definition stop_reported :: "InstanceStop result \<Rightarrow> bool" where
  "stop_reported r = (case r of Inr out \<Rightarrow> so_stopped out | Inl e \<Rightarrow> False)"

lemma demo_stops: "stop_reported (snd demo_stop)"
  by code_simp

theorem stale_identity_never_stops_witness:
  "\<exists>tr' out. demo_stop = (tr', Inr out) \<and> so_stopped out \<and> seen_stopped demo_loads demo_docker ''c1'' tr'"
proof -
  obtain tr' r where r: "demo_stop = (tr', r)" by (metis surj_pair)
  obtain out where out: "r = Inr out" "so_stopped out"
    using demo_stops unfolding r stop_reported_def snd_conv by (cases r) auto
  from stale_identity_never_stops [OF r [unfolded demo_stop_def]] r out show ?thesis
    by (intro exI [of _ tr'] exI [of _ out]) (simp add: demo_identity_def)
qed

section \<open>The helper and its client agree\<close>

lemma helper_models_ok:
  "helper_models run inspector port_open dep cfg ids stopped tr = (tr', Inr out) \<Longrightarrow> out = stopped @ ids"
proof (induction ids arbitrary: stopped tr)
  case Nil
  then show ?case by simp
next
  case (Cons m ids)
  from Cons.prems Cons.IH show ?case
    by (fastforce simp: Let_def split: sum.splits option.splits if_splits)
qed

lemma helper_body_ok:
  "helper_body run inspector port_open control_stopped manifest tr = (tr', Inr r) \<Longrightarrow> r = helper_ok (sort (dkeys helper_ports))"
  by (auto simp: helper_body_def Let_def dest!: helper_models_ok
      split: sum.splits option.splits json.splits prod.splits if_splits)

lemma sorted_helper_models: "sort (dkeys helper_ports) = [''embedding'', ''qwen-large'', ''qwen-small'', ''reranker'']"
  by code_simp

text \<open>The successful result as the client reads it.\<close>

definition recovery_complete :: RecoveryResult where
  "recovery_complete = \<lparr>rec_ok = True, rec_phase = ''complete'', rec_error_code = None,
     rec_stopped_models = sort (dkeys helper_ports)\<rparr>"

lemma parse_helper_ok: "loads out = Some (helper_ok (sort (dkeys helper_ports))) \<Longrightarrow> parse_result loads out = Inr recovery_complete"
  unfolding sorted_helper_models
  by (auto simp: parse_result_def helper_ok_def parse_result_fields_def recovery_complete_def sorted_helper_models Let_def)

lemma parse_helper_failed: "loads out = Some helper_failed \<Longrightarrow> parse_result loads out = Inr (recovery_failed ''control_recovery_failed'')"
  by (auto simp: parse_result_def helper_failed_def parse_result_fields_def recovery_failed_def Let_def)


text \<open>A manifest of the four managed models.\<close>

definition demo_manifest :: "(string, json) dict" where
  "demo_manifest = [(''deployment_id'', JStr ''lab''), (''config_sha256'', JStr (replicate 64 (CHR ''0''))),
     (''models'', JObj (map (\<lambda>(m, p). (m, JObj [(''container_name'', JStr (''sms-lab-'' @ m))])) helper_ports))]"

lemma demo_manifest_ok: "last_wins (JObj demo_manifest) = JObj demo_manifest"
  "manifest_checks demo_manifest = Inr (''lab'', replicate 64 (CHR ''0''))"
  by code_simp+




text \<open>A Docker command that times out leaves the reconciliation as an exception instead of an outcome.\<close>

lemma reconcile_raises_on_stop_timeout:
  assumes "deadline > clock 0" and "deadline > clock 1" and "list_container_ids dep None docker tr = (t, Inr [c])"
    and "inspect_one loads docker c t = (u, Inr (Present f))" and "dget (cf_labels f) DEPLOYMENT_LABEL = Some dep" and "cf_running f"
    and "docker u (stop_argv c) = Inl (ObservationError m)"
  shows "snd (snd (reconcile loads docker clock dep close deadline s tr)) = Inl (ObservationError m)"
  using assms inspect_Present [OF assms(4)]
  by (simp add: reconcile_def verified_stop_def stop_and_verify_def call_def)

end
