(* ===== verification/Startup.thy ===== *)
theory Startup
  imports Control_Recovery Book_Properties Registration_Parser
begin

text \<open>
  The startup composition of \<^verbatim>\<open>model_scheduler/runtime.py\<close>: a parsed registration becomes the specs of the
  accounting book, and the book opens only after reconciliation and independent observation.  The facts that change
  between calls are given by the trace of Docker commands so far: \<open>port_state tr\<close>, \<open>process_state tr\<close> and the clocks
  \<open>now tr\<close> of the observers.
\<close>

section \<open>Ledger specs\<close>

text \<open>\<open>config\<close> is the dictionary that \<^verbatim>\<open>model_specs(config)\<close> makes of a v1 configuration.\<close>

definition ledger_specs_from :: "(string, Registration) dict option \<Rightarrow> DeploymentSpec option \<Rightarrow> (string, Registration) dict result" where
  "ledger_specs_from config registration =
     (case (config, registration) of
        (Some sps, None) \<Rightarrow> Inr sps
      | (None, Some reg) \<Rightarrow>
          rbind (raise_if (\<not> distinct (map rm_model_id (dep_models reg))) (ValueError ''the registration declares duplicate model ids'')) (\<lambda>_.
          rbind (raise_if (\<not> set (map rm_runtime_id (dep_models reg)) \<subseteq> set (map rs_runtime_id (dep_runtimes reg)))
                   (ValueError ''models reference unknown runtimes'')) (\<lambda>_.
          Inr (map (\<lambda>m. (rm_model_id m, RegV2 m)) (dep_models reg))))
      | _ \<Rightarrow> Inl (ValueError ''exactly one of config or registration is required''))"

section \<open>Startup reconciliation\<close>

record StartupReconciliation =
  sr_ok :: bool
  sr_error_code :: "string option"
  sr_confirmed_stopped :: "string list"
  sr_unproven :: "string list"
  sr_remaining_container_ids :: "string list"

text \<open>What the host answers.\<close>

record Host =
  h_loads :: "string \<Rightarrow> json option"
  h_docker :: docker
  h_clock :: "nat \<Rightarrow> time"
  h_port_state :: "string list list \<Rightarrow> int \<Rightarrow> string"
  h_process_state :: "string list list \<Rightarrow> int \<Rightarrow> string"
  h_launch :: "DockerProcessObserver \<Rightarrow> LaunchOperation option"
  h_now :: "string list list \<Rightarrow> time"
  h_utc :: "string list list \<Rightarrow> time"

definition observe_on :: "Host \<Rightarrow> time \<Rightarrow> DockerProcessObserver \<Rightarrow> ObservationTarget \<Rightarrow> string list list \<Rightarrow> string list list \<times> ObservationV3 result" where
  "observe_on host deadline self target tr =
     observe (h_loads host) (h_docker host) (h_port_state host tr) (h_process_state host tr) self target (h_launch host self)
       (h_now host tr) (h_utc host tr) deadline tr"

fun observe_models ::
  "Host \<Rightarrow> time \<Rightarrow> string \<Rightarrow> string list \<Rightarrow> (string, DockerProcessObserver) dict \<Rightarrow> string list \<Rightarrow> string list \<Rightarrow> string list list
    \<Rightarrow> string list list \<times> (string list \<times> string list) result" where
  "observe_models host deadline dep known [] confirmed unproven tr = (tr, Inr (confirmed, unproven))"
| "observe_models host deadline dep known ((model_id, self) # rest) confirmed unproven tr =
     (if model_id \<notin> set known
      then observe_models host deadline dep known rest confirmed (List.insert model_id unproven) tr
      else case check_target \<lparr>ot_deployment_id = dep, ot_container_id = None, ot_process_group_id = None\<rparr> of
             Inl e \<Rightarrow> (tr, Inl e)
           | Inr target \<Rightarrow>
               (case observe_on host deadline self target tr of
                  (tr', Inl e) \<Rightarrow> (tr', Inl e)
                | (tr', Inr ob) \<Rightarrow>
                    if ov_state ob = ''stopped''
                    then observe_models host deadline dep known rest (List.insert model_id confirmed) unproven tr'
                    else observe_models host deadline dep known rest confirmed (List.insert model_id unproven) tr'))"

definition reconcile_startup ::
  "Host \<Rightarrow> Book \<Rightarrow> string \<Rightarrow> (string, DockerProcessObserver) dict \<Rightarrow> time \<Rightarrow> string list list
    \<Rightarrow> Book \<times> string list list \<times> StartupReconciliation result" where
  "reconcile_startup host b dep observers deadline tr =
     (let (b1, ep) = begin_recovery b;
          (b2, tr1, r) = reconcile (h_loads host) (h_docker host) (h_clock host) dep (\<lambda>b. fst (begin_recovery b)) deadline b1 tr
      in case r of
           Inl e \<Rightarrow> (b2, tr1, Inl e)
         | Inr out \<Rightarrow>
             (case observe_models host deadline dep (dkeys (specs b2)) observers []
                     (filter (\<lambda>m. m \<notin> set (dkeys observers)) (dkeys (specs b2))) tr1 of
                (tr2, Inl e) \<Rightarrow> (b2, tr2, Inl e)
              | (tr2, Inr (confirmed, unproven)) \<Rightarrow>
                  if \<not> ro_ok out
                  then (b2, tr2, Inr \<lparr>sr_ok = False, sr_error_code = ro_error_code out, sr_confirmed_stopped = confirmed,
                          sr_unproven = unproven, sr_remaining_container_ids = ro_remaining_container_ids out\<rparr>)
                  else if unproven \<noteq> []
                  then (b2, tr2, Inr \<lparr>sr_ok = False, sr_error_code = Some ''unproven_stop'', sr_confirmed_stopped = confirmed,
                          sr_unproven = unproven, sr_remaining_container_ids = []\<rparr>)
                  else (case finish_recovery b2 ep confirmed of
                          Inl e \<Rightarrow> (b2, tr2, Inl e)
                        | Inr b3 \<Rightarrow> (b3, tr2, Inr \<lparr>sr_ok = True, sr_error_code = None, sr_confirmed_stopped = confirmed,
                            sr_unproven = [], sr_remaining_container_ids = []\<rparr>))))"

section \<open>A registration builds its book\<close>

lemma find_runtime_known: "find_runtime rs rid = Some r \<Longrightarrow> rid \<in> rs_runtime_id ` set rs"
  by (auto simp: find_runtime_def find_Some_iff image_iff)

lemma from_registration_v2:
  assumes "model_ok m"
  obtains l where "from_registration (RegV2 m) mrg = Inr l" and "ls_effective_reserved_bytes l = rm_reserved_bytes m"
    and "ls_max_concurrency l = env_max_parallel (rm_envelope m)"
proof -
  have pos: "0 < rm_reserved_bytes m" "0 < env_max_parallel (rm_envelope m)"
    and peak: "\<And>p. rm_physical_resident_peak_bytes m = Some p \<Longrightarrow> 0 < p"
    using assms by (auto simp: model_ok_def envelope_ok_def measurement_ok_def split: if_splits)
  then show thesis
    by (cases "rm_physical_resident_peak_bytes m")
       (auto simp: effective_reserved_bytes_def positive_int_def physical_reserved_bytes_from_peak_def intro: that)
qed

lemma ledger_from_v2:
  "\<forall>m \<in> set ms. model_ok m \<Longrightarrow>
     \<exists>ls. ledger_from mrg (map (\<lambda>m. (rm_model_id m, RegV2 m)) ms) = Inr ls
       \<and> map (\<lambda>(i, l). (i, ls_effective_reserved_bytes l, ls_max_concurrency l)) ls
           = map (\<lambda>m. (rm_model_id m, rm_reserved_bytes m, env_max_parallel (rm_envelope m))) ms"
proof (induction ms)
  case Nil
  then show ?case by simp
next
  case (Cons m ms)
  have "model_ok m" using Cons.prems by simp
  from from_registration_v2 [OF this, of mrg] obtain l where l: "from_registration (RegV2 m) mrg = Inr l"
    "ls_effective_reserved_bytes l = rm_reserved_bytes m" "ls_max_concurrency l = env_max_parallel (rm_envelope m)" .
  from Cons obtain ls where ls: "ledger_from mrg (map (\<lambda>m. (rm_model_id m, RegV2 m)) ms) = Inr ls"
    "map (\<lambda>(i, l). (i, ls_effective_reserved_bytes l, ls_max_concurrency l)) ls
       = map (\<lambda>m. (rm_model_id m, rm_reserved_bytes m, env_max_parallel (rm_envelope m))) ms" by auto
  show ?case using l ls by (intro exI [of _ "(rm_model_id m, l) # ls"]) (simp del: from_registration.simps)
qed

text \<open>
  C37. An accepted deployment document gives a startable book.  The registration becomes ledger specs, the book is
  built without an exception under every valid memory and heat policy, it is a start state of the book's machine
  that satisfies the invariant, each model enters with exactly its registered reservation (no margin is applied a
  second time), and admits as many leases as its envelope allows.
\<close>

theorem accepted_deployment_starts_book:
  assumes "parse_deployment doc = Inr d" and "0 < budget" and "0 \<le> flr" and "0 \<le> mrg" and "mrg \<le> 1"
    and "0 < age" and "0 < hl" and "0 \<le> rw" and "0 \<le> tw"
  shows "\<exists>sps b. ledger_specs_from None (Some d) = Inr sps \<and> book_init sps budget flr mrg age hl rw tw = Inr b
    \<and> book_start (b, {}) \<and> book_inv b
    \<and> map (\<lambda>(i, r). (i, rt_reservation r)) (runtime b) = map (\<lambda>m. (rm_model_id m, rm_reserved_bytes m)) (dep_models d)
    \<and> map (\<lambda>(i, l). (i, ls_max_concurrency l)) (ledger b) = map (\<lambda>m. (rm_model_id m, env_max_parallel (rm_envelope m))) (dep_models d)"
proof -
  define sps where "sps = map (\<lambda>m. (rm_model_id m, RegV2 m)) (dep_models d)"
  have ok: "deployment_ok d" using parse_deployment_sound [OF assms(1)] .
  then have ms: "\<forall>m \<in> set (dep_models d). model_ok m" "distinct (map rm_model_id (dep_models d))" "dep_models d \<noteq> []"
    by (auto simp: deployment_ok_def)
  have rts: "set (map rm_runtime_id (dep_models d)) \<subseteq> set (map rs_runtime_id (dep_runtimes d))"
    using ok find_runtime_known by (fastforce simp: deployment_ok_def)
  have sps: "ledger_specs_from None (Some d) = Inr sps" using ms rts by (simp add: ledger_specs_from_def sps_def)
  obtain ls where ls: "ledger_from mrg sps = Inr ls"
    and img: "map (\<lambda>(i, l). (i, ls_effective_reserved_bytes l, ls_max_concurrency l)) ls
       = map (\<lambda>m. (rm_model_id m, rm_reserved_bytes m, env_max_parallel (rm_envelope m))) (dep_models d)"
    using ledger_from_v2 [OF ms(1), of mrg] unfolding sps_def by blast
  have conc: "\<forall>l \<in> set (dvals ls). 0 < ls_max_concurrency l"
  proof
    fix l assume "l \<in> set (dvals ls)"
    then have "ls_max_concurrency l \<in> set (map (snd \<circ> snd) (map (\<lambda>(i, l). (i, ls_effective_reserved_bytes l, ls_max_concurrency l)) ls))"
      by force
    then show "0 < ls_max_concurrency l" unfolding img using ms(1) by (auto simp: model_ok_def envelope_ok_def)
  qed
  obtain b where b: "book_init sps budget flr mrg age hl rw tw = Inr b"
    and fields: "runtime b = map (\<lambda>(mid, l). (mid, new_runtime (ls_effective_reserved_bytes l))) ls" "ledger b = ls"
  proof -
    have "\<not> (\<exists>l \<in> set (dvals ls). ls_max_concurrency l \<le> 0)" "\<not> (sps = [] \<or> (\<exists>(mid, spec) \<in> set sps. mid \<noteq> reg_model_id spec))"
      using conc ms(3) by (auto simp: sps_def)
    then show thesis using that assms(2-9) ls by (simp add: book_init_def del: bex_simps)
  qed
  have dist: "distinct (dkeys sps)" using ms(2) by (simp add: sps_def comp_def)
  have "map (\<lambda>(i, r). (i, rt_reservation r)) (runtime b)
      = map (\<lambda>(i, e, c). (i, e)) (map (\<lambda>(i, l). (i, ls_effective_reserved_bytes l, ls_max_concurrency l)) ls)"
    by (simp add: fields new_runtime_def case_prod_beta comp_def)
  moreover have "map (\<lambda>(i, l). (i, ls_max_concurrency l)) (ledger b)
      = map (\<lambda>(i, e, c). (i, c)) (map (\<lambda>(i, l). (i, ls_effective_reserved_bytes l, ls_max_concurrency l)) ls)"
    by (simp add: fields case_prod_beta comp_def)
  moreover have "book_start (b, {})" unfolding book_start_def fst_conv using dist b by blast
  ultimately show ?thesis using sps b book_inv_init(1) [OF dist b] unfolding img by (auto simp: comp_def)
qed

theorem accepted_deployment_starts_book_witness:
  "parse_deployment (JObj ((''schema_version'', JInt 2) # deployment_fields demo_deployment)) = Inr demo_deployment
   \<and> (\<exists>sps b. ledger_specs_from None (Some demo_deployment) = Inr sps \<and> book_init sps 1000 0 0 10 60 1 1 = Inr b
        \<and> map (\<lambda>(i, r). (i, rt_reservation r)) (runtime b) = [(''chat-1'', 115)])"
proof -
  have p: "parse_deployment (JObj ((''schema_version'', JInt 2) # deployment_fields demo_deployment)) = Inr demo_deployment"
    by (rule parse_deployment_json [OF demo_deployment_ok])
  from accepted_deployment_starts_book [OF p, of 1000 0 0 10 60 1 1] p show ?thesis
    by (auto simp: demo_deployment_def demo_model_def)
qed

section \<open>Startup opens only with proof\<close>

text \<open>During the part of the trace after \<open>tr\<close>, the observer's listing showed no running container and its port was closed.\<close>

definition stop_evidence :: "Host \<Rightarrow> DockerProcessObserver \<Rightarrow> string list list \<Rightarrow> string list list \<Rightarrow> bool" where
  "stop_evidence host self tr tr' \<longleftrightarrow>
     (\<exists>w t' w' facts. observer_facts (h_loads host) (h_docker host) self (tr @ w) = (t', Inr facts) \<and> tr' = t' @ w'
        \<and> (\<forall>f \<in> set facts. \<not> cf_running f) \<and> h_port_state host (tr @ w) (dpo_port self) = ''closed''
        \<and> (\<forall>l. h_launch host self = Some l \<longrightarrow> is_terminal l))"

lemma stop_evidence_weaken: "stop_evidence host self (tr @ w) t \<Longrightarrow> stop_evidence host self tr (t @ v)"
  unfolding stop_evidence_def by (metis append_assoc)

lemma observe_on_stopped:
  assumes "observe_on host deadline self \<lparr>ot_deployment_id = dep, ot_container_id = None, ot_process_group_id = None\<rparr> tr = (tr', Inr ob)"
    and "ov_state ob = ''stopped''"
  shows "stop_evidence host self tr tr'"
proof -
  define target where "target = \<lparr>ot_deployment_id = dep, ot_container_id = None, ot_process_group_id = None\<rparr>"
  have ob: "observe (h_loads host) (h_docker host) (h_port_state host tr) (h_process_state host tr) self target (h_launch host self)
       (h_now host tr) (h_utc host tr) deadline tr = (tr', Inr ob)" using assms(1) by (simp add: observe_on_def target_def)
  have "ov_state ob \<noteq> ''unknown''" using assms(2) by simp
  from observe_Inr [OF ob this] obtain facts where f: "observer_facts (h_loads host) (h_docker host) self tr = (tr', Inr facts)"
    "observe_facts self target facts (h_port_state host tr (dpo_port self))
       (subprocess_state_of (h_process_state host tr) target (h_launch host self)) (h_launch host self) = Inr (''stopped'', ov_instance ob)"
    using assms(2) by metis
  have "\<forall>g \<in> set facts. \<not> cf_running g" using observe_facts_stopped [OF f(2)] by (simp add: aimed_def target_def)
  with observe_facts_stopped [OF f(2)] f(1) show ?thesis
    unfolding stop_evidence_def by (intro exI [of _ "[]"] exI [of _ tr'] exI [of _ facts]) auto
qed

lemma reads_guarded: "list_all reads w \<Longrightarrow> guarded own tr (tr @ w)"
  by (induction w rule: rev_induct) (auto simp: guarded.start simp flip: append_assoc intro: guarded.read)

lemma observe_on_guarded: "observe_on host deadline self target tr = (tr', r) \<Longrightarrow> guarded own tr tr'"
  unfolding observe_on_def by (drule observe_reads) (auto intro: reads_guarded)

lemma check_target_Inr: "check_target t = Inr u \<Longrightarrow> u = t"
  by (auto simp: check_target_def split: option.splits)

text \<open>One pass of the observation loop.\<close>

lemma observe_models_cases:
  assumes "observe_models host deadline dep known ((m, self) # rest) confirmed unproven tr = (tr', r)"
  obtains (raise) e where "guarded own tr tr'" and "r = Inl e"
  | (confirm) t where "m \<in> set known" and "guarded own tr t" and "stop_evidence host self tr t"
      and "observe_models host deadline dep known rest (List.insert m confirmed) unproven t = (tr', r)"
  | (reject) t where "guarded own tr t"
      and "observe_models host deadline dep known rest confirmed (List.insert m unproven) t = (tr', r)"
proof (cases "m \<in> set known")
  case False
  then show thesis using assms reject [OF guarded.start] by simp
next
  case True
  define target where "target = \<lparr>ot_deployment_id = dep, ot_container_id = None, ot_process_group_id = None\<rparr>"
  show thesis
  proof (cases "check_target target")
    case (Inl e)
    then show thesis using assms True raise [of e] by (simp add: target_def guarded.start)
  next
    case (Inr u)
    then have u: "check_target target = Inr target" using check_target_Inr by blast
    obtain t x where o: "observe_on host deadline self target tr = (t, x)" by (metis surj_pair)
    note g = observe_on_guarded [OF o, of own]
    show thesis
    proof (cases x)
      case (Inl e)
      then show thesis using assms True u o g raise [of e] by (simp add: target_def)
    next
      case (Inr ob)
      show thesis
      proof (cases "ov_state ob = ''stopped''")
        case st: True
        have "stop_evidence host self tr t" using observe_on_stopped o Inr st by (simp add: target_def)
        then show thesis using assms True u o g Inr st confirm [of t] by (simp add: target_def)
      next
        case st: False
        then show thesis using assms True u o g Inr reject [of t] by (simp add: target_def)
      qed
    qed
  qed
qed

lemma observe_models_guarded:
  "observe_models host deadline dep known obs confirmed unproven tr = (tr', r) \<Longrightarrow> guarded own tr tr'"
proof (induction obs arbitrary: confirmed unproven tr)
  case Nil
  then show ?case by (simp add: guarded.start)
next
  case (Cons p obs)
  obtain m self where p: "p = (m, self)" by (cases p)
  from Cons.prems show ?case unfolding p
    by (cases rule: observe_models_cases [where own = own]) (auto dest: Cons.IH intro: guarded_trans)
qed

lemma observe_models_sound:
  assumes "observe_models host deadline dep known obs confirmed unproven tr = (tr', Inr (cs, us))"
  shows "set unproven \<subseteq> set us \<and> set confirmed \<subseteq> set cs \<and> set known \<inter> set (dkeys obs) \<subseteq> set cs \<union> set us
    \<and> (\<forall>m \<in> set cs. m \<in> set confirmed \<or> (\<exists>self. (m, self) \<in> set obs \<and> stop_evidence host self tr tr'))"
  using assms
proof (induction obs arbitrary: confirmed unproven tr)
  case Nil
  then show ?case by simp
next
  case (Cons p obs)
  obtain m self where p: "p = (m, self)" by (cases p)
  have shift: "stop_evidence host o' t tr' \<Longrightarrow> stop_evidence host o' tr tr'" if "guarded (\<lambda>_ _. False) tr t" for o' t
    using guarded_grows [OF that] stop_evidence_weaken [of host o' tr _ tr' "[]"] by auto
  from Cons.prems [unfolded p] show ?case
  proof (cases rule: observe_models_cases [where own = "\<lambda>_ _. False"])
    case (raise e)
    then show ?thesis by simp
  next
    case (confirm t)
    obtain w where "tr' = t @ w" using guarded_grows [OF observe_models_guarded [OF confirm(4), of "\<lambda>_ _. False"]] by blast
    then have "stop_evidence host self tr tr'" using stop_evidence_weaken [of host self tr "[]" t w] confirm(3) by simp
    with Cons.IH [OF confirm(4)] shift [OF confirm(2)] show ?thesis unfolding p set_insert list.map fst_conv list.set by blast
  next
    case (reject t)
    from Cons.IH [OF reject(2)] shift [OF reject(1)] show ?thesis unfolding p set_insert list.map fst_conv list.set by blast
  qed
qed

lemma begin_recovery_twice: "begin_recovery (fst (begin_recovery b)) = begin_recovery b" "recovering (fst (begin_recovery b))"
  "specs (fst (begin_recovery b)) = specs b"
  by (simp_all add: begin_recovery_def)

text \<open>How the call ends: admission still closed, or the book reopened by \<^verbatim>\<open>finish_recovery\<close>.\<close>

lemma reconcile_startup_cases:
  assumes "reconcile_startup host b dep observers deadline tr = (b', tr', r)"
  obtains (closed) "b' = fst (begin_recovery b)" and "\<forall>sr. r = Inr sr \<longrightarrow> \<not> sr_ok sr"
    and "guarded (own_running (h_loads host) (h_docker host) dep) tr tr'"
  | (opened) out t cs sr where
      "reconcile (h_loads host) (h_docker host) (h_clock host) dep (\<lambda>b. fst (begin_recovery b)) deadline (fst (begin_recovery b)) tr
         = (fst (begin_recovery b), t, Inr out)" and "ro_ok out"
      and "observe_models host deadline dep (dkeys (specs b)) observers []
             (filter (\<lambda>m. m \<notin> set (dkeys observers)) (dkeys (specs b))) t = (tr', Inr (cs, []))"
      and "finish_recovery (fst (begin_recovery b)) (snd (begin_recovery b)) cs = Inr b'" and "r = Inr sr" and "sr_ok sr"
proof -
  obtain b1 ep where b1: "begin_recovery b = (b1, ep)" by (metis surj_pair)
  then have b2: "begin_recovery b1 = (b1, ep)" "specs b1 = specs b" using begin_recovery_twice [of b] by simp_all
  obtain b2 t x where rec: "reconcile (h_loads host) (h_docker host) (h_clock host) dep (\<lambda>b. fst (begin_recovery b)) deadline b1 tr = (b2, t, x)"
    by (metis prod_cases3)
  then have "b2 = b1" using \<open>begin_recovery b1 = (b1, ep)\<close> by (simp add: reconcile_def)
  note g1 = reconcile_guarded [OF rec]
  define om where "om = observe_models host deadline dep (dkeys (specs b)) observers []
      (filter (\<lambda>m. m \<notin> set (dkeys observers)) (dkeys (specs b))) t"
  obtain u y where o: "om = (u, y)" by (metis surj_pair)
  note g2 = guarded_trans [OF observe_models_guarded [OF o [unfolded om_def]] g1]
  show thesis
  proof (cases x)
    case (Inl e)
    then show thesis using assms rec b1 b2 \<open>b2 = b1\<close> g1 by (intro closed) (auto simp: reconcile_startup_def)
  next
    case (Inr out)
    have eq: "reconcile_startup host b dep observers deadline tr =
        (case om of (tr2, Inl e) \<Rightarrow> (b1, tr2, Inl e)
         | (tr2, Inr (confirmed, unproven)) \<Rightarrow>
             if \<not> ro_ok out
             then (b1, tr2, Inr \<lparr>sr_ok = False, sr_error_code = ro_error_code out, sr_confirmed_stopped = confirmed,
                     sr_unproven = unproven, sr_remaining_container_ids = ro_remaining_container_ids out\<rparr>)
             else if unproven \<noteq> []
             then (b1, tr2, Inr \<lparr>sr_ok = False, sr_error_code = Some ''unproven_stop'', sr_confirmed_stopped = confirmed,
                     sr_unproven = unproven, sr_remaining_container_ids = []\<rparr>)
             else (case finish_recovery b1 ep confirmed of
                     Inl e \<Rightarrow> (b1, tr2, Inl e)
                   | Inr b3 \<Rightarrow> (b3, tr2, Inr \<lparr>sr_ok = True, sr_error_code = None, sr_confirmed_stopped = confirmed,
                       sr_unproven = [], sr_remaining_container_ids = []\<rparr>)))"
      unfolding reconcile_startup_def b1 Let_def prod.case rec \<open>b2 = b1\<close> Inr sum.case b2(2) om_def ..
    show thesis
    proof (cases "\<exists>cs b3. y = Inr (cs, []) \<and> ro_ok out \<and> finish_recovery b1 ep cs = Inr b3")
      case True
      then obtain cs b3 where c: "y = Inr (cs, [])" "ro_ok out" "finish_recovery b1 ep cs = Inr b3" by blast
      show thesis using assms rec Inr o c b1 \<open>b2 = b1\<close> unfolding eq
        by (intro opened [of t out cs "\<lparr>sr_ok = True, sr_error_code = None, sr_confirmed_stopped = cs,
              sr_unproven = [], sr_remaining_container_ids = []\<rparr>"]) (auto simp: om_def)
    next
      case False
      then show thesis using assms o b1 g2 unfolding eq
        by (intro closed) (auto split: sum.splits if_splits)
    qed
  qed
qed

text \<open>
  C1. The service opens only with proof.  After startup reconciliation the book accepts work exactly when the call
  reported success.  Then every model of the book has an observer whose listing, made during the call, showed no
  running container of that model with its port closed and its launcher terminal, every container in the listing of
  the deployment was seen gone or not running, and the book holds no reservation.  Otherwise admission stays closed.
  On every path, exceptions included, the only commands besides reads are stops of running containers of this deployment.
\<close>

theorem startup_opens_only_with_proof:
  assumes "reconcile_startup host b dep observers deadline tr = (b', tr', r)"
  shows "(\<not> recovering b' \<longleftrightarrow> (\<exists>sr. r = Inr sr \<and> sr_ok sr))
    \<and> (\<not> recovering b' \<longrightarrow>
         (\<forall>m \<in> set (dkeys (specs b)). \<exists>self. (m, self) \<in> set observers \<and> stop_evidence host self tr tr')
         \<and> (\<exists>t ids. list_container_ids dep None (h_docker host) tr = (t, Inr ids)
              \<and> (\<forall>c \<in> set ids. \<exists>u w. tr' = u @ w \<and> seen_stopped (h_loads host) (h_docker host) c u))
         \<and> (\<forall>m rt. (m, rt) \<in> set (runtime b') \<longrightarrow> rt_state rt = UNLOADED \<and> rt_reservation rt = 0 \<and> rt_leases rt = []))
    \<and> (\<forall>pre argv post. tr' = pre @ argv # post \<longrightarrow> length tr \<le> length pre
         \<longrightarrow> reads argv \<or> (\<exists>c. argv = stop_argv c \<and> own_running (h_loads host) (h_docker host) dep c pre))"
  using assms
proof (cases rule: reconcile_startup_cases)
  case closed
  have "recovering b'" using closed(1) begin_recovery_twice(2) by simp
  with closed(2) guarded_stops [OF closed(3)] show ?thesis by blast
next
  case (opened out t cs sr)
  note rec = reconcile_outcome [OF opened(1)] and obs = observe_models_sound [OF opened(3)]
  have grow: "guarded (own_running (h_loads host) (h_docker host) dep) tr tr'"
    using guarded_trans [OF observe_models_guarded [OF opened(3)] reconcile_guarded [OF opened(1)]] .
  obtain w where w: "t = tr @ w" using guarded_grows [OF reconcile_guarded [OF opened(1)]] by blast
  obtain v where v: "tr' = t @ v" using guarded_grows [OF observe_models_guarded [OF opened(3), of "\<lambda>_ _. False"]] by blast
  have known: "set (dkeys (specs b)) \<subseteq> set cs" using obs by auto
  have shift: "stop_evidence host self t tr' \<Longrightarrow> stop_evidence host self tr tr'" for self
    using stop_evidence_weaken [of host self tr w tr' "[]"] w by simp
  have ev: "\<forall>m \<in> set (dkeys (specs b)). \<exists>self. (m, self) \<in> set observers \<and> stop_evidence host self tr tr'"
    using known obs shift unfolding list.set by blast
  from rec opened(2) obtain t0 ids where ids: "list_container_ids dep None (h_docker host) tr = (t0, Inr ids)"
    "mset (ro_stopped_container_ids out) = mset ids" by blast
  have "\<forall>c \<in> set ids. \<exists>u w. tr' = u @ w \<and> seen_stopped (h_loads host) (h_docker host) c u"
    using rec unfolding v append_assoc mset_eq_setD [OF ids(2)] by (metis append_assoc)
  moreover have "\<not> recovering b'" "\<forall>m rt. (m, rt) \<in> set (runtime b') \<longrightarrow> rt_state rt = UNLOADED \<and> rt_reservation rt = 0 \<and> rt_leases rt = []"
    using opened(4) by (force simp: finish_recovery_def case_prod_beta)+
  ultimately show ?thesis using opened(5,6) ev ids(1) guarded_stops [OF grow] by blast
qed

definition demo_host :: Host where
  "demo_host = \<lparr>h_loads = demo_loads, h_docker = demo_docker, h_clock = (\<lambda>_. 0),
     h_port_state = (\<lambda>tr _. if demo_stopped tr then ''closed'' else ''listening''), h_process_state = (\<lambda>_ _. ''absent''),
     h_launch = (\<lambda>_. None), h_now = (\<lambda>_. 0), h_utc = (\<lambda>_. 0)\<rparr>"

definition demo_startup :: "Book \<times> string list list \<times> StartupReconciliation result" where
  "demo_startup = reconcile_startup demo_host demo_book ''lab'' [(''a'', demo_observer), (''b'', demo_observer)] 1 []"

definition started :: "StartupReconciliation result \<Rightarrow> bool" where
  "started r = (case r of Inr sr \<Rightarrow> sr_ok sr | Inl e \<Rightarrow> False)"

lemma demo_startup_ok: "started (snd (snd demo_startup))"
  by code_simp

theorem startup_opens_only_with_proof_witness:
  "\<exists>b' tr' sr. demo_startup = (b', tr', Inr sr) \<and> sr_ok sr \<and> \<not> recovering b'
     \<and> (\<forall>m \<in> set (dkeys (specs demo_book)). \<exists>self. (m, self) \<in> set [(''a'', demo_observer), (''b'', demo_observer)]
          \<and> stop_evidence demo_host self [] tr')"
proof -
  obtain b' tr' r where r: "demo_startup = (b', tr', r)" by (metis prod_cases3)
  obtain sr where sr: "r = Inr sr" "sr_ok sr"
    using demo_startup_ok unfolding r started_def snd_conv by (cases r) auto
  from startup_opens_only_with_proof [OF r [unfolded demo_startup_def]] r sr show ?thesis by blast
qed

end
