(* ===== verification/Spec2Isabelle.thy ===== *)
theory Spec2Isabelle
  imports Scheduler_Properties Execution_Properties Startup
begin

text \<open>
  A model of the single-device model scheduler of \<^verbatim>\<open>src/model_scheduler\<close> with the theorems that make it
  correct.

  \<^bold>\<open>The program.\<close>  One process owns a device with a fixed memory budget.  Interactive requests and
  exclusive sessions wait in a queue (\<^verbatim>\<open>request_queue.py\<close>); the scheduler (\<^verbatim>\<open>scheduler.py\<close>) decides under
  one condition which model is loaded, leased, evicted or stopped, and books every decision in the
  accounting book (\<^verbatim>\<open>model_registry.py\<close>), which keeps residency states, operation tokens, leases and the two
  memory ledgers.  Victims come from \<^verbatim>\<open>eviction_policy.py\<close>, sessions live in \<^verbatim>\<open>session_manager.py\<close>.  On top of a
  session runs the execution service (\<^verbatim>\<open>execution_service.py\<close>), which takes leases from the scheduler, holds
  its inputs and outputs in the blob store (\<^verbatim>\<open>blob_store.py\<close> over \<^verbatim>\<open>blob_metadata.py\<close>), and settles each
  execution from termination evidence.  Writes are made idempotent by \<^verbatim>\<open>idempotency.py\<close>.  The registered
  models come from strict parsers (\<^verbatim>\<open>contracts_v2.py\<close>), and clients speak \<^verbatim>\<open>control_protocol_v1.py\<close>.

  \<^bold>\<open>Conventions.\<close>  \<open>Prelude\<close> holds them: an exception is a value of \<open>exn\<close>, a call that can raise returns
  \<open>exn + 'a\<close>, a dictionary is an association list in insertion order, a dataclass is a record, an enumeration
  is a datatype.  Python's unbounded integers are \<open>int\<close>; times and weights, which the code keeps in floating
  point, are reals.  What the code takes from outside (clocks, \<^verbatim>\<open>uuid4\<close>, hashes, file-system outcomes, the
  reports of a backend) is an argument.  A critical section, that is the code between two points at which a
  coroutine can be suspended, is one function from state to state; runs are sequences of such sections in any
  order, so that a theorem about every run is a theorem about every interleaving.  \<open>Prelude\<close> also has the
  two generic interfaces of the development: the locale \<open>machine\<close> (start states, a step relation, an
  invariant that steps keep) and the locale \<open>step_refinement\<close> (a simulation between two machines).

  \<^bold>\<open>Theories.\<close>
  \<^item> \<open>Contracts\<close>, \<open>Contracts_V2\<close>: the shared data of \<^verbatim>\<open>contracts.py\<close> and \<^verbatim>\<open>contracts_v2.py\<close>, and the exact integer
    arithmetic of reservations.
  \<^item> \<open>Json_Values\<close>, \<open>Registration_Parser\<close>: the strict parsers of \<^verbatim>\<open>contracts_v2.py\<close>.  A document is accepted
    exactly when it is well formed, and a written deployment is read back; the reservation formula is the
    exact ceiling.
  \<^item> \<open>Control_Protocol\<close>: the parsers, error table and write-back rule of \<^verbatim>\<open>control_protocol_v1.py\<close>.
  \<^item> \<open>Request_Queue\<close>: \<^verbatim>\<open>RequestQueue\<close>, with the locale \<open>waiter_queue\<close> for what its clients rely on.
    Well-formedness, the served head, bounded overtaking.
  \<^item> \<open>Model_Registry\<close>: every method of \<^verbatim>\<open>Book\<close>.  \<open>Book_Invariant\<close>: its invariant and its preservation.
    \<open>Book_Machine\<close>, \<open>Book_Properties\<close>: the book along all runs: budget, tokens, leases, recovery.
  \<^item> \<open>Eviction_Policy\<close>: candidates, score, order and the shortest sufficient prefix.
  \<^item> \<open>Session_Manager\<close>: the state machine of sessions.
  \<^item> \<open>Scheduler\<close>: every critical section of the scheduler.  \<open>Scheduler_Machine\<close>: the step relation and its
    refinement of book, queue and session manager.  \<open>Scheduler_Properties\<close>: what follows under every
    interleaving, when a lease is granted, shutdown, storage loss, stop batches.
  \<^item> \<open>Blob_Metadata\<close>, \<open>Blob_Store\<close>: metadata tables with their quotas, the staging and publication of files, and
    crash recovery from every intermediate state.
  \<^item> \<open>Idempotency\<close>: the registry of idempotency keys.
  \<^item> \<open>Execution_Service\<close>: the records, calls, scans and task sections of the service.  \<open>Execution_Machine\<close>: their
    interleaving, with the program counter of each task, and the invariant.  \<open>Execution_Properties\<close>: outcomes
    rest on evidence, are final, and give their lease back once.

  \<^bold>\<open>Termination and bounds.\<close>  Every function is total: loops over data are structural recursions, the
  block-wise read of a blob recurses on the remaining length.  No fuel is used.  The coroutine loops that wait
  for a condition are not functions: each pass through the loop is a step, and progress is stated for the pass
  in which the condition holds.

  \<^bold>\<open>Not modelled.\<close>  The reader of JSON and YAML text, SHA-256, HMAC and SQLite are library code; the model
  starts at their values.  The HTTP and socket surface (\<^verbatim>\<open>app.py\<close>, \<^verbatim>\<open>control_server.py\<close>, \<^verbatim>\<open>control_api.py\<close>,
  \<^verbatim>\<open>gateway.py\<close>), the llama-swap client, process composition (\<^verbatim>\<open>run.py\<close>, \<^verbatim>\<open>runtime.py\<close>) and the acceptance tooling
  drive the modelled components over the network and the operating system.
\<close>

end
